theory Spec2Isabelle
  imports Main "HOL-Library.Product_Lexorder"
begin

section \<open>The CP-SAT interface used by \<open>solver.py\<close>\<close>

text \<open>
  \<open>solve\<close> in \<open>solver.py\<close> builds a CP-SAT model and hands it to OR-Tools. The model is
  embedded deeply, so that it is a value one can inspect: integer variables are named as
  the f-strings of the source name them, \<open>new_constant\<close> is \<open>Const\<close>, Python's \<open>+\<close>,
  \<open>-\<close>, \<open>*\<close> and \<open>sum\<close> on linear expressions are \<open>Add\<close>, \<open>Sub\<close>, \<open>Mul\<close>, \<open>Sum\<close>,
  and every \<open>model.add\<close> appends one constraint. A variable's domain
  (\<open>new_int_var(lo, hi, _)\<close>, \<open>new_bool_var\<close>) is the constraint \<open>Domain\<close>.
\<close>

datatype var =
    FT_var int int            \<comment> \<open>\<open>FT_{d}_{t}\<close>\<close>
  | ET_var int int            \<comment> \<open>\<open>ET_{d}_{t}\<close>\<close>
  | Tf_var int int            \<comment> \<open>\<open>Tf_{d}_{t}\<close>\<close>
  | Te_var int int            \<comment> \<open>\<open>Te_{d}_{t}\<close>\<close>
  | R_var int int             \<comment> \<open>\<open>R_{d}_{t}\<close>\<close>
  | S_var int int int         \<comment> \<open>\<open>S_{d}_T{i}_{t}\<close>\<close>
  | U_var int int int         \<comment> \<open>\<open>U_{d}_T{i}_{t}\<close>\<close>
  | V_var int int int         \<comment> \<open>\<open>V_{d}_L{j}_{t}\<close>\<close>
  | A_var int int int         \<comment> \<open>\<open>A_{d}_L{j}_{t}\<close>\<close>
  | drive_T_var int int       \<comment> \<open>\<open>drive_T_{d}_T{i}\<close>\<close>
  | ext_T_var int int         \<comment> \<open>\<open>ext_T_{d}_T{i}\<close>\<close>
  | drv_T_var int int int     \<comment> \<open>\<open>drv_T_{d}_T{i}_{t}\<close>\<close>
  | drive_L_var int int       \<comment> \<open>\<open>drive_L_{d}_L{j}\<close>\<close>
  | ext_L_var int int         \<comment> \<open>\<open>ext_L_{d}_L{j}\<close>\<close>
  | drv_L_var int int int     \<comment> \<open>\<open>drv_L_{d}_L{j}_{t}\<close>\<close>
  | drive_T_week_var int int  \<comment> \<open>\<open>drive_T_week_{d}_T{i}\<close>\<close>
  | ext_flag_T_var int int    \<comment> \<open>\<open>ext_flag_T_{d}_T{i}\<close>\<close>
  | drive_L_week_var int int  \<comment> \<open>\<open>drive_L_week_{d}_L{j}\<close>\<close>
  | ext_flag_L_var int int    \<comment> \<open>\<open>ext_flag_L_{d}_L{j}\<close>\<close>
  | total_deliveries_var      \<comment> \<open>\<open>total_deliveries\<close>\<close>

datatype expr =
    Var var
  | Const int
  | Add expr expr
  | Sub expr expr
  | Mul expr int
  | Sum "expr list"

datatype lit = Pos var | Neg var

datatype constr =
    Domain var int int
  | Le expr expr
  | Eq expr expr
  | Gt expr expr
  | OnlyEnforceIf constr lit

type_synonym assignment = "var \<Rightarrow> int"

fun eval :: "assignment \<Rightarrow> expr \<Rightarrow> int" where
  "eval a (Var v) = a v"
| "eval a (Const c) = c"
| "eval a (Add e f) = eval a e + eval a f"
| "eval a (Sub e f) = eval a e - eval a f"
| "eval a (Mul e k) = eval a e * k"
| "eval a (Sum es) = sum_list (map (eval a) es)"

fun lit_true :: "assignment \<Rightarrow> lit \<Rightarrow> bool" where
  "lit_true a (Pos v) = (a v = 1)"
| "lit_true a (Neg v) = (a v = 0)"

fun holds :: "assignment \<Rightarrow> constr \<Rightarrow> bool" where
  "holds a (Domain v lo hi) = (lo \<le> a v \<and> a v \<le> hi)"
| "holds a (Le e f) = (eval a e \<le> eval a f)"
| "holds a (Eq e f) = (eval a e = eval a f)"
| "holds a (Gt e f) = (eval a e > eval a f)"
| "holds a (OnlyEnforceIf c l) = (if lit_true a l then holds a c else True)"

record model =
  constraints :: "constr list"
  maximize :: expr

definition feasible :: "assignment \<Rightarrow> model \<Rightarrow> bool" where
  "feasible a m = list_all (holds a) (constraints m)"

text \<open>A new Boolean variable has domain \<open>{0, 1}\<close>; a constant declares nothing.\<close>

fun bool_domain :: "expr \<Rightarrow> constr list" where
  "bool_domain (Var v) = [Domain v 0 1]"
| "bool_domain e = []"

section \<open>Python lists and ranges\<close>

definition py_range :: "int \<Rightarrow> int \<Rightarrow> int list" where
  "py_range a b = [a..b - 1]"

text \<open>\<open>xs[a:b]\<close>: a negative bound counts from the end, and both are clamped.\<close>

definition py_slice :: "'a list \<Rightarrow> int \<Rightarrow> int \<Rightarrow> 'a list" where
  "py_slice xs a b =
     (let n = int (length xs);
          a' = (if a < 0 then max 0 (a + n) else min a n);
          b' = (if b < 0 then max 0 (b + n) else min b n)
      in take (nat (b' - a')) (drop (nat a') xs))"

section \<open>The request document\<close>

record day_rec =
  date :: string
  D_T :: int
  D_L :: int

record inventory =
  FT :: int
  ET :: int
  Tf :: int
  Te :: int

text \<open>
  \<open>data\<close> is a dictionary: \<open>days\<close> and \<open>initial_state\<close> are required keys, every other
  key is read with \<open>data.get(key, default)\<close>.
\<close>

record request =
  days :: "day_rec list"
  initial_state :: inventory
  settings :: "string \<rightharpoonup> int"

definition get :: "request \<Rightarrow> string \<Rightarrow> int \<Rightarrow> int" where
  "get data key dflt = (case settings data key of None \<Rightarrow> dflt | Some v \<Rightarrow> v)"

datatype error =
  ZeroDivisionError | IndexError | ValueError | TypeError | OverflowError | SolverValueError

subsection \<open>The local variables of \<open>solve\<close> (lines 34 to 99)\<close>

text \<open>\<open>n = len(days)\<close>; the constant is called \<open>num_days\<close>.\<close>

definition num_days :: "request \<Rightarrow> int" where
  "num_days data = int (length (days data))"

definition liters_per_unit :: "request \<Rightarrow> int" where
  "liters_per_unit data = get data ''liters_per_unit'' 17500"

definition shift_minutes :: "request \<Rightarrow> int" where
  "shift_minutes data = get data ''shift_minutes'' 720"

definition slot_minutes :: "request \<Rightarrow> int" where
  "slot_minutes data = get data ''slot_minutes'' 15"

definition slots_per_day :: "request \<Rightarrow> int" where
  "slots_per_day data = shift_minutes data div slot_minutes data"

definition livigno_entry_start_minutes :: "request \<Rightarrow> int" where
  "livigno_entry_start_minutes data = get data ''livigno_entry_start_minutes'' 120"

definition livigno_entry_end_minutes :: "request \<Rightarrow> int" where
  "livigno_entry_end_minutes data = get data ''livigno_entry_end_minutes'' 750"

definition livigno_entry_start_slot :: "request \<Rightarrow> int" where
  "livigno_entry_start_slot data = livigno_entry_start_minutes data div slot_minutes data"

definition livigno_entry_end_slot :: "request \<Rightarrow> int" where
  "livigno_entry_end_slot data = livigno_entry_end_minutes data div slot_minutes data"

definition break_window_minutes :: "request \<Rightarrow> int" where
  "break_window_minutes data = get data ''break_window_minutes'' 315"

definition break_drive_cap_minutes :: "request \<Rightarrow> int" where
  "break_drive_cap_minutes data = get data ''break_drive_cap_minutes'' 270"

definition break_window_slots :: "request \<Rightarrow> int" where
  "break_window_slots data = break_window_minutes data div slot_minutes data"

definition break_drive_cap_slots :: "request \<Rightarrow> int" where
  "break_drive_cap_slots data = break_drive_cap_minutes data div slot_minutes data"

definition max_resident_trips :: "request \<Rightarrow> int" where
  "max_resident_trips data = get data ''max_resident_trips'' 2"

definition max_adr_trips :: "request \<Rightarrow> int" where
  "max_adr_trips data = get data ''max_adr_trips'' 1"

definition adr_weekly_cap :: "request \<Rightarrow> int" where
  "adr_weekly_cap data = get data ''adr_weekly_cap'' 2"

definition drive_minutes_daily :: "request \<Rightarrow> int" where
  "drive_minutes_daily data = get data ''drive_minutes_daily'' 540"

definition drive_minutes_extended :: "request \<Rightarrow> int" where
  "drive_minutes_extended data = get data ''drive_minutes_extended'' 600"

definition max_extended_days_per_week :: "request \<Rightarrow> int" where
  "max_extended_days_per_week data = get data ''max_extended_days_per_week'' 2"

definition weekly_drive_limit_minutes :: "request \<Rightarrow> int" where
  "weekly_drive_limit_minutes data = get data ''weekly_drive_limit_minutes'' 3360"

definition biweekly_drive_limit_minutes :: "request \<Rightarrow> int" where
  "biweekly_drive_limit_minutes data = get data ''biweekly_drive_limit_minutes'' 5400"

definition drivers_T_base :: "request \<Rightarrow> int" where
  "drivers_T_base data = get data ''drivers_T_base'' 4"

definition drivers_L_base :: "request \<Rightarrow> int" where
  "drivers_L_base data = get data ''drivers_L_base'' 1"

definition init_FT :: "request \<Rightarrow> int" where
  "init_FT data = FT (initial_state data)"

definition init_ET :: "request \<Rightarrow> int" where
  "init_ET data = ET (initial_state data)"

definition init_Tf :: "request \<Rightarrow> int" where
  "init_Tf data = Tf (initial_state data)"

definition init_Te :: "request \<Rightarrow> int" where
  "init_Te data = Te (initial_state data)"

definition total_trailers :: "request \<Rightarrow> int" where
  "total_trailers data = get data ''total_trailers'' (init_FT data + init_ET data)"

definition total_tractors :: "request \<Rightarrow> int" where
  "total_tractors data = get data ''total_tractors'' (init_Tf data + init_Te data)"

text \<open>Durations in slots: Python's \<open>//\<close> is floor division, as \<open>div\<close> on \<open>int\<close> is.\<close>

definition supply_slots :: "request \<Rightarrow> int" where
  "supply_slots data = 345 div slot_minutes data"

definition shuttle_slots :: "request \<Rightarrow> int" where
  "shuttle_slots data = 240 div slot_minutes data"

definition resident_slots :: "request \<Rightarrow> int" where
  "resident_slots data = 270 div slot_minutes data"

definition adr_slots :: "request \<Rightarrow> int" where
  "adr_slots data = 585 div slot_minutes data"

definition refill_slots :: "request \<Rightarrow> int" where
  "refill_slots data = 30 div slot_minutes data"

definition supply_end_offset :: "request \<Rightarrow> int" where
  "supply_end_offset data = supply_slots data"

definition shuttle_end_offset :: "request \<Rightarrow> int" where
  "shuttle_end_offset data = shuttle_slots data"

definition refill_end_offset :: "request \<Rightarrow> int" where
  "refill_end_offset data = refill_slots data"

definition resident_refill_start_offset :: "request \<Rightarrow> int" where
  "resident_refill_start_offset data = 90 div slot_minutes data"

definition resident_refill_end_offset :: "request \<Rightarrow> int" where
  "resident_refill_end_offset data = (90 + 30) div slot_minutes data"

definition adr_refill_start_offset :: "request \<Rightarrow> int" where
  "adr_refill_start_offset data = 90 div slot_minutes data"

definition adr_supply_end_offset :: "request \<Rightarrow> int" where
  "adr_supply_end_offset data = adr_refill_start_offset data + supply_end_offset data"

definition supply_drive_offsets :: "int set" where
  "supply_drive_offsets = set (py_range 0 10 @ py_range 13 23)"

definition shuttle_drive_offsets :: "int set" where
  "shuttle_drive_offsets = set (py_range 0 8 @ py_range 10 16)"

definition resident_drive_offsets :: "int set" where
  "resident_drive_offsets = set (py_range 0 6 @ py_range 8 16)"

definition adr_drive_offsets :: "int set" where
  "adr_drive_offsets = set (py_range 0 16 @ py_range 19 37)"

definition shuttle_livigno_entry_offset :: "request \<Rightarrow> int" where
  "shuttle_livigno_entry_offset data = 120 div slot_minutes data"

definition resident_livigno_entry_offset :: "request \<Rightarrow> int" where
  "resident_livigno_entry_offset data = 240 div slot_minutes data"

definition adr_livigno_entry_offset :: "request \<Rightarrow> int" where
  "adr_livigno_entry_offset data = 555 div slot_minutes data"

section \<open>The model that \<open>solve\<close> constructs\<close>

subsection \<open>Variables per day (lines 116 to 129)\<close>

text \<open>
  The arrays \<open>FT\<close>, \<open>ET\<close>, \<open>Tf\<close>, \<open>Te\<close> (indices \<open>0..slots_per_day\<close>) and \<open>R_start\<close>
  (indices \<open>0..slots_per_day - 1\<close>) hold one integer variable per entry. An array is
  modelled by the function from its indices to its entries; the indices for which the
  source would raise \<open>IndexError\<close> are found in \<open>construction\<close> below.
\<close>

definition FT_at :: "int \<Rightarrow> int \<Rightarrow> expr" where
  "FT_at d t = Var (FT_var d t)"

definition ET_at :: "int \<Rightarrow> int \<Rightarrow> expr" where
  "ET_at d t = Var (ET_var d t)"

definition Tf_at :: "int \<Rightarrow> int \<Rightarrow> expr" where
  "Tf_at d t = Var (Tf_var d t)"

definition Te_at :: "int \<Rightarrow> int \<Rightarrow> expr" where
  "Te_at d t = Var (Te_var d t)"

definition R_start :: "int \<Rightarrow> int \<Rightarrow> expr" where
  "R_start d t = Var (R_var d t)"

definition inventory_vars :: "request \<Rightarrow> int \<Rightarrow> constr list" where
  "inventory_vars data d =
     map (\<lambda>t. Domain (FT_var d t) 0 (total_trailers data)) (py_range 0 (slots_per_day data + 1)) @
     map (\<lambda>t. Domain (ET_var d t) 0 (total_trailers data)) (py_range 0 (slots_per_day data + 1)) @
     map (\<lambda>t. Domain (Tf_var d t) 0 (total_tractors data)) (py_range 0 (slots_per_day data + 1)) @
     map (\<lambda>t. Domain (Te_var d t) 0 (total_tractors data)) (py_range 0 (slots_per_day data + 1)) @
     map (\<lambda>t. Domain (R_var d t) 0 (total_trailers data)) (py_range 0 (slots_per_day data))"

subsection \<open>Tirano drivers (lines 131 to 193)\<close>

definition day_at :: "request \<Rightarrow> int \<Rightarrow> day_rec" where
  "day_at data d = days data ! nat d"

definition available_T :: "request \<Rightarrow> int \<Rightarrow> int \<Rightarrow> bool" where
  "available_T data d i = (i < D_T (day_at data d))"

definition S_start :: "request \<Rightarrow> int \<Rightarrow> int \<Rightarrow> int \<Rightarrow> expr" where
  "S_start data d i t =
     (if available_T data d i \<and> t + supply_slots data \<le> slots_per_day data
      then Var (S_var d i t)
      else Const 0)"

definition U_start :: "request \<Rightarrow> int \<Rightarrow> int \<Rightarrow> int \<Rightarrow> expr" where
  "U_start data d i t =
     (if available_T data d i \<and> t + shuttle_slots data \<le> slots_per_day data
      then (let entry_slot = t + shuttle_livigno_entry_offset data
            in if livigno_entry_start_slot data \<le> entry_slot \<and>
                  entry_slot \<le> livigno_entry_end_slot data
               then Var (U_var d i t)
               else Const 0)
      else Const 0)"

definition tirano_starts :: "request \<Rightarrow> int \<Rightarrow> int \<Rightarrow> constr list" where
  "tirano_starts data d i =
     concat (map (\<lambda>t. bool_domain (S_start data d i t) @ bool_domain (U_start data d i t))
       (py_range 0 (slots_per_day data)))"

definition cover_T :: "request \<Rightarrow> int \<Rightarrow> int \<Rightarrow> int \<Rightarrow> expr list" where
  "cover_T data d i t =
     map (S_start data d i)
       (filter (\<lambda>t0. t0 + supply_slots data \<le> slots_per_day data)
         (py_range (max 0 (t - supply_slots data + 1)) (min (t + 1) (slots_per_day data)))) @
     map (U_start data d i)
       (filter (\<lambda>t0. t0 + shuttle_slots data \<le> slots_per_day data)
         (py_range (max 0 (t - shuttle_slots data + 1)) (min (t + 1) (slots_per_day data))))"

definition no_overlap_T :: "request \<Rightarrow> int \<Rightarrow> int \<Rightarrow> constr list" where
  "no_overlap_T data d i =
     map (\<lambda>t. Le (Sum (cover_T data d i t)) (Const 1)) (py_range 0 (slots_per_day data))"

definition ext_T :: "request \<Rightarrow> int \<Rightarrow> int \<Rightarrow> expr" where
  "ext_T data d i = (if available_T data d i then Var (ext_T_var d i) else Const 0)"

definition drive_sum_T :: "request \<Rightarrow> int \<Rightarrow> int \<Rightarrow> expr" where
  "drive_sum_T data d i =
     Sum (map (\<lambda>t. Add (Mul (S_start data d i t) 300) (Mul (U_start data d i t) 210))
       (py_range 0 (slots_per_day data)))"

definition daily_driving_T :: "request \<Rightarrow> int \<Rightarrow> int \<Rightarrow> constr list" where
  "daily_driving_T data d i =
     [Domain (drive_T_var d i) 0 (drive_minutes_extended data)] @
     bool_domain (ext_T data d i) @
     [Eq (Var (drive_T_var d i)) (drive_sum_T data d i),
      Le (Var (drive_T_var d i))
         (Add (Const (drive_minutes_daily data))
              (Mul (ext_T data d i) (drive_minutes_extended data - drive_minutes_daily data)))]"

definition contributors_T :: "request \<Rightarrow> int \<Rightarrow> int \<Rightarrow> int \<Rightarrow> expr list" where
  "contributors_T data d i t =
     map (S_start data d i)
       (filter (\<lambda>t0. t0 + supply_slots data \<le> slots_per_day data \<and> t - t0 \<in> supply_drive_offsets)
         (py_range (max 0 (t - supply_slots data + 1)) (min (t + 1) (slots_per_day data)))) @
     map (U_start data d i)
       (filter (\<lambda>t0. t0 + shuttle_slots data \<le> slots_per_day data \<and> t - t0 \<in> shuttle_drive_offsets)
         (py_range (max 0 (t - shuttle_slots data + 1)) (min (t + 1) (slots_per_day data))))"

definition drive_slots_T :: "request \<Rightarrow> int \<Rightarrow> int \<Rightarrow> expr list" where
  "drive_slots_T data d i = map (\<lambda>t. Var (drv_T_var d i t)) (py_range 0 (slots_per_day data))"

definition break_rule_T :: "request \<Rightarrow> int \<Rightarrow> int \<Rightarrow> constr list" where
  "break_rule_T data d i =
     concat (map (\<lambda>t. [Domain (drv_T_var d i t) 0 1,
                        Eq (Var (drv_T_var d i t)) (Sum (contributors_T data d i t))])
       (py_range 0 (slots_per_day data))) @
     (if break_window_slots data \<le> slots_per_day data
      then map (\<lambda>t0. Le (Sum (py_slice (drive_slots_T data d i) t0 (t0 + break_window_slots data)))
                         (Const (break_drive_cap_slots data)))
             (py_range 0 (slots_per_day data - break_window_slots data + 1))
      else [])"

definition tirano_driver :: "request \<Rightarrow> int \<Rightarrow> int \<Rightarrow> constr list" where
  "tirano_driver data d i =
     tirano_starts data d i @ no_overlap_T data d i @ daily_driving_T data d i @
     break_rule_T data d i"

subsection \<open>Livigno drivers (lines 195 to 267)\<close>

definition available_L :: "request \<Rightarrow> int \<Rightarrow> int \<Rightarrow> bool" where
  "available_L data d j = (j < D_L (day_at data d))"

definition V_start :: "request \<Rightarrow> int \<Rightarrow> int \<Rightarrow> int \<Rightarrow> expr" where
  "V_start data d j t =
     (if available_L data d j \<and> t + resident_slots data \<le> slots_per_day data
      then (let entry_slot = t + resident_livigno_entry_offset data
            in if livigno_entry_start_slot data \<le> entry_slot \<and>
                  entry_slot \<le> livigno_entry_end_slot data
               then Var (V_var d j t)
               else Const 0)
      else Const 0)"

definition A_start :: "request \<Rightarrow> int \<Rightarrow> int \<Rightarrow> int \<Rightarrow> expr" where
  "A_start data d j t =
     (if available_L data d j \<and> t + adr_slots data \<le> slots_per_day data
      then (let entry_slot = t + adr_livigno_entry_offset data
            in if livigno_entry_start_slot data \<le> entry_slot \<and>
                  entry_slot \<le> livigno_entry_end_slot data
               then Var (A_var d j t)
               else Const 0)
      else Const 0)"

definition livigno_starts :: "request \<Rightarrow> int \<Rightarrow> int \<Rightarrow> constr list" where
  "livigno_starts data d j =
     concat (map (\<lambda>t. bool_domain (V_start data d j t) @ bool_domain (A_start data d j t))
       (py_range 0 (slots_per_day data)))"

definition cover_L :: "request \<Rightarrow> int \<Rightarrow> int \<Rightarrow> int \<Rightarrow> expr list" where
  "cover_L data d j t =
     map (V_start data d j)
       (filter (\<lambda>t0. t0 + resident_slots data \<le> slots_per_day data)
         (py_range (max 0 (t - resident_slots data + 1)) (min (t + 1) (slots_per_day data)))) @
     map (A_start data d j)
       (filter (\<lambda>t0. t0 + adr_slots data \<le> slots_per_day data)
         (py_range (max 0 (t - adr_slots data + 1)) (min (t + 1) (slots_per_day data))))"

definition no_overlap_L :: "request \<Rightarrow> int \<Rightarrow> int \<Rightarrow> constr list" where
  "no_overlap_L data d j =
     map (\<lambda>t. Le (Sum (cover_L data d j t)) (Const 1)) (py_range 0 (slots_per_day data))"

definition ext_L :: "request \<Rightarrow> int \<Rightarrow> int \<Rightarrow> expr" where
  "ext_L data d j = (if available_L data d j then Var (ext_L_var d j) else Const 0)"

definition drive_sum_L :: "request \<Rightarrow> int \<Rightarrow> int \<Rightarrow> expr" where
  "drive_sum_L data d j =
     Sum (map (\<lambda>t. Add (Mul (V_start data d j t) 210) (Mul (A_start data d j t) 510))
       (py_range 0 (slots_per_day data)))"

definition daily_driving_L :: "request \<Rightarrow> int \<Rightarrow> int \<Rightarrow> constr list" where
  "daily_driving_L data d j =
     [Domain (drive_L_var d j) 0 (drive_minutes_extended data)] @
     bool_domain (ext_L data d j) @
     [Eq (Var (drive_L_var d j)) (drive_sum_L data d j),
      Le (Var (drive_L_var d j))
         (Add (Const (drive_minutes_daily data))
              (Mul (ext_L data d j) (drive_minutes_extended data - drive_minutes_daily data)))]"

definition contributors_L :: "request \<Rightarrow> int \<Rightarrow> int \<Rightarrow> int \<Rightarrow> expr list" where
  "contributors_L data d j t =
     map (V_start data d j)
       (filter (\<lambda>t0. t0 + resident_slots data \<le> slots_per_day data \<and> t - t0 \<in> resident_drive_offsets)
         (py_range (max 0 (t - resident_slots data + 1)) (min (t + 1) (slots_per_day data)))) @
     map (A_start data d j)
       (filter (\<lambda>t0. t0 + adr_slots data \<le> slots_per_day data \<and> t - t0 \<in> adr_drive_offsets)
         (py_range (max 0 (t - adr_slots data + 1)) (min (t + 1) (slots_per_day data))))"

definition drive_slots_L :: "request \<Rightarrow> int \<Rightarrow> int \<Rightarrow> expr list" where
  "drive_slots_L data d j = map (\<lambda>t. Var (drv_L_var d j t)) (py_range 0 (slots_per_day data))"

definition break_rule_L :: "request \<Rightarrow> int \<Rightarrow> int \<Rightarrow> constr list" where
  "break_rule_L data d j =
     concat (map (\<lambda>t. [Domain (drv_L_var d j t) 0 1,
                        Eq (Var (drv_L_var d j t)) (Sum (contributors_L data d j t))])
       (py_range 0 (slots_per_day data))) @
     (if break_window_slots data \<le> slots_per_day data
      then map (\<lambda>t0. Le (Sum (py_slice (drive_slots_L data d j) t0 (t0 + break_window_slots data)))
                         (Const (break_drive_cap_slots data)))
             (py_range 0 (slots_per_day data - break_window_slots data + 1))
      else [])"

definition trip_caps_L :: "request \<Rightarrow> int \<Rightarrow> int \<Rightarrow> constr list" where
  "trip_caps_L data d j =
     (if max_resident_trips data \<ge> 0
      then [Le (Sum (map (V_start data d j) (py_range 0 (slots_per_day data))))
               (Const (max_resident_trips data))]
      else []) @
     (if max_adr_trips data \<ge> 0
      then [Le (Sum (map (A_start data d j) (py_range 0 (slots_per_day data))))
               (Const (max_adr_trips data))]
      else [])"

definition livigno_driver :: "request \<Rightarrow> int \<Rightarrow> int \<Rightarrow> constr list" where
  "livigno_driver data d j =
     livigno_starts data d j @ no_overlap_L data d j @ daily_driving_L data d j @
     break_rule_L data d j @ trip_caps_L data d j"

definition day_block :: "request \<Rightarrow> int \<Rightarrow> constr list" where
  "day_block data d =
     inventory_vars data d @
     concat (map (tirano_driver data d) (py_range 0 (drivers_T_base data))) @
     concat (map (livigno_driver data d) (py_range 0 (drivers_L_base data)))"

subsection \<open>Inventory initialization and transitions (lines 269 to 344)\<close>

definition supply_start :: "request \<Rightarrow> int \<Rightarrow> int \<Rightarrow> expr" where
  "supply_start data d t = Sum (map (\<lambda>i. S_start data d i t) (py_range 0 (drivers_T_base data)))"

definition shuttle_start :: "request \<Rightarrow> int \<Rightarrow> int \<Rightarrow> expr" where
  "shuttle_start data d t = Sum (map (\<lambda>i. U_start data d i t) (py_range 0 (drivers_T_base data)))"

definition resident_start :: "request \<Rightarrow> int \<Rightarrow> int \<Rightarrow> expr" where
  "resident_start data d t = Sum (map (\<lambda>j. V_start data d j t) (py_range 0 (drivers_L_base data)))"

definition adr_start :: "request \<Rightarrow> int \<Rightarrow> int \<Rightarrow> expr" where
  "adr_start data d t = Sum (map (\<lambda>j. A_start data d j t) (py_range 0 (drivers_L_base data)))"

definition refill_start :: "int \<Rightarrow> int \<Rightarrow> expr" where
  "refill_start d t = R_start d t"

definition supply_end :: "request \<Rightarrow> int \<Rightarrow> int \<Rightarrow> expr" where
  "supply_end data d t =
     (if t - supply_end_offset data \<ge> 0
      then Sum (map (\<lambda>i. S_start data d i (t - supply_end_offset data))
             (py_range 0 (drivers_T_base data)))
      else Const 0)"

definition shuttle_end :: "request \<Rightarrow> int \<Rightarrow> int \<Rightarrow> expr" where
  "shuttle_end data d t =
     (if t - shuttle_end_offset data \<ge> 0
      then Sum (map (\<lambda>i. U_start data d i (t - shuttle_end_offset data))
             (py_range 0 (drivers_T_base data)))
      else Const 0)"

definition refill_end :: "request \<Rightarrow> int \<Rightarrow> int \<Rightarrow> expr" where
  "refill_end data d t =
     (if t - refill_end_offset data \<ge> 0
      then R_start d (t - refill_end_offset data)
      else Const 0)"

definition resident_refill_start :: "request \<Rightarrow> int \<Rightarrow> int \<Rightarrow> expr" where
  "resident_refill_start data d t =
     (if t - resident_refill_start_offset data \<ge> 0
      then Sum (map (\<lambda>j. V_start data d j (t - resident_refill_start_offset data))
             (py_range 0 (drivers_L_base data)))
      else Const 0)"

definition resident_refill_end :: "request \<Rightarrow> int \<Rightarrow> int \<Rightarrow> expr" where
  "resident_refill_end data d t =
     (if t - resident_refill_end_offset data \<ge> 0
      then Sum (map (\<lambda>j. V_start data d j (t - resident_refill_end_offset data))
             (py_range 0 (drivers_L_base data)))
      else Const 0)"

definition adr_refill_start :: "request \<Rightarrow> int \<Rightarrow> int \<Rightarrow> expr" where
  "adr_refill_start data d t =
     (if t - adr_refill_start_offset data \<ge> 0
      then Sum (map (\<lambda>j. A_start data d j (t - adr_refill_start_offset data))
             (py_range 0 (drivers_L_base data)))
      else Const 0)"

definition adr_supply_end :: "request \<Rightarrow> int \<Rightarrow> int \<Rightarrow> expr" where
  "adr_supply_end data d t =
     (if t - adr_supply_end_offset data \<ge> 0
      then Sum (map (\<lambda>j. A_start data d j (t - adr_supply_end_offset data))
             (py_range 0 (drivers_L_base data)))
      else Const 0)"

definition initialization :: "request \<Rightarrow> int \<Rightarrow> constr list" where
  "initialization data d =
     (if d = 0
      then [Eq (FT_at d 0) (Const (init_FT data)),
            Eq (ET_at d 0) (Const (init_ET data)),
            Eq (Tf_at d 0) (Const (init_Tf data)),
            Eq (Te_at d 0) (Const (init_Te data))]
      else [Eq (FT_at d 0) (FT_at (d - 1) (slots_per_day data)),
            Eq (ET_at d 0) (ET_at (d - 1) (slots_per_day data)),
            Eq (Tf_at d 0) (Tf_at (d - 1) (slots_per_day data)),
            Eq (Te_at d 0) (Te_at (d - 1) (slots_per_day data))])"

definition availability :: "request \<Rightarrow> int \<Rightarrow> int \<Rightarrow> constr list" where
  "availability data d t =
     [Le (supply_start data d t) (ET_at d t),
      Le (Add (supply_start data d t) (refill_start d t)) (Te_at d t),
      Le (shuttle_start data d t) (Tf_at d t),
      Le (refill_start d t) (FT_at d t)]"

definition transitions :: "request \<Rightarrow> int \<Rightarrow> int \<Rightarrow> constr list" where
  "transitions data d t =
     [Eq (FT_at d (t + 1))
         (Sub (Sub (Add (Add (FT_at d t) (supply_end data d t)) (adr_supply_end data d t))
                   (refill_start d t))
              (resident_refill_start data d t)),
      Eq (ET_at d (t + 1))
         (Sub (Add (Add (Sub (ET_at d t) (supply_start data d t)) (refill_end data d t))
                   (resident_refill_end data d t))
              (adr_refill_start data d t)),
      Eq (Tf_at d (t + 1))
         (Sub (Add (Add (Tf_at d t) (supply_end data d t)) (refill_end data d t))
              (shuttle_start data d t)),
      Eq (Te_at d (t + 1))
         (Add (Sub (Sub (Te_at d t) (supply_start data d t)) (refill_start d t))
              (shuttle_end data d t))]"

definition totals :: "request \<Rightarrow> int \<Rightarrow> int \<Rightarrow> constr list" where
  "totals data d t =
     [Le (Add (FT_at d (t + 1)) (ET_at d (t + 1))) (Const (total_trailers data)),
      Le (Add (Tf_at d (t + 1)) (Te_at d (t + 1))) (Const (total_tractors data))]"

definition inventory_block :: "request \<Rightarrow> int \<Rightarrow> constr list" where
  "inventory_block data d =
     initialization data d @
     concat (map (\<lambda>t. availability data d t @ transitions data d t @ totals data d t)
       (py_range 0 (slots_per_day data)))"

subsection \<open>Weekly and biweekly limits (lines 346 to 432)\<close>

text \<open>
  \<open>_iso_year_week\<close> parses the date string and asks the standard library for the ISO
  calendar; the library is a parameter \<open>iso_year_week\<close> of the model, \<open>None\<close> where it raises
  \<open>ValueError\<close>. \<open>weeks\<close> is a dictionary in insertion order: an association list.
\<close>

type_synonym week_key = "int \<times> int"

fun setdefault_append :: "(week_key \<times> int list) list \<Rightarrow> week_key \<Rightarrow> int \<Rightarrow> (week_key \<times> int list) list" where
  "setdefault_append [] k d = [(k, [d])]"
| "setdefault_append ((k', ds) # rest) k d =
     (if k' = k then (k', ds @ [d]) # rest else (k', ds) # setdefault_append rest k d)"

definition year_week :: "(string \<Rightarrow> (int \<times> int \<times> int) option) \<Rightarrow> day_rec \<Rightarrow> week_key" where
  "year_week iso_year_week day = (case iso_year_week (date day) of Some (year, week, _) \<Rightarrow> (year, week) | None \<Rightarrow> (0, 0))"

definition weeks :: "(string \<Rightarrow> (int \<times> int \<times> int) option) \<Rightarrow> request \<Rightarrow> (week_key \<times> int list) list" where
  "weeks iso_year_week data =
     foldl (\<lambda>ws d. setdefault_append ws (year_week iso_year_week (day_at data d)) d) []
       (py_range 0 (num_days data))"

definition weeks_lookup :: "(week_key \<times> int list) list \<Rightarrow> week_key \<Rightarrow> int list" where
  "weeks_lookup ws k = (case map_of ws k of Some ds \<Rightarrow> ds | None \<Rightarrow> [])"

definition adr_weekly :: "request \<Rightarrow> (week_key \<times> int list) list \<Rightarrow> constr list" where
  "adr_weekly data ws =
     (if adr_weekly_cap data \<ge> 0
      then concat (map (\<lambda>j. map (\<lambda>(yw, idxs).
               Le (Sum (map (\<lambda>d. Sum (map (A_start data d j) (py_range 0 (slots_per_day data)))) idxs))
                  (Const (adr_weekly_cap data))) ws)
             (py_range 0 (drivers_L_base data)))
      else [])"

definition ext_day_T :: "request \<Rightarrow> int \<Rightarrow> int \<Rightarrow> constr list" where
  "ext_day_T data i d =
     [Domain (drive_T_week_var d i) 0 (drive_minutes_extended data),
      Eq (Var (drive_T_week_var d i)) (drive_sum_T data d i),
      Domain (ext_flag_T_var d i) 0 1,
      OnlyEnforceIf (Gt (Var (drive_T_week_var d i)) (Const (drive_minutes_daily data)))
        (Pos (ext_flag_T_var d i)),
      OnlyEnforceIf (Le (Var (drive_T_week_var d i)) (Const (drive_minutes_daily data)))
        (Neg (ext_flag_T_var d i))]"

definition ext_day_L :: "request \<Rightarrow> int \<Rightarrow> int \<Rightarrow> constr list" where
  "ext_day_L data j d =
     [Domain (drive_L_week_var d j) 0 (drive_minutes_extended data),
      Eq (Var (drive_L_week_var d j)) (drive_sum_L data d j),
      Domain (ext_flag_L_var d j) 0 1,
      OnlyEnforceIf (Gt (Var (drive_L_week_var d j)) (Const (drive_minutes_daily data)))
        (Pos (ext_flag_L_var d j)),
      OnlyEnforceIf (Le (Var (drive_L_week_var d j)) (Const (drive_minutes_daily data)))
        (Neg (ext_flag_L_var d j))]"

definition extended_days :: "request \<Rightarrow> (week_key \<times> int list) list \<Rightarrow> constr list" where
  "extended_days data ws =
     (if max_extended_days_per_week data \<ge> 0
      then concat (map (\<lambda>i. concat (map (\<lambda>(yw, idxs).
               concat (map (ext_day_T data i) idxs) @
               [Le (Sum (map (\<lambda>d. Var (ext_flag_T_var d i)) idxs))
                   (Const (max_extended_days_per_week data))]) ws))
             (py_range 0 (drivers_T_base data))) @
           concat (map (\<lambda>j. concat (map (\<lambda>(yw, idxs).
               concat (map (ext_day_L data j) idxs) @
               [Le (Sum (map (\<lambda>d. Var (ext_flag_L_var d j)) idxs))
                   (Const (max_extended_days_per_week data))]) ws))
             (py_range 0 (drivers_L_base data)))
      else [])"

definition weekly_drive :: "request \<Rightarrow> (week_key \<times> int list) list \<Rightarrow> constr list" where
  "weekly_drive data ws =
     (if weekly_drive_limit_minutes data \<ge> 0
      then concat (map (\<lambda>i. map (\<lambda>(yw, idxs).
               Le (Sum (map (\<lambda>d. drive_sum_T data d i) idxs))
                  (Const (weekly_drive_limit_minutes data))) ws)
             (py_range 0 (drivers_T_base data))) @
           concat (map (\<lambda>j. map (\<lambda>(yw, idxs).
               Le (Sum (map (\<lambda>d. drive_sum_L data d j) idxs))
                  (Const (weekly_drive_limit_minutes data))) ws)
             (py_range 0 (drivers_L_base data)))
      else [])"

definition biweekly_drive :: "request \<Rightarrow> (week_key \<times> int list) list \<Rightarrow> constr list" where
  "biweekly_drive data ws =
     (if biweekly_drive_limit_minutes data \<ge> 0 \<and> length ws > 1
      then (let week_keys = sort (map fst ws) in
           concat (map (\<lambda>i. map (\<lambda>k.
               Le (Sum (map (\<lambda>d. drive_sum_T data d i)
                     (weeks_lookup ws (week_keys ! nat k) @ weeks_lookup ws (week_keys ! nat (k + 1)))))
                  (Const (biweekly_drive_limit_minutes data)))
               (py_range 0 (int (length week_keys) - 1)))
             (py_range 0 (drivers_T_base data))) @
           concat (map (\<lambda>j. map (\<lambda>k.
               Le (Sum (map (\<lambda>d. drive_sum_L data d j)
                     (weeks_lookup ws (week_keys ! nat k) @ weeks_lookup ws (week_keys ! nat (k + 1)))))
                  (Const (biweekly_drive_limit_minutes data)))
               (py_range 0 (int (length week_keys) - 1)))
             (py_range 0 (drivers_L_base data))))
      else [])"

subsection \<open>Objective (lines 434 to 445)\<close>

definition deliveries :: "request \<Rightarrow> int \<Rightarrow> expr" where
  "deliveries data d =
     Add (Add
       (Sum (concat (map (\<lambda>i. map (U_start data d i) (py_range 0 (slots_per_day data)))
               (py_range 0 (drivers_T_base data)))))
       (Sum (concat (map (\<lambda>j. map (V_start data d j) (py_range 0 (slots_per_day data)))
               (py_range 0 (drivers_L_base data))))))
       (Sum (concat (map (\<lambda>j. map (A_start data d j) (py_range 0 (slots_per_day data)))
               (py_range 0 (drivers_L_base data)))))"

definition total_deliveries :: expr where
  "total_deliveries = Var total_deliveries_var"

definition objective :: "request \<Rightarrow> constr list" where
  "objective data =
     [Domain total_deliveries_var 0 (num_days data * slots_per_day data),
      Eq total_deliveries (Sum (map (deliveries data) (py_range 0 (num_days data))))]"

subsection \<open>The whole model\<close>

definition model_constraints :: "(string \<Rightarrow> (int \<times> int \<times> int) option) \<Rightarrow> request \<Rightarrow> constr list" where
  "model_constraints iso_year_week data =
     concat (map (day_block data) (py_range 0 (num_days data))) @
     concat (map (inventory_block data) (py_range 0 (num_days data))) @
     adr_weekly data (weeks iso_year_week data) @
     extended_days data (weeks iso_year_week data) @
     weekly_drive data (weeks iso_year_week data) @
     biweekly_drive data (weeks iso_year_week data) @
     objective data"

text \<open>
  Where the construction raises, in program order. \<open>slot_minutes = 0\<close> divides by zero
  on line 40, before any model exists. After that every statement of the construction
  is an event. A \<open>Call\<close> is a call of the solver library (a new variable, a
  \<open>model.add\<close>), and the library may refuse it: OR-Tools raises \<open>TypeError\<close> for an
  integer outside the 64-bit range, as \<open>new_int_var\<close> on line 118 does for a
  \<open>total_trailers\<close> of \<open>2^63\<close>. The library is not part of the repository, so it is the
  parameter \<open>lib\<close>: \<open>lib c\<close> is the error raised by the call \<open>c\<close>, \<open>None\<close> when the call
  is accepted. A \<open>Raise\<close> is an error of Python itself. With at least one day,
  \<open>FT[d][0]\<close> on line 272 is out of range when \<open>slots_per_day < 0\<close> (the list has
  \<open>max 0 (slots_per_day + 1)\<close> entries). In a slot \<open>t\<close> the lagged reads of lines 284
  to 316 come before the slot's eleven \<open>model.add\<close>; they are guarded by
  \<open>t - offset >= 0\<close> alone, so with a negative \<open>slot_minutes\<close> (negative offsets) they
  pass the end of a list of \<open>slots_per_day\<close> entries; a sum over no driver reads
  nothing. With \<open>slot_minutes > 0\<close> every offset is non-negative and no read is out of
  range; all other indices come from ranges inside the lists. Line 349 raises
  \<open>ValueError\<close> on a date the calendar rejects, after the constraints of lines 269 to
  344 and before those of the weeks. The first event that fails ends \<open>solve\<close>.
\<close>

datatype event = Call constr | Raise error

fun first_error :: "(constr \<Rightarrow> error option) \<Rightarrow> event list \<Rightarrow> error option" where
  "first_error lib [] = None"
| "first_error lib (Call c # es) = (case lib c of Some e \<Rightarrow> Some e | None \<Rightarrow> first_error lib es)"
| "first_error lib (Raise e # es) = Some e"

text \<open>The read \<open>xs[k]\<close> of a list of \<open>slots_per_day\<close> entries, made when \<open>k >= 0\<close>.\<close>

definition past_the_end :: "request \<Rightarrow> int \<Rightarrow> bool" where
  "past_the_end data k = (0 \<le> k \<and> slots_per_day data \<le> k)"

definition lagged_index_error :: "request \<Rightarrow> int \<Rightarrow> bool" where
  "lagged_index_error data t =
     ((0 < drivers_T_base data \<and>
       (past_the_end data (t - supply_end_offset data) \<or>
        past_the_end data (t - shuttle_end_offset data))) \<or>
      past_the_end data (t - refill_end_offset data) \<or>
      (0 < drivers_L_base data \<and>
       (past_the_end data (t - resident_refill_start_offset data) \<or>
        past_the_end data (t - resident_refill_end_offset data) \<or>
        past_the_end data (t - adr_refill_start_offset data) \<or>
        past_the_end data (t - adr_supply_end_offset data))))"

definition inventory_events :: "request \<Rightarrow> int \<Rightarrow> event list" where
  "inventory_events data d =
     (if slots_per_day data < 0 then [Raise IndexError]
      else map Call (initialization data d)) @
     concat (map (\<lambda>t.
         if lagged_index_error data t then [Raise IndexError]
         else map Call (availability data d t @ transitions data d t @ totals data d t))
       (py_range 0 (slots_per_day data)))"

definition construction :: "(string \<Rightarrow> (int \<times> int \<times> int) option) \<Rightarrow> request \<Rightarrow> event list" where
  "construction iso_year_week data =
     map Call (concat (map (day_block data) (py_range 0 (num_days data)))) @
     concat (map (inventory_events data) (py_range 0 (num_days data))) @
     (if list_ex (\<lambda>day. iso_year_week (date day) = None) (days data)
      then [Raise ValueError] else []) @
     map Call
       (adr_weekly data (weeks iso_year_week data) @
        extended_days data (weeks iso_year_week data) @
        weekly_drive data (weeks iso_year_week data) @
        biweekly_drive data (weeks iso_year_week data) @
        objective data)"

definition build_model ::
  "(constr \<Rightarrow> error option) \<Rightarrow> (string \<Rightarrow> (int \<times> int \<times> int) option) \<Rightarrow> request \<Rightarrow> error + model" where
  "build_model lib iso_year_week data =
     (if slot_minutes data = 0 then Inl ZeroDivisionError
      else case first_error lib (construction iso_year_week data) of
             Some e \<Rightarrow> Inl e
           | None \<Rightarrow>
               Inr \<lparr>constraints = model_constraints iso_year_week data,
                    maximize = total_deliveries\<rparr>)"

text \<open>
  The library as OR-Tools is observed to behave: a call is refused with \<open>TypeError\<close>
  when one of its integers (a bound of a variable, a constant, a coefficient) is
  outside the signed 64-bit range.
\<close>

definition int64 :: "int \<Rightarrow> bool" where
  "int64 x = (- (2 ^ 63) \<le> x \<and> x < 2 ^ 63)"

fun expr_int64 :: "expr \<Rightarrow> bool" where
  "expr_int64 (Var v) = True"
| "expr_int64 (Const c) = int64 c"
| "expr_int64 (Add e f) = (expr_int64 e \<and> expr_int64 f)"
| "expr_int64 (Sub e f) = (expr_int64 e \<and> expr_int64 f)"
| "expr_int64 (Mul e k) = (expr_int64 e \<and> int64 k)"
| "expr_int64 (Sum es) = list_all expr_int64 es"

fun constr_int64 :: "constr \<Rightarrow> bool" where
  "constr_int64 (Domain v lo hi) = (int64 lo \<and> int64 hi)"
| "constr_int64 (Le e f) = (expr_int64 e \<and> expr_int64 f)"
| "constr_int64 (Eq e f) = (expr_int64 e \<and> expr_int64 f)"
| "constr_int64 (Gt e f) = (expr_int64 e \<and> expr_int64 f)"
| "constr_int64 (OnlyEnforceIf c l) = constr_int64 c"

definition int64_library :: "constr \<Rightarrow> error option" where
  "int64_library c = (if constr_int64 c then None else Some TypeError)"

section \<open>Solving and reporting (lines 447 to 513)\<close>

text \<open>
  OR-Tools is not part of the repository: \<open>solver.solve(model)\<close> is a parameter. What
  \<open>solve\<close> sees of the solver afterwards is the status code and \<open>solver.value(x)\<close>,
  which it reads for the starts, the inventories and the objective. What a read gives
  when the solver holds no solution is the library's business and not the same in all
  its versions (an exception, or a number that means nothing), so the read is part of
  the response: \<open>solver_value x\<close> is \<open>Inl e\<close> when the read raises \<open>e\<close> and \<open>Inr v\<close> when
  it returns \<open>v\<close>. A solver that holds the solution \<open>a\<close> answers \<open>solved code a\<close>.

  \<open>solve\<close> makes the reads of every day first, whatever the status, and looks at the
  status for the objective alone (line 505). The reads are made in the order of the
  source and the first that raises ends \<open>solve\<close>: \<open>and_then\<close> sequences two steps,
  \<open>for_each\<close> is a loop or comprehension over a list.
\<close>

datatype status_code = OPTIMAL | FEASIBLE | INFEASIBLE | MODEL_INVALID | UNKNOWN | UNLISTED

definition STATUS_MAP :: "status_code \<rightharpoonup> string" where
  "STATUS_MAP =
     [OPTIMAL \<mapsto> ''OPTIMAL'', FEASIBLE \<mapsto> ''FEASIBLE'', INFEASIBLE \<mapsto> ''INFEASIBLE'',
      MODEL_INVALID \<mapsto> ''MODEL_INVALID'', UNKNOWN \<mapsto> ''UNKNOWN'']"

record response =
  status_code :: status_code
  solver_value :: "expr \<Rightarrow> error + int"

definition solved :: "status_code \<Rightarrow> assignment \<Rightarrow> response" where
  "solved code a = \<lparr>status_code = code, solver_value = (\<lambda>x. Inr (eval a x))\<rparr>"

record start_rec =
  task :: string
  slot :: int

record day_out = day_rec +
  s_count :: int
  u_count :: int
  v_count :: int
  a_count :: int
  r_count :: int
  drivers_T :: "start_rec list list"
  drivers_L :: "start_rec list list"
  FT_start :: int
  ET_start :: int
  Tf_start :: int
  Te_start :: int
  FT_end :: int
  ET_end :: int
  Tf_end :: int
  Te_end :: int

record SolveResult =
  status :: string
  objective_deliveries :: int
  objective_liters :: int
  days_out :: "day_out list"

definition and_then :: "error + 'a \<Rightarrow> ('a \<Rightarrow> error + 'b) \<Rightarrow> error + 'b" where
  "and_then m f = (case m of Inl e \<Rightarrow> Inl e | Inr x \<Rightarrow> f x)"

fun for_each :: "('a \<Rightarrow> error + 'b) \<Rightarrow> 'a list \<Rightarrow> error + 'b list" where
  "for_each f [] = Inr []"
| "for_each f (x # xs) =
     and_then (f x) (\<lambda>y. and_then (for_each f xs) (\<lambda>ys. Inr (y # ys)))"

text \<open>\<open>sum(int(solver.value(X[d][i][t])) for i in range(..) for t in range(..))\<close>.\<close>

definition count_starts ::
  "(expr \<Rightarrow> error + int) \<Rightarrow> (int \<Rightarrow> int \<Rightarrow> expr) \<Rightarrow> int \<Rightarrow> int \<Rightarrow> error + int" where
  "count_starts val X drivers slots =
     and_then
       (for_each val (concat (map (\<lambda>i. map (X i) (py_range 0 slots)) (py_range 0 drivers))))
       (\<lambda>vs. Inr (sum_list vs))"

text \<open>
  The \<open>starts\<close> of one driver (lines 463 to 468 and 473 to 478): in every slot the two
  start variables are read, and a value other than 0 appends an entry.
\<close>

definition starts ::
  "(expr \<Rightarrow> error + int) \<Rightarrow> (int \<Rightarrow> expr) \<Rightarrow> string \<Rightarrow> (int \<Rightarrow> expr) \<Rightarrow> string \<Rightarrow> int \<Rightarrow>
   error + start_rec list" where
  "starts val X kx Y ky slots =
     and_then
       (for_each (\<lambda>t.
            and_then (val (X t)) (\<lambda>x.
            and_then (val (Y t)) (\<lambda>y.
              Inr ((if x \<noteq> 0 then [\<lparr>task = kx, slot = t\<rparr>] else []) @
                   (if y \<noteq> 0 then [\<lparr>task = ky, slot = t\<rparr>] else [])))))
          (py_range 0 slots))
       (\<lambda>ss. Inr (concat ss))"

definition day_report :: "(expr \<Rightarrow> error + int) \<Rightarrow> request \<Rightarrow> int \<Rightarrow> error + day_out" where
  "day_report val data d =
     and_then (count_starts val (S_start data d) (drivers_T_base data) (slots_per_day data)) (\<lambda>s_count.
     and_then (count_starts val (U_start data d) (drivers_T_base data) (slots_per_day data)) (\<lambda>u_count.
     and_then (count_starts val (V_start data d) (drivers_L_base data) (slots_per_day data)) (\<lambda>v_count.
     and_then (count_starts val (A_start data d) (drivers_L_base data) (slots_per_day data)) (\<lambda>a_count.
     and_then (and_then (for_each val (map (R_start d) (py_range 0 (slots_per_day data))))
                 (\<lambda>vs. Inr (sum_list vs))) (\<lambda>r_count.
     and_then (for_each (\<lambda>i. starts val (S_start data d i) ''S'' (U_start data d i) ''U''
                                (slots_per_day data))
                 (py_range 0 (drivers_T_base data))) (\<lambda>drivers_T.
     and_then (for_each (\<lambda>j. starts val (V_start data d j) ''V'' (A_start data d j) ''A''
                                (slots_per_day data))
                 (py_range 0 (drivers_L_base data))) (\<lambda>drivers_L.
     and_then (val (FT_at d 0)) (\<lambda>FT_start.
     and_then (val (ET_at d 0)) (\<lambda>ET_start.
     and_then (val (Tf_at d 0)) (\<lambda>Tf_start.
     and_then (val (Te_at d 0)) (\<lambda>Te_start.
     and_then (val (FT_at d (slots_per_day data))) (\<lambda>FT_end.
     and_then (val (ET_at d (slots_per_day data))) (\<lambda>ET_end.
     and_then (val (Tf_at d (slots_per_day data))) (\<lambda>Tf_end.
     and_then (val (Te_at d (slots_per_day data))) (\<lambda>Te_end.
       Inr \<lparr>date = date (day_at data d),
            D_T = D_T (day_at data d),
            D_L = D_L (day_at data d),
            s_count = s_count,
            u_count = u_count,
            v_count = v_count,
            a_count = a_count,
            r_count = r_count,
            drivers_T = drivers_T,
            drivers_L = drivers_L,
            FT_start = FT_start,
            ET_start = ET_start,
            Tf_start = Tf_start,
            Te_start = Te_start,
            FT_end = FT_end,
            ET_end = ET_end,
            Tf_end = Tf_end,
            Te_end = Te_end\<rparr>)))))))))))))))"

definition report :: "request \<Rightarrow> response \<Rightarrow> error + SolveResult" where
  "report data resp =
     (let status = (case STATUS_MAP (status_code resp) of Some s \<Rightarrow> s | None \<Rightarrow> ''UNKNOWN'')
      in and_then (for_each (day_report (solver_value resp) data) (py_range 0 (num_days data)))
           (\<lambda>days_out.
         and_then (if status \<in> {''OPTIMAL'', ''FEASIBLE''}
                   then solver_value resp total_deliveries else Inr 0)
           (\<lambda>total_deliveries_val.
              Inr \<lparr>status = status,
                   objective_deliveries = total_deliveries_val,
                   objective_liters = total_deliveries_val * liters_per_unit data,
                   days_out = days_out\<rparr>)))"

definition solve ::
  "(constr \<Rightarrow> error option) \<Rightarrow> (string \<Rightarrow> (int \<times> int \<times> int) option) \<Rightarrow> (model \<Rightarrow> response) \<Rightarrow>
   request \<Rightarrow> error + SolveResult" where
  "solve lib iso_year_week solver data =
     (case build_model lib iso_year_week data of
        Inl e \<Rightarrow> Inl e
      | Inr m \<Rightarrow> report data (solver m))"

text \<open>
  What a result is made of when every read returns: the same records, built from the
  values \<open>g x\<close> that the reads gave.
\<close>

definition count_of :: "(expr \<Rightarrow> int) \<Rightarrow> (int \<Rightarrow> int \<Rightarrow> expr) \<Rightarrow> int \<Rightarrow> int \<Rightarrow> int" where
  "count_of g X drivers slots =
     sum_list (map g (concat (map (\<lambda>i. map (X i) (py_range 0 slots)) (py_range 0 drivers))))"

definition starts_of ::
  "(expr \<Rightarrow> int) \<Rightarrow> (int \<Rightarrow> expr) \<Rightarrow> string \<Rightarrow> (int \<Rightarrow> expr) \<Rightarrow> string \<Rightarrow> int \<Rightarrow> start_rec list" where
  "starts_of g X kx Y ky slots =
     concat (map (\<lambda>t.
         (if g (X t) \<noteq> 0 then [\<lparr>task = kx, slot = t\<rparr>] else []) @
         (if g (Y t) \<noteq> 0 then [\<lparr>task = ky, slot = t\<rparr>] else []))
       (py_range 0 slots))"

definition day_values :: "(expr \<Rightarrow> int) \<Rightarrow> request \<Rightarrow> int \<Rightarrow> day_out" where
  "day_values g data d =
     \<lparr>date = date (day_at data d),
      D_T = D_T (day_at data d),
      D_L = D_L (day_at data d),
      s_count = count_of g (S_start data d) (drivers_T_base data) (slots_per_day data),
      u_count = count_of g (U_start data d) (drivers_T_base data) (slots_per_day data),
      v_count = count_of g (V_start data d) (drivers_L_base data) (slots_per_day data),
      a_count = count_of g (A_start data d) (drivers_L_base data) (slots_per_day data),
      r_count = sum_list (map g (map (R_start d) (py_range 0 (slots_per_day data)))),
      drivers_T = map (\<lambda>i. starts_of g (S_start data d i) ''S'' (U_start data d i) ''U''
                             (slots_per_day data))
                    (py_range 0 (drivers_T_base data)),
      drivers_L = map (\<lambda>j. starts_of g (V_start data d j) ''V'' (A_start data d j) ''A''
                             (slots_per_day data))
                    (py_range 0 (drivers_L_base data)),
      FT_start = g (FT_at d 0),
      ET_start = g (ET_at d 0),
      Tf_start = g (Tf_at d 0),
      Te_start = g (Te_at d 0),
      FT_end = g (FT_at d (slots_per_day data)),
      ET_end = g (ET_at d (slots_per_day data)),
      Tf_end = g (Tf_at d (slots_per_day data)),
      Te_end = g (Te_at d (slots_per_day data))\<rparr>"

text \<open>The value that a read returned; it is used only where the read did return.\<close>

definition returned :: "response \<Rightarrow> expr \<Rightarrow> int" where
  "returned resp x = (case solver_value resp x of Inr v \<Rightarrow> v | Inl e \<Rightarrow> 0)"

section \<open>\<open>build_days\<close> of \<open>main.py\<close>\<close>

text \<open>
  A \<open>datetime.date\<close> is its proleptic Gregorian ordinal, from \<open>1\<close> (0001-01-01, a Monday)
  to \<open>max_ordinal\<close> (9999-12-31). \<open>weekday()\<close> is \<open>(ordinal + 6) % 7\<close>; adding one day to
  the last date raises \<open>OverflowError\<close>. Parsing and \<open>isoformat\<close> are the library's:
  parameters \<open>parse_date\<close> (\<open>None\<close> where \<open>strptime\<close> raises \<open>ValueError\<close>) and
  \<open>isoformat\<close>. \<open>d_t\<close> and \<open>d_l\<close> are a dictionary keyed by date string or a sequence.
\<close>

definition max_ordinal :: int where
  "max_ordinal = 3652059"

definition weekday :: "int \<Rightarrow> int" where
  "weekday cur = (cur + 6) mod 7"

datatype avail = Dict "string \<rightharpoonup> int" | Seq "int list"

fun avail_val :: "avail \<Rightarrow> string \<Rightarrow> nat \<Rightarrow> int" where
  "avail_val (Dict m) day_str idx = (case m day_str of None \<Rightarrow> 0 | Some v \<Rightarrow> v)"
| "avail_val (Seq xs) day_str idx = (if idx < length xs then xs ! idx else 0)"

function days_loop ::
  "(int \<Rightarrow> string) \<Rightarrow> int \<Rightarrow> avail \<Rightarrow> avail \<Rightarrow> bool \<Rightarrow> int \<Rightarrow> nat \<Rightarrow> day_rec list \<Rightarrow> error + day_rec list" where
  "days_loop isoformat end d_t d_l include_weekend cur idx acc =
     (if cur \<le> end
      then (let day_str = isoformat cur
            in if \<not> include_weekend \<and> weekday cur \<ge> 5
               then (if cur + 1 > max_ordinal then Inl OverflowError
                     else days_loop isoformat end d_t d_l include_weekend (cur + 1) idx acc)
               else (let d_t_val = avail_val d_t day_str idx;
                         d_l_val = avail_val d_l day_str idx;
                         days' = acc @ [\<lparr>date = day_str, D_T = d_t_val, D_L = d_l_val\<rparr>]
                     in if cur + 1 > max_ordinal then Inl OverflowError
                        else days_loop isoformat end d_t d_l include_weekend (cur + 1) (idx + 1) days'))
      else Inr acc)"
  by pat_completeness auto
termination
  by (relation "measure (\<lambda>(isoformat, end, d_t, d_l, include_weekend, cur, idx, acc). nat (end + 1 - cur))") auto

definition build_days ::
  "(string \<Rightarrow> int option) \<Rightarrow> (int \<Rightarrow> string) \<Rightarrow> string \<Rightarrow> string \<Rightarrow> avail \<Rightarrow> avail \<Rightarrow> bool
     \<Rightarrow> error + day_rec list" where
  "build_days parse_date isoformat start_date end_date d_t d_l include_weekend =
     (case parse_date start_date of
        None \<Rightarrow> Inl ValueError
      | Some start \<Rightarrow>
          (case parse_date end_date of
             None \<Rightarrow> Inl ValueError
           | Some end \<Rightarrow>
               if end < start then Inl ValueError
               else days_loop isoformat end d_t d_l include_weekend start 0 []))"


section \<open>The spec's vocabulary\<close>

text \<open>
  The quantities of the spec's section 4.4 at a solution \<open>a\<close>: the aggregate starts of a
  slot, and a lagged term, which is \<open>0\<close> when the shifted index is negative within the day.
\<close>

definition lagged :: "(int \<Rightarrow> int) \<Rightarrow> int \<Rightarrow> int \<Rightarrow> int" where
  "lagged f t k = (if t - k < 0 then 0 else f (t - k))"

definition s_sum :: "assignment \<Rightarrow> request \<Rightarrow> int \<Rightarrow> int \<Rightarrow> int" where
  "s_sum a data d t = (\<Sum>i\<leftarrow>py_range 0 (drivers_T_base data). eval a (S_start data d i t))"

definition u_sum :: "assignment \<Rightarrow> request \<Rightarrow> int \<Rightarrow> int \<Rightarrow> int" where
  "u_sum a data d t = (\<Sum>i\<leftarrow>py_range 0 (drivers_T_base data). eval a (U_start data d i t))"

definition v_sum :: "assignment \<Rightarrow> request \<Rightarrow> int \<Rightarrow> int \<Rightarrow> int" where
  "v_sum a data d t = (\<Sum>j\<leftarrow>py_range 0 (drivers_L_base data). eval a (V_start data d j t))"

definition a_sum :: "assignment \<Rightarrow> request \<Rightarrow> int \<Rightarrow> int \<Rightarrow> int" where
  "a_sum a data d t = (\<Sum>j\<leftarrow>py_range 0 (drivers_L_base data). eval a (A_start data d j t))"

definition r_val :: "assignment \<Rightarrow> int \<Rightarrow> int \<Rightarrow> int" where
  "r_val a d t = eval a (R_start d t)"

text \<open>A slot count is a duration rounded down to whole slots.\<close>

definition rounded_down :: "int \<Rightarrow> int \<Rightarrow> int \<Rightarrow> bool" where
  "rounded_down slots minutes slot_len = (slots * slot_len \<le> minutes \<and> minutes < (slots + 1) * slot_len)"

text \<open>
  A driver's driving minutes of a day at a solution, and the days of an ISO week: the day
  indices whose date the calendar puts in the week \<open>yw = (year, week)\<close>.
\<close>

definition driving_minutes_T :: "assignment \<Rightarrow> request \<Rightarrow> int \<Rightarrow> int \<Rightarrow> int" where
  "driving_minutes_T a data d i =
     (\<Sum>t\<leftarrow>py_range 0 (slots_per_day data).
        eval a (S_start data d i t) * 300 + eval a (U_start data d i t) * 210)"

definition driving_minutes_L :: "assignment \<Rightarrow> request \<Rightarrow> int \<Rightarrow> int \<Rightarrow> int" where
  "driving_minutes_L a data d j =
     (\<Sum>t\<leftarrow>py_range 0 (slots_per_day data).
        eval a (V_start data d j t) * 210 + eval a (A_start data d j t) * 510)"

definition in_week :: "(string \<Rightarrow> (int \<times> int \<times> int) option) \<Rightarrow> request \<Rightarrow> week_key \<Rightarrow> int \<Rightarrow> bool" where
  "in_week cal data yw d = (year_week cal (day_at data d) = yw)"

text \<open>
  A driver is actively driving in slot \<open>t\<close> when some started task of a kind covers \<open>t\<close>
  (\<open>t0 \<le> t < t0 + duration\<close>) with \<open>t - t0\<close> in the kind's driving-offset set.
\<close>

definition started_covering :: "assignment \<Rightarrow> (int \<Rightarrow> expr) \<Rightarrow> int \<Rightarrow> int set \<Rightarrow> int \<Rightarrow> int \<Rightarrow> bool" where
  "started_covering a X duration offsets spd t =
     list_ex (\<lambda>t0. eval a (X t0) = 1 \<and> t0 \<le> t \<and> t < t0 + duration \<and> t - t0 \<in> offsets)
       (py_range 0 spd)"

definition driving_T :: "assignment \<Rightarrow> request \<Rightarrow> int \<Rightarrow> int \<Rightarrow> int \<Rightarrow> bool" where
  "driving_T a data d i t =
     (started_covering a (S_start data d i) (supply_slots data) supply_drive_offsets (slots_per_day data) t \<or>
      started_covering a (U_start data d i) (shuttle_slots data) shuttle_drive_offsets (slots_per_day data) t)"

definition driving_L :: "assignment \<Rightarrow> request \<Rightarrow> int \<Rightarrow> int \<Rightarrow> int \<Rightarrow> bool" where
  "driving_L a data d j t =
     (started_covering a (V_start data d j) (resident_slots data) resident_drive_offsets (slots_per_day data) t \<or>
      started_covering a (A_start data d j) (adr_slots data) adr_drive_offsets (slots_per_day data) t)"

text \<open>
  The dates \<open>build_days\<close> keeps, in calendar order, and the record it makes of the
  \<open>idx\<close>-th kept date.
\<close>

definition kept_dates :: "bool \<Rightarrow> int \<Rightarrow> int \<Rightarrow> int list" where
  "kept_dates include_weekend start end =
     filter (\<lambda>cur. include_weekend \<or> weekday cur < 5) [start..end]"

definition day_of :: "(int \<Rightarrow> string) \<Rightarrow> avail \<Rightarrow> avail \<Rightarrow> nat \<times> int \<Rightarrow> day_rec" where
  "day_of isoformat d_t d_l p =
     (case p of (idx, cur) \<Rightarrow>
        \<lparr>date = isoformat cur,
         D_T = avail_val d_t (isoformat cur) idx,
         D_L = avail_val d_l (isoformat cur) idx\<rparr>)"

text \<open>
  The integers that \<open>solve\<close> hands to the library as bounds, constants and
  coefficients, next to the literals 0, 1, 210, 300 and 510.
\<close>

definition library_integers :: "request \<Rightarrow> int list" where
  "library_integers data =
     [total_trailers data, total_tractors data, drive_minutes_extended data,
      drive_minutes_daily data, drive_minutes_extended data - drive_minutes_daily data,
      break_drive_cap_slots data, max_resident_trips data, max_adr_trips data,
      init_FT data, init_ET data, init_Tf data, init_Te data, adr_weekly_cap data,
      max_extended_days_per_week data, weekly_drive_limit_minutes data,
      biweekly_drive_limit_minutes data, num_days data * slots_per_day data]"

definition int64_parameters :: "request \<Rightarrow> bool" where
  "int64_parameters data = list_all int64 (library_integers data)"



section \<open>Concrete requests and solutions\<close>

text \<open>The library's ISO calendar on the one date the examples use: 2024-06-03, a Monday of week 23.\<close>

definition cal_const :: "string \<Rightarrow> (int \<times> int \<times> int) option" where
  "cal_const s = Some (2024, 23, 1)"

definition req7 :: request where
  "req7 = \<lparr>days = [\<lparr>date = ''2024-06-03'', D_T = 2, D_L = 0\<rparr>],
           initial_state = \<lparr>FT = 1, ET = 1, Tf = 0, Te = 3\<rparr>,
           settings = [''total_trailers'' \<mapsto> 1]\<rparr>"

fun asg7 :: assignment where
  "asg7 (R_var d t) = (if t = 0 then 1 else 0)"
| "asg7 (S_var d i t) = (if (i = 0 \<and> t = 2) \<or> (i = 1 \<and> t = 25) then 1 else 0)"
| "asg7 (FT_var d t) = (if t = 0 \<or> 26 \<le> t then 1 else 0)"
| "asg7 (ET_var d t) = (if t \<le> 25 then 1 else 0)"
| "asg7 (Tf_var d t) = (if t \<le> 2 then 0 else if t \<le> 25 then 1 else 2)"
| "asg7 (Te_var d t) = (if t \<le> 0 then 3 else if t \<le> 2 then 2 else if t \<le> 25 then 1 else 0)"
| "asg7 (drive_T_var d i) = (if i \<le> 1 then 300 else 0)"
| "asg7 (drive_T_week_var d i) = (if i \<le> 1 then 300 else 0)"
| "asg7 (drv_T_var d i t) =
     (if i = 0 \<and> (2 \<le> t \<and> t \<le> 11 \<or> 15 \<le> t \<and> t \<le> 24) then 1
      else if i = 1 \<and> (25 \<le> t \<and> t \<le> 34 \<or> 38 \<le> t \<and> t \<le> 47) then 1 else 0)"
| "asg7 _ = 0"

definition model7 :: model where
  "model7 = \<lparr>constraints = model_constraints cal_const req7, maximize = total_deliveries\<rparr>"

text \<open>Scenario 3 of the spec: the Livigno entry window opens only at minute 600.\<close>

definition req6 :: request where
  "req6 = \<lparr>days = [\<lparr>date = ''2024-06-03'', D_T = 1, D_L = 1\<rparr>],
           initial_state = \<lparr>FT = 2, ET = 0, Tf = 2, Te = 0\<rparr>,
           settings = [''livigno_entry_start_minutes'' \<mapsto> 600]\<rparr>"

text \<open>A slot length that divides none of the task durations, and a slot length of zero.\<close>

definition req3 :: request where
  "req3 = \<lparr>days = [\<lparr>date = ''2024-06-03'', D_T = 1, D_L = 0\<rparr>],
           initial_state = \<lparr>FT = 2, ET = 0, Tf = 2, Te = 0\<rparr>,
           settings = [''slot_minutes'' \<mapsto> 20]\<rparr>"

definition req3_zero :: request where
  "req3_zero = \<lparr>days = [\<lparr>date = ''2024-06-03'', D_T = 1, D_L = 0\<rparr>],
           initial_state = \<lparr>FT = 2, ET = 0, Tf = 2, Te = 0\<rparr>,
           settings = [''slot_minutes'' \<mapsto> 0]\<rparr>"

text \<open>
  More full trailers in \<open>initial_state\<close> than \<open>total_trailers\<close> allows: the model has no
  solution, and the solver answers \<open>INFEASIBLE\<close>. Two solvers that do: with \<open>no_values\<close>
  every read raises, with \<open>stale_values\<close> every read returns the number 1, which is the
  value of no solution.
\<close>

definition req2 :: request where
  "req2 = \<lparr>days = [\<lparr>date = ''2024-06-03'', D_T = 1, D_L = 0\<rparr>],
           initial_state = \<lparr>FT = 2, ET = 0, Tf = 2, Te = 0\<rparr>,
           settings = [''total_trailers'' \<mapsto> 1]\<rparr>"

definition model2 :: model where
  "model2 = \<lparr>constraints = model_constraints cal_const req2, maximize = total_deliveries\<rparr>"

definition no_values :: "model \<Rightarrow> response" where
  "no_values m = \<lparr>status_code = INFEASIBLE, solver_value = (\<lambda>x. Inl SolverValueError)\<rparr>"

definition stale_values :: "model \<Rightarrow> response" where
  "stale_values m = \<lparr>status_code = INFEASIBLE, solver_value = (\<lambda>x. Inr 1)\<rparr>"

text \<open>
  A day without drivers, one full trailer and one engaged tractor at the depot: once with
  a refill at slot 0, once with nothing started.
\<close>

definition req5 :: request where
  "req5 = \<lparr>days = [\<lparr>date = ''2024-06-03'', D_T = 0, D_L = 0\<rparr>],
           initial_state = \<lparr>FT = 1, ET = 0, Tf = 0, Te = 1\<rparr>,
           settings = Map.empty\<rparr>"

definition model5 :: model where
  "model5 = \<lparr>constraints = model_constraints cal_const req5, maximize = total_deliveries\<rparr>"

fun asg5 :: assignment where
  "asg5 (R_var d t) = (if t = 0 then 1 else 0)"
| "asg5 (FT_var d t) = (if t = 0 then 1 else 0)"
| "asg5 (ET_var d t) = (if 3 \<le> t then 1 else 0)"
| "asg5 (Tf_var d t) = (if 3 \<le> t then 1 else 0)"
| "asg5 (Te_var d t) = (if t = 0 then 1 else 0)"
| "asg5 _ = 0"

fun asg5_idle :: assignment where
  "asg5_idle (FT_var d t) = 1"
| "asg5_idle (Te_var d t) = 1"
| "asg5_idle _ = 0"

text \<open>
  Scenario 2 of the spec (a supply at slot 0), with the daily driving limit lowered to
  200 minutes so that the day is an extended one.
\<close>

definition req9 :: request where
  "req9 = \<lparr>days = [\<lparr>date = ''2024-06-03'', D_T = 1, D_L = 0\<rparr>],
           initial_state = \<lparr>FT = 0, ET = 1, Tf = 1, Te = 1\<rparr>,
           settings = [''drive_minutes_daily'' \<mapsto> 200]\<rparr>"

definition model9 :: model where
  "model9 = \<lparr>constraints = model_constraints cal_const req9, maximize = total_deliveries\<rparr>"

fun asg9 :: assignment where
  "asg9 (S_var d i t) = (if i = 0 \<and> t = 0 then 1 else 0)"
| "asg9 (FT_var d t) = (if 24 \<le> t then 1 else 0)"
| "asg9 (ET_var d t) = (if t = 0 then 1 else 0)"
| "asg9 (Tf_var d t) = (if 24 \<le> t then 2 else 1)"
| "asg9 (Te_var d t) = (if t = 0 then 1 else 0)"
| "asg9 (drive_T_var d i) = (if i = 0 then 300 else 0)"
| "asg9 (ext_T_var d i) = (if i = 0 then 1 else 0)"
| "asg9 (drive_T_week_var d i) = (if i = 0 then 300 else 0)"
| "asg9 (ext_flag_T_var d i) = (if i = 0 then 1 else 0)"
| "asg9 (drv_T_var d i t) = (if i = 0 \<and> (0 \<le> t \<and> t \<le> 9 \<or> 13 \<le> t \<and> t \<le> 22) then 1 else 0)"
| "asg9 _ = 0"

text \<open>The library's parsing and formatting on Friday 2024-06-07 to Monday 2024-06-10, and its
  parsing of the last date it represents.\<close>

definition parse_june :: "string \<Rightarrow> int option" where
  "parse_june s =
     (if s = ''2024-06-07'' then Some 739044
      else if s = ''2024-06-10'' then Some 739047
      else if s = ''9999-12-31'' then Some 3652059
      else None)"

definition isoformat_june :: "int \<Rightarrow> string" where
  "isoformat_june cur =
     (if cur = 739044 then ''2024-06-07''
      else if cur = 739045 then ''2024-06-08''
      else if cur = 739046 then ''2024-06-09''
      else if cur = 739047 then ''2024-06-10''
      else '''')"

text \<open>
  No trailers at the depot, everything else at its default: once with a free tractor and
  a shuttle started at slot 0, once with no free tractor and nothing started.
\<close>

definition req4 :: request where
  "req4 = \<lparr>days = [\<lparr>date = ''2024-06-03'', D_T = 1, D_L = 1\<rparr>],
           initial_state = \<lparr>FT = 0, ET = 0, Tf = 1, Te = 0\<rparr>,
           settings = Map.empty\<rparr>"

definition model4 :: model where
  "model4 = \<lparr>constraints = model_constraints cal_const req4, maximize = total_deliveries\<rparr>"

fun asg4 :: assignment where
  "asg4 (U_var d i t) = (if i = 0 \<and> t = 0 then 1 else 0)"
| "asg4 (Tf_var d t) = (if t = 0 then 1 else 0)"
| "asg4 (Te_var d t) = (if 17 \<le> t then 1 else 0)"
| "asg4 (drive_T_var d i) = (if i = 0 then 210 else 0)"
| "asg4 (drive_T_week_var d i) = (if i = 0 then 210 else 0)"
| "asg4 (drv_T_var d i t) = (if i = 0 \<and> (0 \<le> t \<and> t \<le> 7 \<or> 10 \<le> t \<and> t \<le> 15) then 1 else 0)"
| "asg4 total_deliveries_var = 1"
| "asg4 _ = 0"

definition req4_idle :: request where
  "req4_idle = \<lparr>days = [\<lparr>date = ''2024-06-03'', D_T = 1, D_L = 1\<rparr>],
           initial_state = \<lparr>FT = 0, ET = 0, Tf = 0, Te = 1\<rparr>,
           settings = Map.empty\<rparr>"

definition model4_idle :: model where
  "model4_idle = \<lparr>constraints = model_constraints cal_const req4_idle, maximize = total_deliveries\<rparr>"

fun asg4_idle :: assignment where
  "asg4_idle (Te_var d t) = 1"
| "asg4_idle _ = 0"


section \<open>Reading constraints off a feasible assignment\<close>

lemma set_py_range: "set (py_range a b) = {x. a \<le> x \<and> x < b}"
  by (auto simp: py_range_def)

lemma first_error_None:
  "first_error lib es = None \<longleftrightarrow> (\<forall>ev \<in> set es. \<exists>c. ev = Call c \<and> lib c = None)"
  by (induction lib es rule: first_error.induct) (auto split: option.splits)

lemma first_error_calls:
  "first_error lib (map Call cs) = None \<longleftrightarrow> (\<forall>c \<in> set cs. lib c = None)"
  by (auto simp: first_error_None)

lemma build_model_Inr:
  "build_model lib cal data = Inr m \<Longrightarrow> constraints m = model_constraints cal data"
  by (auto simp: build_model_def split: if_splits option.splits)

lemma feasible_holds:
  "build_model lib cal data = Inr m \<Longrightarrow> feasible a m \<Longrightarrow> c \<in> set (model_constraints cal data) \<Longrightarrow> holds a c"
  by (simp add: feasible_def list_all_iff build_model_Inr)

lemma day_block_in_model:
  "0 \<le> d \<Longrightarrow> d < num_days data \<Longrightarrow> c \<in> set (day_block data d) \<Longrightarrow> c \<in> set (model_constraints cal data)"
  by (auto simp: model_constraints_def set_py_range)

lemma inventory_block_in_model:
  "0 \<le> d \<Longrightarrow> d < num_days data \<Longrightarrow> c \<in> set (inventory_block data d) \<Longrightarrow> c \<in> set (model_constraints cal data)"
  by (auto simp: model_constraints_def set_py_range)

lemma slot_in_inventory_block:
  "0 \<le> t \<Longrightarrow> t < slots_per_day data \<Longrightarrow>
   c \<in> set (availability data d t @ transitions data d t @ totals data d t) \<Longrightarrow>
   c \<in> set (inventory_block data d)"
  by (auto simp: inventory_block_def set_py_range)

lemma eval_starts:
  "eval a (supply_start data d t) = s_sum a data d t"
  "eval a (shuttle_start data d t) = u_sum a data d t"
  "eval a (resident_start data d t) = v_sum a data d t"
  "eval a (adr_start data d t) = a_sum a data d t"
  "eval a (refill_start d t) = r_val a d t"
  by (simp_all add: supply_start_def shuttle_start_def resident_start_def adr_start_def refill_start_def
      s_sum_def u_sum_def v_sum_def a_sum_def r_val_def comp_def)

lemma eval_lagged:
  "eval a (supply_end data d t) = lagged (s_sum a data d) t (supply_end_offset data)"
  "eval a (shuttle_end data d t) = lagged (u_sum a data d) t (shuttle_end_offset data)"
  "eval a (refill_end data d t) = lagged (r_val a d) t (refill_end_offset data)"
  "eval a (resident_refill_start data d t) = lagged (v_sum a data d) t (resident_refill_start_offset data)"
  "eval a (resident_refill_end data d t) = lagged (v_sum a data d) t (resident_refill_end_offset data)"
  "eval a (adr_refill_start data d t) = lagged (a_sum a data d) t (adr_refill_start_offset data)"
  "eval a (adr_supply_end data d t) = lagged (a_sum a data d) t (adr_supply_end_offset data)"
  by (simp_all add: supply_end_def shuttle_end_def refill_end_def resident_refill_start_def
      resident_refill_end_def adr_refill_start_def adr_supply_end_def lagged_def
      s_sum_def u_sum_def v_sum_def a_sum_def r_val_def comp_def)

lemma eval_inventory:
  "eval a (FT_at d t) = a (FT_var d t)" "eval a (ET_at d t) = a (ET_var d t)"
  "eval a (Tf_at d t) = a (Tf_var d t)" "eval a (Te_at d t) = a (Te_var d t)"
  by (simp_all add: FT_at_def ET_at_def Tf_at_def Te_at_def)

lemma offsets_nonneg:
  assumes "0 < slot_minutes data"
  shows "0 \<le> supply_end_offset data" "0 \<le> shuttle_end_offset data" "0 \<le> refill_end_offset data"
    "0 \<le> resident_refill_start_offset data" "0 \<le> resident_refill_end_offset data"
    "0 \<le> adr_refill_start_offset data" "0 \<le> adr_supply_end_offset data"
  using assms
  by (simp_all add: supply_end_offset_def shuttle_end_offset_def refill_end_offset_def
      resident_refill_start_offset_def resident_refill_end_offset_def adr_refill_start_offset_def
      adr_supply_end_offset_def supply_slots_def shuttle_slots_def refill_slots_def
      pos_imp_zdiv_nonneg_iff)

lemma no_lagged_index_error:
  assumes "0 < slot_minutes data" "t < slots_per_day data"
  shows "\<not> lagged_index_error data t"
  using offsets_nonneg[OF assms(1)] assms(2)
  by (simp add: lagged_index_error_def past_the_end_def)

lemma inventory_events_calls:
  assumes "0 < slot_minutes data" "0 \<le> slots_per_day data"
  shows "inventory_events data d = map Call (inventory_block data d)"
proof -
  have "map (\<lambda>t. if lagged_index_error data t then [Raise IndexError]
                  else map Call (availability data d t @ transitions data d t @ totals data d t))
          (py_range 0 (slots_per_day data)) =
        map (\<lambda>t. map Call (availability data d t @ transitions data d t @ totals data d t))
          (py_range 0 (slots_per_day data))"
    using no_lagged_index_error[OF assms(1)] by (intro map_cong) (simp_all add: set_py_range)
  then show ?thesis
    using assms(2) unfolding inventory_events_def inventory_block_def
    by (simp only: map_append map_concat map_map comp_def) simp
qed

lemma construction_calls:
  assumes "0 < slot_minutes data" "0 \<le> shift_minutes data"
    and "\<forall>day \<in> set (days data). cal (date day) \<noteq> None"
  shows "construction cal data = map Call (model_constraints cal data)"
proof -
  have "0 \<le> slots_per_day data"
    using assms(1,2) by (simp add: slots_per_day_def pos_imp_zdiv_nonneg_iff)
  then have "inventory_events data = (\<lambda>d. map Call (inventory_block data d))"
    using inventory_events_calls[OF assms(1)] by auto
  moreover have "\<not> list_ex (\<lambda>day. cal (date day) = None) (days data)"
    using assms(3) by (simp add: list_ex_iff)
  ultimately show ?thesis
    by (simp add: construction_def model_constraints_def map_concat comp_def)
qed

lemma build_model_ok:
  assumes "0 < slot_minutes data" "0 \<le> shift_minutes data"
    and "\<forall>day \<in> set (days data). cal (date day) \<noteq> None"
    and "\<forall>c \<in> set (model_constraints cal data). lib c = None"
  shows "build_model lib cal data = Inr \<lparr>constraints = model_constraints cal data, maximize = total_deliveries\<rparr>"
proof -
  have "first_error lib (construction cal data) = None"
    using assms(4) construction_calls[OF assms(1,2,3)] by (simp add: first_error_calls)
  then show ?thesis using assms(1) by (simp add: build_model_def)
qed

lemma inventory_vars_holds:
  assumes m: "build_model lib cal data = Inr m" and f: "feasible a m"
    and d: "0 \<le> d" "d < num_days data"
  shows "\<forall>c \<in> set (inventory_vars data d). holds a c"
  using feasible_holds[OF m f] day_block_in_model[OF d]
  by (auto simp: day_block_def)

lemma inventory_domain:
  assumes m: "build_model lib cal data = Inr m" and f: "feasible a m"
    and d: "0 \<le> d" "d < num_days data" and t: "0 \<le> t" "t \<le> slots_per_day data"
  shows "0 \<le> a (FT_var d t) \<and> a (FT_var d t) \<le> total_trailers data \<and>
         0 \<le> a (ET_var d t) \<and> a (ET_var d t) \<le> total_trailers data \<and>
         0 \<le> a (Tf_var d t) \<and> a (Tf_var d t) \<le> total_tractors data \<and>
         0 \<le> a (Te_var d t) \<and> a (Te_var d t) \<le> total_tractors data"
proof -
  have "t \<in> set (py_range 0 (slots_per_day data + 1))" using t by (simp add: set_py_range)
  then have "Domain (FT_var d t) 0 (total_trailers data) \<in> set (inventory_vars data d)"
    "Domain (ET_var d t) 0 (total_trailers data) \<in> set (inventory_vars data d)"
    "Domain (Tf_var d t) 0 (total_tractors data) \<in> set (inventory_vars data d)"
    "Domain (Te_var d t) 0 (total_tractors data) \<in> set (inventory_vars data d)"
    by (auto simp: inventory_vars_def)
  then show ?thesis using inventory_vars_holds[OF m f d] by fastforce
qed

lemma refill_domain:
  assumes m: "build_model lib cal data = Inr m" and f: "feasible a m"
    and d: "0 \<le> d" "d < num_days data" and t: "0 \<le> t" "t < slots_per_day data"
  shows "0 \<le> a (R_var d t) \<and> a (R_var d t) \<le> total_trailers data"
proof -
  have "t \<in> set (py_range 0 (slots_per_day data))" using t by (simp add: set_py_range)
  then have "Domain (R_var d t) 0 (total_trailers data) \<in> set (inventory_vars data d)"
    by (auto simp: inventory_vars_def)
  then show ?thesis using inventory_vars_holds[OF m f d] by fastforce
qed

lemma totals_after_transition:
  assumes m: "build_model lib cal data = Inr m" and f: "feasible a m"
    and d: "0 \<le> d" "d < num_days data" and t: "1 \<le> t" "t \<le> slots_per_day data"
  shows "a (FT_var d t) + a (ET_var d t) \<le> total_trailers data \<and>
         a (Tf_var d t) + a (Te_var d t) \<le> total_tractors data"
proof -
  have t': "0 \<le> t - 1" "t - 1 < slots_per_day data" using t by auto
  have "\<forall>c \<in> set (totals data d (t - 1)). holds a c"
    using feasible_holds[OF m f] inventory_block_in_model[OF d] slot_in_inventory_block[OF t']
    by auto
  then show ?thesis
    by (simp add: totals_def eval_inventory)
qed

lemma initialization_holds:
  assumes m: "build_model lib cal data = Inr m" and f: "feasible a m"
    and d: "0 \<le> d" "d < num_days data"
  shows "\<forall>c \<in> set (initialization data d). holds a c"
  using feasible_holds[OF m f] inventory_block_in_model[OF d]
  by (auto simp: inventory_block_def)

lemma first_boundary:
  assumes m: "build_model lib cal data = Inr m" and f: "feasible a m" and d: "0 < num_days data"
  shows "a (FT_var 0 0) = init_FT data \<and> a (ET_var 0 0) = init_ET data \<and>
         a (Tf_var 0 0) = init_Tf data \<and> a (Te_var 0 0) = init_Te data"
  using initialization_holds[OF m f _ d] by (simp add: initialization_def eval_inventory)

lemma day_boundary:
  assumes m: "build_model lib cal data = Inr m" and f: "feasible a m" and d: "1 \<le> d" "d < num_days data"
  shows "a (FT_var d 0) = a (FT_var (d - 1) (slots_per_day data)) \<and>
         a (ET_var d 0) = a (ET_var (d - 1) (slots_per_day data)) \<and>
         a (Tf_var d 0) = a (Tf_var (d - 1) (slots_per_day data)) \<and>
         a (Te_var d 0) = a (Te_var (d - 1) (slots_per_day data))"
  using initialization_holds[OF m f _ d(2)] d by (simp add: initialization_def eval_inventory)

lemma count_le_sum:
  "(\<And>x. x \<in> set xs \<Longrightarrow> 0 \<le> f x \<and> (P x \<longrightarrow> 1 \<le> f x)) \<Longrightarrow>
     int (length (filter P xs)) \<le> sum_list (map f xs)"
proof (induction xs)
  case Nil
  show ?case by simp
next
  case (Cons x xs)
  have "int (length (filter P xs)) \<le> sum_list (map f xs)" using Cons by simp
  moreover have "0 \<le> f x" "P x \<longrightarrow> 1 \<le> f x" using Cons.prems[of x] by simp_all
  ultimately show ?case by auto
qed

lemma in_concat_map: "x \<in> set xs \<Longrightarrow> c \<in> set (f x) \<Longrightarrow> c \<in> set (concat (map f xs))"
  by auto

lemma sum_list_zero: "(\<And>x. x \<in> set xs \<Longrightarrow> f x = (0::int)) \<Longrightarrow> sum_list (map f xs) = 0"
  by (induction xs) auto

lemma tirano_driver_holds:
  assumes m: "build_model lib cal data = Inr m" and f: "feasible a m"
    and d: "0 \<le> d" "d < num_days data" and i: "0 \<le> i" "i < drivers_T_base data"
    and c: "c \<in> set (tirano_driver data d i)"
  shows "holds a c"
proof -
  have "i \<in> set (py_range 0 (drivers_T_base data))" using i by (simp add: set_py_range)
  then have "c \<in> set (day_block data d)" using c unfolding day_block_def by auto
  then show ?thesis using feasible_holds[OF m f] day_block_in_model[OF d] by blast
qed

lemma livigno_driver_holds:
  assumes m: "build_model lib cal data = Inr m" and f: "feasible a m"
    and d: "0 \<le> d" "d < num_days data" and j: "0 \<le> j" "j < drivers_L_base data"
    and c: "c \<in> set (livigno_driver data d j)"
  shows "holds a c"
proof -
  have "j \<in> set (py_range 0 (drivers_L_base data))" using j by (simp add: set_py_range)
  then have "c \<in> set (day_block data d)" using c unfolding day_block_def by auto
  then show ?thesis using feasible_holds[OF m f] day_block_in_model[OF d] by blast
qed

lemma bool_domain_value:
  "\<forall>c \<in> set (bool_domain e). holds a c \<Longrightarrow> e = Const 0 \<or> (\<exists>v. e = Var v) \<Longrightarrow>
     0 \<le> eval a e \<and> eval a e \<le> 1"
  by auto

lemma start_shape:
  "S_start data d i t = Const 0 \<or> (\<exists>v. S_start data d i t = Var v)"
  "U_start data d i t = Const 0 \<or> (\<exists>v. U_start data d i t = Var v)"
  "V_start data d i t = Const 0 \<or> (\<exists>v. V_start data d i t = Var v)"
  "A_start data d i t = Const 0 \<or> (\<exists>v. A_start data d i t = Var v)"
  by (simp_all add: S_start_def U_start_def V_start_def A_start_def Let_def)

lemma started_fits:
  "eval a (S_start data d i t) \<noteq> 0 \<Longrightarrow> t + supply_slots data \<le> slots_per_day data"
  "eval a (U_start data d i t) \<noteq> 0 \<Longrightarrow> t + shuttle_slots data \<le> slots_per_day data"
  "eval a (V_start data d i t) \<noteq> 0 \<Longrightarrow> t + resident_slots data \<le> slots_per_day data"
  "eval a (A_start data d i t) \<noteq> 0 \<Longrightarrow> t + adr_slots data \<le> slots_per_day data"
  by (simp_all add: S_start_def U_start_def V_start_def A_start_def Let_def split: if_splits)

lemma start_values_T:
  assumes m: "build_model lib cal data = Inr m" and f: "feasible a m"
    and d: "0 \<le> d" "d < num_days data" and i: "0 \<le> i" "i < drivers_T_base data"
    and t: "0 \<le> t" "t < slots_per_day data"
  shows "0 \<le> eval a (S_start data d i t) \<and> eval a (S_start data d i t) \<le> 1 \<and>
         0 \<le> eval a (U_start data d i t) \<and> eval a (U_start data d i t) \<le> 1"
proof -
  have tr: "t \<in> set (py_range 0 (slots_per_day data))" using t by (simp add: set_py_range)
  have "\<forall>c \<in> set (bool_domain (S_start data d i t) @ bool_domain (U_start data d i t)). holds a c"
  proof
    fix c assume "c \<in> set (bool_domain (S_start data d i t) @ bool_domain (U_start data d i t))"
    then have "c \<in> set (tirano_starts data d i)" using tr unfolding tirano_starts_def by auto
    then show "holds a c" using tirano_driver_holds[OF m f d i] by (simp add: tirano_driver_def)
  qed
  then have "\<forall>c \<in> set (bool_domain (S_start data d i t)). holds a c"
    "\<forall>c \<in> set (bool_domain (U_start data d i t)). holds a c" by auto
  from bool_domain_value[OF this(1) start_shape(1)] bool_domain_value[OF this(2) start_shape(2)]
  show ?thesis by simp
qed

lemma start_values_L:
  assumes m: "build_model lib cal data = Inr m" and f: "feasible a m"
    and d: "0 \<le> d" "d < num_days data" and j: "0 \<le> j" "j < drivers_L_base data"
    and t: "0 \<le> t" "t < slots_per_day data"
  shows "0 \<le> eval a (V_start data d j t) \<and> eval a (V_start data d j t) \<le> 1 \<and>
         0 \<le> eval a (A_start data d j t) \<and> eval a (A_start data d j t) \<le> 1"
proof -
  have tr: "t \<in> set (py_range 0 (slots_per_day data))" using t by (simp add: set_py_range)
  have "\<forall>c \<in> set (bool_domain (V_start data d j t) @ bool_domain (A_start data d j t)). holds a c"
  proof
    fix c assume "c \<in> set (bool_domain (V_start data d j t) @ bool_domain (A_start data d j t))"
    then have "c \<in> set (livigno_starts data d j)" using tr unfolding livigno_starts_def by auto
    then show "holds a c" using livigno_driver_holds[OF m f d j] by (simp add: livigno_driver_def)
  qed
  then have "\<forall>c \<in> set (bool_domain (V_start data d j t)). holds a c"
    "\<forall>c \<in> set (bool_domain (A_start data d j t)). holds a c" by auto
  from bool_domain_value[OF this(1) start_shape(3)] bool_domain_value[OF this(2) start_shape(4)]
  show ?thesis by simp
qed

lemma availability_general:
  assumes m: "build_model lib cal data = Inr m" and f: "feasible a m"
    and d: "0 \<le> d" "d < num_days data" and t: "0 \<le> t" "t < slots_per_day data"
  shows "s_sum a data d t \<le> a (ET_var d t) \<and> s_sum a data d t + r_val a d t \<le> a (Te_var d t) \<and>
         u_sum a data d t \<le> a (Tf_var d t) \<and> r_val a d t \<le> a (FT_var d t)"
proof -
  have "\<forall>c \<in> set (availability data d t). holds a c"
    using feasible_holds[OF m f] inventory_block_in_model[OF d] slot_in_inventory_block[OF t]
    by auto
  then show ?thesis
    by (simp add: availability_def eval_starts eval_inventory)
qed

lemma objective_general:
  assumes m: "build_model lib cal data = Inr m" and f: "feasible a m"
  shows "0 \<le> a total_deliveries_var \<and>
         a total_deliveries_var = sum_list (map (\<lambda>d. eval a (deliveries data d)) (py_range 0 (num_days data)))"
proof -
  have "\<forall>c \<in> set (objective data). holds a c"
    using feasible_holds[OF m f] by (simp add: model_constraints_def)
  then show ?thesis by (simp add: objective_def total_deliveries_def comp_def)
qed

lemma sum_concat_swap:
  "sum_list (map (eval a) (concat (map (\<lambda>i. map (X i) ts) is))) =
     sum_list (map (\<lambda>t. sum_list (map (\<lambda>i. eval a (X i t)) is)) ts)"
proof (induction "is")
  case Nil
  show ?case by simp
next
  case (Cons i "is")
  have "sum_list (map (\<lambda>t. eval a (X i t) + sum_list (map (\<lambda>i. eval a (X i t)) is)) ts) =
      sum_list (map (\<lambda>t. eval a (X i t)) ts) +
      sum_list (map (\<lambda>t. sum_list (map (\<lambda>i. eval a (X i t)) is)) ts)"
    by (rule sum_list_addf)
  then show ?case using Cons by (simp add: comp_def)
qed

lemma eval_deliveries:
  "eval a (deliveries data d) =
     sum_list (map (u_sum a data d) (py_range 0 (slots_per_day data))) +
     sum_list (map (v_sum a data d) (py_range 0 (slots_per_day data))) +
     sum_list (map (a_sum a data d) (py_range 0 (slots_per_day data)))"
  unfolding deliveries_def u_sum_def v_sum_def a_sum_def
  by (simp add: sum_concat_swap[symmetric] comp_def)

lemma s_sum_nonneg:
  assumes m: "build_model lib cal data = Inr m" and f: "feasible a m"
    and d: "0 \<le> d" "d < num_days data" and t: "0 \<le> t" "t < slots_per_day data"
  shows "0 \<le> s_sum a data d t"
  unfolding s_sum_def
  by (rule sum_list_nonneg) (use start_values_T[OF m f d _ _ t] in \<open>auto simp: set_py_range\<close>)

section \<open>The library accepts 64-bit parameters\<close>

lemma int64_small [simp]: "int64 0" "int64 1" "int64 210" "int64 300" "int64 510"
  by (simp_all add: int64_def)

lemma start_int64 [simp]:
  "expr_int64 (S_start data d i t)" "expr_int64 (U_start data d i t)"
  "expr_int64 (V_start data d i t)" "expr_int64 (A_start data d i t)"
  by (simp_all add: S_start_def U_start_def V_start_def A_start_def Let_def)

lemma inventory_int64 [simp]:
  "expr_int64 (FT_at d t)" "expr_int64 (ET_at d t)" "expr_int64 (Tf_at d t)"
  "expr_int64 (Te_at d t)" "expr_int64 (R_start d t)"
  by (simp_all add: FT_at_def ET_at_def Tf_at_def Te_at_def R_start_def)

lemma bool_domain_int64 [simp]: "c \<in> set (bool_domain e) \<Longrightarrow> constr_int64 c"
  by (cases e) auto

lemma drive_sum_int64 [simp]:
  "expr_int64 (drive_sum_T data d i)" "expr_int64 (drive_sum_L data d i)"
  by (simp_all add: drive_sum_T_def drive_sum_L_def list_all_iff)

lemma set_py_slice: "set (py_slice xs a b) \<subseteq> set xs"
  unfolding py_slice_def Let_def
  by (meson set_take_subset set_drop_subset subset_trans)

lemma int64_parameters_D:
  assumes "int64_parameters data"
  shows "int64 (total_trailers data)" "int64 (total_tractors data)"
    "int64 (drive_minutes_extended data)" "int64 (drive_minutes_daily data)"
    "int64 (drive_minutes_extended data - drive_minutes_daily data)"
    "int64 (break_drive_cap_slots data)" "int64 (max_resident_trips data)"
    "int64 (max_adr_trips data)" "int64 (init_FT data)" "int64 (init_ET data)"
    "int64 (init_Tf data)" "int64 (init_Te data)" "int64 (adr_weekly_cap data)"
    "int64 (max_extended_days_per_week data)" "int64 (weekly_drive_limit_minutes data)"
    "int64 (biweekly_drive_limit_minutes data)" "int64 (num_days data * slots_per_day data)"
  using assms by (simp_all add: int64_parameters_def library_integers_def)

lemma tirano_driver_int64:
  assumes "int64_parameters data"
  shows "list_all constr_int64 (tirano_driver data d i)"
proof -
  have "list_all expr_int64 (py_slice (drive_slots_T data d i) t0 w)" for t0 w
  proof -
    have "expr_int64 x" if "x \<in> set (drive_slots_T data d i)" for x
      using that by (auto simp: drive_slots_T_def)
    then show ?thesis using set_py_slice[of "drive_slots_T data d i" t0 w]
      unfolding list_all_iff by blast
  qed
  then show ?thesis
    using int64_parameters_D[OF assms]
    by (auto simp: tirano_driver_def tirano_starts_def no_overlap_T_def daily_driving_T_def
        break_rule_T_def cover_T_def contributors_T_def ext_T_def list_all_iff)
qed

lemma livigno_driver_int64:
  assumes "int64_parameters data"
  shows "list_all constr_int64 (livigno_driver data d j)"
proof -
  have "list_all expr_int64 (py_slice (drive_slots_L data d j) t0 w)" for t0 w
  proof -
    have "expr_int64 x" if "x \<in> set (drive_slots_L data d j)" for x
      using that by (auto simp: drive_slots_L_def)
    then show ?thesis using set_py_slice[of "drive_slots_L data d j" t0 w]
      unfolding list_all_iff by blast
  qed
  then show ?thesis
    using int64_parameters_D[OF assms]
    by (auto simp: livigno_driver_def livigno_starts_def no_overlap_L_def daily_driving_L_def
        break_rule_L_def cover_L_def contributors_L_def ext_L_def trip_caps_L_def list_all_iff)
qed

lemma day_block_int64:
  assumes "int64_parameters data"
  shows "list_all constr_int64 (day_block data d)"
  using int64_parameters_D(1,2)[OF assms] tirano_driver_int64[OF assms] livigno_driver_int64[OF assms]
  by (auto simp: day_block_def inventory_vars_def list_all_iff)

lemma lagged_int64 [simp]:
  "expr_int64 (supply_start data d t)" "expr_int64 (shuttle_start data d t)"
  "expr_int64 (resident_start data d t)" "expr_int64 (adr_start data d t)"
  "expr_int64 (refill_start d t)"
  "expr_int64 (supply_end data d t)" "expr_int64 (shuttle_end data d t)"
  "expr_int64 (refill_end data d t)" "expr_int64 (resident_refill_start data d t)"
  "expr_int64 (resident_refill_end data d t)" "expr_int64 (adr_refill_start data d t)"
  "expr_int64 (adr_supply_end data d t)"
  by (simp_all add: supply_start_def shuttle_start_def resident_start_def adr_start_def
      refill_start_def supply_end_def shuttle_end_def refill_end_def resident_refill_start_def
      resident_refill_end_def adr_refill_start_def adr_supply_end_def list_all_iff)

lemma inventory_block_int64:
  assumes "int64_parameters data"
  shows "list_all constr_int64 (inventory_block data d)"
  using int64_parameters_D[OF assms]
  by (simp add: inventory_block_def initialization_def availability_def transitions_def
      totals_def list_all_iff)

lemma weekly_int64:
  assumes "int64_parameters data"
  shows "list_all constr_int64 (adr_weekly data ws)" "list_all constr_int64 (extended_days data ws)"
    "list_all constr_int64 (weekly_drive data ws)" "list_all constr_int64 (biweekly_drive data ws)"
  using int64_parameters_D[OF assms]
  by (auto simp: adr_weekly_def extended_days_def weekly_drive_def biweekly_drive_def
      ext_day_T_def ext_day_L_def list_all_iff Let_def)

lemma objective_int64:
  assumes "int64_parameters data"
  shows "list_all constr_int64 (objective data)"
  using int64_parameters_D[OF assms]
  by (simp add: objective_def deliveries_def total_deliveries_def list_all_iff)

lemma int64_library_accepts:
  assumes "int64_parameters data"
  shows "\<forall>c \<in> set (model_constraints cal data). int64_library c = None"
proof -
  have "list_all constr_int64 (model_constraints cal data)"
    using day_block_int64[OF assms] inventory_block_int64[OF assms] weekly_int64[OF assms]
      objective_int64[OF assms]
    by (auto simp: model_constraints_def list_all_iff)
  then show ?thesis by (simp add: int64_library_def list_all_iff)
qed

lemma build_model_int64:
  assumes "0 < slot_minutes data" "0 \<le> shift_minutes data"
    and "\<forall>day \<in> set (days data). cal (date day) \<noteq> None"
    and "int64_parameters data"
  shows "build_model int64_library cal data =
           Inr \<lparr>constraints = model_constraints cal data, maximize = total_deliveries\<rparr>"
  using build_model_ok[OF assms(1,2,3) int64_library_accepts[OF assms(4)]] .

section \<open>What \<open>report\<close> returns\<close>

lemma and_then_Inr [simp]: "and_then (Inr x) f = f x"
  by (simp add: and_then_def)

lemma and_then_Inl [simp]: "and_then (Inl e) f = Inl e"
  by (simp add: and_then_def)

lemma and_then_eq_Inr: "and_then m f = Inr y \<longleftrightarrow> (\<exists>x. m = Inr x \<and> f x = Inr y)"
  by (cases m) simp_all

lemma for_each_returns: "for_each (\<lambda>x. Inr (f x)) xs = Inr (map f xs)"
  by (induction xs) simp_all

lemma for_each_eq_Inr:
  "for_each f xs = Inr ys \<Longrightarrow> (\<And>x y. x \<in> set xs \<Longrightarrow> f x = Inr y \<Longrightarrow> y = h x) \<Longrightarrow> ys = map h xs"
proof (induction xs arbitrary: ys)
  case Nil
  then show ?case by simp
next
  case (Cons x xs)
  from Cons.prems(1) obtain y ys' where y: "f x = Inr y" and r: "for_each f xs = Inr ys'" and e: "ys = y # ys'"
    by (auto simp: and_then_eq_Inr)
  from Cons.IH[OF r] Cons.prems(2) have "ys' = map h xs" by simp
  moreover from Cons.prems(2)[of x y] y have "y = h x" by simp
  ultimately show ?case using e by simp
qed

lemma read_returned: "solver_value resp x = Inr v \<Longrightarrow> v = returned resp x"
  by (simp add: returned_def)

lemma count_starts_returns:
  "count_starts (\<lambda>x. Inr (g x)) X drivers slots = Inr (count_of g X drivers slots)"
  by (simp add: count_starts_def count_of_def for_each_returns)

lemma starts_returns:
  "starts (\<lambda>x. Inr (g x)) X kx Y ky slots = Inr (starts_of g X kx Y ky slots)"
  by (simp add: starts_def starts_of_def for_each_returns)

lemma day_report_returns:
  "day_report (\<lambda>x. Inr (g x)) data d = Inr (day_values g data d)"
  by (simp add: day_report_def day_values_def count_starts_returns starts_returns for_each_returns)

lemma days_report_returns:
  "for_each (day_report (\<lambda>x. Inr (g x)) data) ds = Inr (map (day_values g data) ds)"
proof -
  have "day_report (\<lambda>x. Inr (g x)) data = (\<lambda>d. Inr (day_values g data d))"
    by (rule ext) (rule day_report_returns)
  then show ?thesis by (simp add: for_each_returns)
qed

lemma report_returns:
  "report data \<lparr>status_code = code, solver_value = (\<lambda>x. Inr (g x))\<rparr> =
     (let status = (case STATUS_MAP code of Some s \<Rightarrow> s | None \<Rightarrow> ''UNKNOWN'');
          total = (if status \<in> {''OPTIMAL'', ''FEASIBLE''} then g total_deliveries else 0)
      in Inr \<lparr>status = status, objective_deliveries = total,
              objective_liters = total * liters_per_unit data,
              days_out = map (day_values g data) (py_range 0 (num_days data))\<rparr>)"
  by (simp add: report_def days_report_returns Let_def)

lemma report_solved:
  "report data (solved code a) =
     (let status = (case STATUS_MAP code of Some s \<Rightarrow> s | None \<Rightarrow> ''UNKNOWN'');
          total = (if status \<in> {''OPTIMAL'', ''FEASIBLE''} then eval a total_deliveries else 0)
      in Inr \<lparr>status = status, objective_deliveries = total,
              objective_liters = total * liters_per_unit data,
              days_out = map (day_values (eval a) data) (py_range 0 (num_days data))\<rparr>)"
  unfolding solved_def by (rule report_returns)

lemma count_starts_eq_Inr:
  assumes "count_starts (solver_value resp) X drivers slots = Inr c"
  shows "c = count_of (returned resp) X drivers slots"
proof -
  from assms obtain vs where vs: "for_each (solver_value resp) (concat (map (\<lambda>i. map (X i) (py_range 0 slots)) (py_range 0 drivers))) = Inr vs"
    and c: "c = sum_list vs"
    by (auto simp: count_starts_def and_then_eq_Inr)
  from for_each_eq_Inr[OF vs, of "returned resp"] read_returned
  show ?thesis using c by (simp add: count_of_def)
qed

lemma starts_eq_Inr:
  assumes "starts (solver_value resp) X kx Y ky slots = Inr ss"
  shows "ss = starts_of (returned resp) X kx Y ky slots"
proof -
  let ?h = "\<lambda>t. (if returned resp (X t) \<noteq> 0 then [\<lparr>task = kx, slot = t\<rparr>] else []) @
         (if returned resp (Y t) \<noteq> 0 then [\<lparr>task = ky, slot = t\<rparr>] else [])"
  from assms obtain rs where rs: "for_each (\<lambda>t.
            and_then (solver_value resp (X t)) (\<lambda>x.
            and_then (solver_value resp (Y t)) (\<lambda>y.
              Inr ((if x \<noteq> 0 then [\<lparr>task = kx, slot = t\<rparr>] else []) @
                   (if y \<noteq> 0 then [\<lparr>task = ky, slot = t\<rparr>] else [])))))
          (py_range 0 slots) = Inr rs" and ss: "ss = concat rs"
    by (auto simp: starts_def and_then_eq_Inr)
  have "rs = map ?h (py_range 0 slots)"
    by (rule for_each_eq_Inr[OF rs]) (auto simp: and_then_eq_Inr dest!: read_returned)
  then show ?thesis using ss by (simp add: starts_of_def)
qed

lemma day_report_eq_Inr:
  assumes "day_report (solver_value resp) data d = Inr r"
  shows "r = day_values (returned resp) data d"
proof -
  have rs: "\<And>rs xs. for_each (solver_value resp) xs = Inr rs \<Longrightarrow> rs = map (returned resp) xs"
    by (rule for_each_eq_Inr) (auto dest: read_returned)
  have dT: "\<And>rs f kx u ky n xs. for_each (\<lambda>i. starts (solver_value resp) (f i) kx (u i) ky n) xs = Inr rs \<Longrightarrow>
       rs = map (\<lambda>i. starts_of (returned resp) (f i) kx (u i) ky n) xs"
    by (rule for_each_eq_Inr) (auto dest: starts_eq_Inr)
  from assms show ?thesis
    unfolding day_report_def day_values_def and_then_eq_Inr
    by (auto dest!: count_starts_eq_Inr rs dT read_returned)
qed

lemma report_eq_Inr:
  assumes "report data resp = Inr res"
  shows "status res = (case STATUS_MAP (status_code resp) of Some s \<Rightarrow> s | None \<Rightarrow> ''UNKNOWN'') \<and>
         objective_deliveries res =
           (if status res \<in> {''OPTIMAL'', ''FEASIBLE''} then returned resp total_deliveries else 0) \<and>
         objective_liters res = objective_deliveries res * liters_per_unit data \<and>
         days_out res = map (day_values (returned resp) data) (py_range 0 (num_days data))"
proof -
  have ds: "\<And>rs xs. for_each (day_report (solver_value resp) data) xs = Inr rs \<Longrightarrow>
      rs = map (day_values (returned resp) data) xs"
    by (rule for_each_eq_Inr) (auto dest: day_report_eq_Inr)
  from assms show ?thesis
    unfolding report_def Let_def and_then_eq_Inr
    by (auto dest!: ds read_returned split: if_splits)
qed


section \<open>Evaluating the model at a concrete request\<close>

lemmas param_defs =
  num_days_def liters_per_unit_def shift_minutes_def slot_minutes_def slots_per_day_def
  livigno_entry_start_minutes_def livigno_entry_end_minutes_def livigno_entry_start_slot_def
  livigno_entry_end_slot_def break_window_minutes_def break_drive_cap_minutes_def
  break_window_slots_def break_drive_cap_slots_def max_resident_trips_def max_adr_trips_def
  adr_weekly_cap_def drive_minutes_daily_def drive_minutes_extended_def
  max_extended_days_per_week_def weekly_drive_limit_minutes_def biweekly_drive_limit_minutes_def
  drivers_T_base_def drivers_L_base_def init_FT_def init_ET_def init_Tf_def init_Te_def
  total_trailers_def total_tractors_def supply_slots_def shuttle_slots_def resident_slots_def
  adr_slots_def refill_slots_def supply_end_offset_def shuttle_end_offset_def refill_end_offset_def
  resident_refill_start_offset_def resident_refill_end_offset_def adr_refill_start_offset_def
  adr_supply_end_offset_def shuttle_livigno_entry_offset_def resident_livigno_entry_offset_def
  adr_livigno_entry_offset_def get_def

lemma drive_offsets:
  "x \<in> supply_drive_offsets = (0 \<le> x \<and> x \<le> 9 \<or> 13 \<le> x \<and> x \<le> 22)"
  "x \<in> shuttle_drive_offsets = (0 \<le> x \<and> x \<le> 7 \<or> 10 \<le> x \<and> x \<le> 15)"
  "x \<in> resident_drive_offsets = (0 \<le> x \<and> x \<le> 5 \<or> 8 \<le> x \<and> x \<le> 15)"
  "x \<in> adr_drive_offsets = (0 \<le> x \<and> x \<le> 15 \<or> 19 \<le> x \<and> x \<le> 36)"
  by (auto simp add: supply_drive_offsets_def shuttle_drive_offsets_def resident_drive_offsets_def
      adr_drive_offsets_def py_range_def simp del: upto_rec_numeral)

lemmas upto_unroll = upto.simps[of 0 "numeral k"] upto.simps[of 1 "numeral k"] upto.simps[of 0 1] for k

lemmas tirano_defs = tirano_driver_def tirano_starts_def no_overlap_T_def daily_driving_T_def
  break_rule_T_def cover_T_def contributors_T_def drive_slots_T_def drive_sum_T_def ext_T_def
  S_start_def U_start_def py_range_def py_slice_def drive_offsets upto_unroll Let_def

lemmas livigno_defs = livigno_driver_def livigno_starts_def no_overlap_L_def daily_driving_L_def
  break_rule_L_def cover_L_def contributors_L_def drive_slots_L_def drive_sum_L_def ext_L_def
  trip_caps_L_def V_start_def A_start_def py_range_def py_slice_def drive_offsets upto_unroll Let_def

lemmas inventory_defs = inventory_block_def initialization_def availability_def transitions_def
  totals_def supply_start_def shuttle_start_def resident_start_def adr_start_def refill_start_def
  supply_end_def shuttle_end_def refill_end_def resident_refill_start_def resident_refill_end_def
  adr_refill_start_def adr_supply_end_def FT_at_def ET_at_def Tf_at_def Te_at_def R_start_def
  S_start_def U_start_def V_start_def A_start_def py_range_def upto_unroll Let_def

lemmas weekly_defs = adr_weekly_def extended_days_def ext_day_T_def ext_day_L_def weekly_drive_def
  biweekly_drive_def objective_def deliveries_def total_deliveries_def drive_sum_T_def drive_sum_L_def
  S_start_def U_start_def V_start_def A_start_def py_range_def upto_unroll Let_def

lemma default_params:
  assumes "settings data = Map.empty"
  shows "slot_minutes data = 15" "slots_per_day data = 48"
  "livigno_entry_start_slot data = 8" "livigno_entry_end_slot data = 50"
  "break_window_slots data = 21" "break_drive_cap_slots data = 18"
  "max_resident_trips data = 2" "max_adr_trips data = 1" "adr_weekly_cap data = 2"
  "drive_minutes_daily data = 540" "drive_minutes_extended data = 600"
  "max_extended_days_per_week data = 2" "weekly_drive_limit_minutes data = 3360"
  "biweekly_drive_limit_minutes data = 5400" "drivers_T_base data = 4" "drivers_L_base data = 1"
  "total_trailers data = init_FT data + init_ET data"
  "total_tractors data = init_Tf data + init_Te data"
  "supply_slots data = 23" "shuttle_slots data = 16" "resident_slots data = 18" "adr_slots data = 39"
  "supply_end_offset data = 23" "shuttle_end_offset data = 16" "refill_end_offset data = 2"
  "resident_refill_start_offset data = 6" "resident_refill_end_offset data = 8"
  "adr_refill_start_offset data = 6" "adr_supply_end_offset data = 29"
  "shuttle_livigno_entry_offset data = 8" "resident_livigno_entry_offset data = 16"
  "adr_livigno_entry_offset data = 37" "liters_per_unit data = 17500"
  using assms by (simp_all add: param_defs)

subsection \<open>One day, two Tirano drivers, a refill and two supplies\<close>

lemma req7_params:
  "num_days req7 = 1" "slot_minutes req7 = 15" "slots_per_day req7 = 48"
  "livigno_entry_start_slot req7 = 8" "livigno_entry_end_slot req7 = 50"
  "break_window_slots req7 = 21" "break_drive_cap_slots req7 = 18"
  "max_resident_trips req7 = 2" "max_adr_trips req7 = 1" "adr_weekly_cap req7 = 2"
  "drive_minutes_daily req7 = 540" "drive_minutes_extended req7 = 600"
  "max_extended_days_per_week req7 = 2" "weekly_drive_limit_minutes req7 = 3360"
  "biweekly_drive_limit_minutes req7 = 5400" "drivers_T_base req7 = 4" "drivers_L_base req7 = 1"
  "init_FT req7 = 1" "init_ET req7 = 1" "init_Tf req7 = 0" "init_Te req7 = 3"
  "total_trailers req7 = 1" "total_tractors req7 = 3"
  "supply_slots req7 = 23" "shuttle_slots req7 = 16" "resident_slots req7 = 18" "adr_slots req7 = 39"
  "supply_end_offset req7 = 23" "shuttle_end_offset req7 = 16" "refill_end_offset req7 = 2"
  "resident_refill_start_offset req7 = 6" "resident_refill_end_offset req7 = 8"
  "adr_refill_start_offset req7 = 6" "adr_supply_end_offset req7 = 29"
  "shuttle_livigno_entry_offset req7 = 8" "resident_livigno_entry_offset req7 = 16"
  "adr_livigno_entry_offset req7 = 37"
  by (simp_all add: param_defs req7_def)

lemma req7_avail: "available_T req7 0 i = (i < 2)" "available_L req7 0 j = (j < 0)"
  by (simp_all add: available_T_def available_L_def day_at_def req7_def)

lemma req7_T0: "list_all (holds asg7) (tirano_driver req7 0 0)"
  by (simp add: tirano_defs req7_params req7_avail)

lemma req7_T1: "list_all (holds asg7) (tirano_driver req7 0 1)"
  by (simp add: tirano_defs req7_params req7_avail)

lemma req7_T2: "list_all (holds asg7) (tirano_driver req7 0 2)"
  by (simp add: tirano_defs req7_params req7_avail)

lemma req7_T3: "list_all (holds asg7) (tirano_driver req7 0 3)"
  by (simp add: tirano_defs req7_params req7_avail)

lemma req7_L0: "list_all (holds asg7) (livigno_driver req7 0 0)"
  by (simp add: livigno_defs req7_params req7_avail)

lemma req7_vars: "list_all (holds asg7) (inventory_vars req7 0)"
  by (simp add: inventory_vars_def py_range_def upto_unroll req7_params)

lemma req7_inv: "list_all (holds asg7) (inventory_block req7 0)"
  by (simp add: inventory_defs req7_params req7_avail)

lemma req7_weeks: "weeks cal_const req7 = [((2024, 23), [0])]"
  by (simp add: weeks_def year_week_def cal_const_def py_range_def req7_params)

lemma req7_weekly:
  "list_all (holds asg7) (adr_weekly req7 [((2024, 23), [0])])"
  "list_all (holds asg7) (extended_days req7 [((2024, 23), [0])])"
  "list_all (holds asg7) (weekly_drive req7 [((2024, 23), [0])])"
  "list_all (holds asg7) (biweekly_drive req7 [((2024, 23), [0])])"
  "list_all (holds asg7) (objective req7)"
  by (simp_all add: weekly_defs req7_params req7_avail)

lemma req7_int64: "int64_parameters req7"
  by (simp add: int64_parameters_def library_integers_def int64_def param_defs req7_def)

lemma req7_build: "build_model int64_library cal_const req7 = Inr model7"
proof -
  have "shift_minutes req7 = 720"
    by (simp add: shift_minutes_def get_def req7_def)
  then show ?thesis
    using build_model_int64[of req7 cal_const] req7_int64
    by (simp add: model7_def req7_params cal_const_def)
qed

lemma req7_feasible: "feasible asg7 model7"
  by (simp add: feasible_def model7_def model_constraints_def day_block_def py_range_def upto_unroll
      req7_params req7_weeks req7_weekly req7_T0 req7_T1 req7_T2 req7_T3 req7_L0 req7_vars req7_inv)

lemma req7_driving:
  "filter (driving_T asg7 req7 0 0) (py_range 2 23) =
     [2, 3, 4, 5, 6, 7, 8, 9, 10, 11, 15, 16, 17, 18, 19, 20, 21, 22]"
  by (simp add: driving_T_def started_covering_def S_start_def U_start_def py_range_def upto_unroll
      drive_offsets req7_params req7_avail Let_def)

lemma req7_driving_L: "filter (driving_L asg7 req7 0 0) (py_range 2 23) = []"
  by (simp add: driving_L_def started_covering_def V_start_def A_start_def py_range_def upto_unroll
      drive_offsets req7_params req7_avail Let_def)

subsection \<open>One day without drivers\<close>

lemma req5_settings: "settings req5 = Map.empty"
  by (simp add: req5_def)

lemma req5_params:
  "num_days req5 = 1" "init_FT req5 = 1" "init_ET req5 = 0" "init_Tf req5 = 0" "init_Te req5 = 1"
  "available_T req5 0 i = (i < 0)" "available_L req5 0 j = (j < 0)"
  "D_T (day_at req5 0) = 0" "D_L (day_at req5 0) = 0"
  by (simp_all add: num_days_def init_FT_def init_ET_def init_Tf_def init_Te_def available_T_def
      available_L_def day_at_def req5_def)

lemmas req5_eval = default_params[OF req5_settings] req5_params

lemma req5_weeks: "weeks cal_const req5 = [((2024, 23), [0])]"
  by (simp add: weeks_def year_week_def cal_const_def py_range_def req5_eval)

lemma req5_int64: "int64_parameters req5"
  by (simp add: int64_parameters_def library_integers_def int64_def param_defs req5_def)

lemma req5_build: "build_model int64_library cal_const req5 = Inr model5"
  using build_model_int64[of req5 cal_const] req5_int64
  by (simp add: model5_def req5_eval cal_const_def shift_minutes_def get_def req5_settings)

lemma req5_drivers:
  "list_all (holds asg5) (tirano_driver req5 0 0)"
  "list_all (holds asg5) (tirano_driver req5 0 1)"
  "list_all (holds asg5) (tirano_driver req5 0 2)"
  "list_all (holds asg5) (tirano_driver req5 0 3)"
  "list_all (holds asg5_idle) (tirano_driver req5 0 0)"
  "list_all (holds asg5_idle) (tirano_driver req5 0 1)"
  "list_all (holds asg5_idle) (tirano_driver req5 0 2)"
  "list_all (holds asg5_idle) (tirano_driver req5 0 3)"
  by (simp_all add: tirano_defs req5_eval)

lemma req5_livigno:
  "list_all (holds asg5) (livigno_driver req5 0 0)"
  "list_all (holds asg5_idle) (livigno_driver req5 0 0)"
  by (simp_all add: livigno_defs req5_eval)

lemma req5_inventory:
  "list_all (holds asg5) (inventory_vars req5 0)"
  "list_all (holds asg5_idle) (inventory_vars req5 0)"
  "list_all (holds asg5) (inventory_block req5 0)"
  "list_all (holds asg5_idle) (inventory_block req5 0)"
  by (simp_all add: inventory_vars_def inventory_defs req5_eval)

lemma req5_weekly:
  "list_all (holds asg5) (adr_weekly req5 [((2024, 23), [0])])"
  "list_all (holds asg5) (extended_days req5 [((2024, 23), [0])])"
  "list_all (holds asg5) (weekly_drive req5 [((2024, 23), [0])])"
  "list_all (holds asg5) (biweekly_drive req5 [((2024, 23), [0])])"
  "list_all (holds asg5) (objective req5)"
  "list_all (holds asg5_idle) (adr_weekly req5 [((2024, 23), [0])])"
  "list_all (holds asg5_idle) (extended_days req5 [((2024, 23), [0])])"
  "list_all (holds asg5_idle) (weekly_drive req5 [((2024, 23), [0])])"
  "list_all (holds asg5_idle) (biweekly_drive req5 [((2024, 23), [0])])"
  "list_all (holds asg5_idle) (objective req5)"
  by (simp_all add: weekly_defs req5_eval)

lemma req5_feasible: "feasible asg5 model5"
  by (simp add: feasible_def model5_def model_constraints_def day_block_def py_range_def upto_unroll
      req5_eval req5_weeks req5_weekly req5_drivers req5_livigno req5_inventory)

lemma req5_feasible_idle: "feasible asg5_idle model5"
  by (simp add: feasible_def model5_def model_constraints_def day_block_def py_range_def upto_unroll
      req5_eval req5_weeks req5_weekly req5_drivers req5_livigno req5_inventory)

subsection \<open>One supply on an extended day\<close>

lemma req9_params:
  "num_days req9 = 1" "slot_minutes req9 = 15" "slots_per_day req9 = 48"
  "livigno_entry_start_slot req9 = 8" "livigno_entry_end_slot req9 = 50"
  "break_window_slots req9 = 21" "break_drive_cap_slots req9 = 18"
  "max_resident_trips req9 = 2" "max_adr_trips req9 = 1" "adr_weekly_cap req9 = 2"
  "drive_minutes_daily req9 = 200" "drive_minutes_extended req9 = 600"
  "max_extended_days_per_week req9 = 2" "weekly_drive_limit_minutes req9 = 3360"
  "biweekly_drive_limit_minutes req9 = 5400" "drivers_T_base req9 = 4" "drivers_L_base req9 = 1"
  "init_FT req9 = 0" "init_ET req9 = 1" "init_Tf req9 = 1" "init_Te req9 = 1"
  "total_trailers req9 = 1" "total_tractors req9 = 2"
  "supply_slots req9 = 23" "shuttle_slots req9 = 16" "resident_slots req9 = 18" "adr_slots req9 = 39"
  "supply_end_offset req9 = 23" "shuttle_end_offset req9 = 16" "refill_end_offset req9 = 2"
  "resident_refill_start_offset req9 = 6" "resident_refill_end_offset req9 = 8"
  "adr_refill_start_offset req9 = 6" "adr_supply_end_offset req9 = 29"
  "shuttle_livigno_entry_offset req9 = 8" "resident_livigno_entry_offset req9 = 16"
  "adr_livigno_entry_offset req9 = 37" "shift_minutes req9 = 720"
  "available_T req9 0 i = (i < 1)" "available_L req9 0 j = (j < 0)"
  by (simp_all add: param_defs req9_def available_T_def available_L_def day_at_def)

lemma req9_weeks: "weeks cal_const req9 = [((2024, 23), [0])]"
  by (simp add: weeks_def year_week_def cal_const_def py_range_def req9_params)

lemma req9_int64: "int64_parameters req9"
  by (simp add: int64_parameters_def library_integers_def int64_def param_defs req9_def)

lemma req9_build: "build_model int64_library cal_const req9 = Inr model9"
  using build_model_int64[of req9 cal_const] req9_int64 by (simp add: model9_def req9_params cal_const_def)

lemma req9_drivers:
  "list_all (holds asg9) (tirano_driver req9 0 0)"
  "list_all (holds asg9) (tirano_driver req9 0 1)"
  "list_all (holds asg9) (tirano_driver req9 0 2)"
  "list_all (holds asg9) (tirano_driver req9 0 3)"
  by (simp_all add: tirano_defs req9_params)

lemma req9_livigno: "list_all (holds asg9) (livigno_driver req9 0 0)"
  by (simp add: livigno_defs req9_params)

lemma req9_inventory:
  "list_all (holds asg9) (inventory_vars req9 0)"
  "list_all (holds asg9) (inventory_block req9 0)"
  by (simp_all add: inventory_vars_def inventory_defs req9_params)

lemma req9_weekly:
  "list_all (holds asg9) (adr_weekly req9 [((2024, 23), [0])])"
  "list_all (holds asg9) (extended_days req9 [((2024, 23), [0])])"
  "list_all (holds asg9) (weekly_drive req9 [((2024, 23), [0])])"
  "list_all (holds asg9) (biweekly_drive req9 [((2024, 23), [0])])"
  "list_all (holds asg9) (objective req9)"
  by (simp_all add: weekly_defs req9_params)

lemma req9_feasible: "feasible asg9 model9"
  by (simp add: feasible_def model9_def model_constraints_def day_block_def py_range_def upto_unroll
      req9_params req9_weeks req9_weekly req9_drivers req9_livigno req9_inventory)

lemma req9_driving: "driving_minutes_T asg9 req9 0 0 = 300"
  by (simp add: driving_minutes_T_def S_start_def U_start_def py_range_def upto_unroll req9_params Let_def)

lemma req9_driving_L: "driving_minutes_L asg9 req9 0 0 = 0"
  by (simp add: driving_minutes_L_def V_start_def A_start_def py_range_def upto_unroll req9_params Let_def)


subsection \<open>One day without trailers\<close>

lemma req4_settings: "settings req4 = Map.empty"
  by (simp add: req4_def)

lemma req4_params:
  "num_days req4 = 1" "init_FT req4 = 0" "init_ET req4 = 0" "init_Tf req4 = 1" "init_Te req4 = 0"
  "available_T req4 0 i = (i < 1)" "available_L req4 0 j = (j < 1)"
  by (simp_all add: num_days_def init_FT_def init_ET_def init_Tf_def init_Te_def available_T_def
      available_L_def day_at_def req4_def)

lemmas req4_eval = default_params[OF req4_settings] req4_params

lemma req4_weeks: "weeks cal_const req4 = [((2024, 23), [0])]"
  by (simp add: weeks_def year_week_def cal_const_def py_range_def req4_eval)

lemma req4_int64: "int64_parameters req4"
  by (simp add: int64_parameters_def library_integers_def int64_def param_defs req4_def)

lemma req4_build: "build_model int64_library cal_const req4 = Inr model4"
  using build_model_int64[of req4 cal_const] req4_int64
  by (simp add: model4_def req4_eval cal_const_def shift_minutes_def get_def req4_settings)

lemma req4_drivers:
  "list_all (holds asg4) (tirano_driver req4 0 0)"
  "list_all (holds asg4) (tirano_driver req4 0 1)"
  "list_all (holds asg4) (tirano_driver req4 0 2)"
  "list_all (holds asg4) (tirano_driver req4 0 3)"
  by (simp_all add: tirano_defs req4_eval)

lemma req4_livigno: "list_all (holds asg4) (livigno_driver req4 0 0)"
  by (simp add: livigno_defs req4_eval)

lemma req4_inventory:
  "list_all (holds asg4) (inventory_vars req4 0)"
  "list_all (holds asg4) (inventory_block req4 0)"
  by (simp_all add: inventory_vars_def inventory_defs req4_eval)

lemma req4_weekly:
  "list_all (holds asg4) (adr_weekly req4 [((2024, 23), [0])])"
  "list_all (holds asg4) (extended_days req4 [((2024, 23), [0])])"
  "list_all (holds asg4) (weekly_drive req4 [((2024, 23), [0])])"
  "list_all (holds asg4) (biweekly_drive req4 [((2024, 23), [0])])"
  "list_all (holds asg4) (objective req4)"
  by (simp_all add: weekly_defs req4_eval)

lemma req4_feasible: "feasible asg4 model4"
  by (simp add: feasible_def model4_def model_constraints_def day_block_def py_range_def upto_unroll
      req4_eval req4_weeks req4_weekly req4_drivers req4_livigno req4_inventory)

lemma req4_idle_settings: "settings req4_idle = Map.empty"
  by (simp add: req4_idle_def)

lemma req4_idle_params:
  "num_days req4_idle = 1" "init_FT req4_idle = 0" "init_ET req4_idle = 0"
  "init_Tf req4_idle = 0" "init_Te req4_idle = 1"
  "available_T req4_idle 0 i = (i < 1)" "available_L req4_idle 0 j = (j < 1)"
  by (simp_all add: num_days_def init_FT_def init_ET_def init_Tf_def init_Te_def available_T_def
      available_L_def day_at_def req4_idle_def)

lemmas req4_idle_eval = default_params[OF req4_idle_settings] req4_idle_params

lemma req4_idle_weeks: "weeks cal_const req4_idle = [((2024, 23), [0])]"
  by (simp add: weeks_def year_week_def cal_const_def py_range_def req4_idle_eval)

lemma req4_idle_int64: "int64_parameters req4_idle"
  by (simp add: int64_parameters_def library_integers_def int64_def param_defs req4_idle_def)

lemma req4_idle_build: "build_model int64_library cal_const req4_idle = Inr model4_idle"
  using build_model_int64[of req4_idle cal_const] req4_idle_int64
  by (simp add: model4_idle_def req4_idle_eval cal_const_def shift_minutes_def get_def
      req4_idle_settings)

lemma req4_idle_drivers:
  "list_all (holds asg4_idle) (tirano_driver req4_idle 0 0)"
  "list_all (holds asg4_idle) (tirano_driver req4_idle 0 1)"
  "list_all (holds asg4_idle) (tirano_driver req4_idle 0 2)"
  "list_all (holds asg4_idle) (tirano_driver req4_idle 0 3)"
  by (simp_all add: tirano_defs req4_idle_eval)

lemma req4_idle_livigno: "list_all (holds asg4_idle) (livigno_driver req4_idle 0 0)"
  by (simp add: livigno_defs req4_idle_eval)

lemma req4_idle_inventory:
  "list_all (holds asg4_idle) (inventory_vars req4_idle 0)"
  "list_all (holds asg4_idle) (inventory_block req4_idle 0)"
  by (simp_all add: inventory_vars_def inventory_defs req4_idle_eval)

lemma req4_idle_weekly:
  "list_all (holds asg4_idle) (adr_weekly req4_idle [((2024, 23), [0])])"
  "list_all (holds asg4_idle) (extended_days req4_idle [((2024, 23), [0])])"
  "list_all (holds asg4_idle) (weekly_drive req4_idle [((2024, 23), [0])])"
  "list_all (holds asg4_idle) (biweekly_drive req4_idle [((2024, 23), [0])])"
  "list_all (holds asg4_idle) (objective req4_idle)"
  by (simp_all add: weekly_defs req4_idle_eval)

lemma req4_idle_feasible: "feasible asg4_idle model4_idle"
  by (simp add: feasible_def model4_idle_def model_constraints_def day_block_def py_range_def
      upto_unroll req4_idle_eval req4_idle_weeks req4_idle_weekly req4_idle_drivers
      req4_idle_livigno req4_idle_inventory)


section \<open>C1: inventory conservation\<close>

lemma transitions_general:
  assumes m: "build_model lib cal data = Inr m" and f: "feasible a m"
    and d: "0 \<le> d" "d < num_days data" and t: "0 \<le> t" "t < slots_per_day data"
  shows "a (FT_var d (t + 1)) = a (FT_var d t) + lagged (s_sum a data d) t (supply_end_offset data)
           + lagged (a_sum a data d) t (adr_supply_end_offset data) - r_val a d t
           - lagged (v_sum a data d) t (resident_refill_start_offset data)"
    and "a (ET_var d (t + 1)) = a (ET_var d t) - s_sum a data d t
           + lagged (r_val a d) t (refill_end_offset data)
           + lagged (v_sum a data d) t (resident_refill_end_offset data)
           - lagged (a_sum a data d) t (adr_refill_start_offset data)"
    and "a (Tf_var d (t + 1)) = a (Tf_var d t) + lagged (s_sum a data d) t (supply_end_offset data)
           + lagged (r_val a d) t (refill_end_offset data) - u_sum a data d t"
    and "a (Te_var d (t + 1)) = a (Te_var d t) - s_sum a data d t - r_val a d t
           + lagged (u_sum a data d) t (shuttle_end_offset data)"
proof -
  have "\<forall>c \<in> set (transitions data d t). holds a c"
    using feasible_holds[OF m f] inventory_block_in_model[OF d] slot_in_inventory_block[OF t]
    by auto
  then show "a (FT_var d (t + 1)) = a (FT_var d t) + lagged (s_sum a data d) t (supply_end_offset data)
           + lagged (a_sum a data d) t (adr_supply_end_offset data) - r_val a d t
           - lagged (v_sum a data d) t (resident_refill_start_offset data)"
    and "a (ET_var d (t + 1)) = a (ET_var d t) - s_sum a data d t
           + lagged (r_val a d) t (refill_end_offset data)
           + lagged (v_sum a data d) t (resident_refill_end_offset data)
           - lagged (a_sum a data d) t (adr_refill_start_offset data)"
    and "a (Tf_var d (t + 1)) = a (Tf_var d t) + lagged (s_sum a data d) t (supply_end_offset data)
           + lagged (r_val a d) t (refill_end_offset data) - u_sum a data d t"
    and "a (Te_var d (t + 1)) = a (Te_var d t) - s_sum a data d t - r_val a d t
           + lagged (u_sum a data d) t (shuttle_end_offset data)"
    by (simp_all add: transitions_def eval_starts eval_lagged eval_inventory)
qed

lemma offsets_15:
  assumes "slot_minutes data = 15"
  shows "supply_end_offset data = 23" "shuttle_end_offset data = 16" "refill_end_offset data = 2"
    "resident_refill_start_offset data = 6" "resident_refill_end_offset data = 8"
    "adr_refill_start_offset data = 6" "adr_supply_end_offset data = 29"
  using assms by (simp_all add: supply_end_offset_def shuttle_end_offset_def refill_end_offset_def
      resident_refill_start_offset_def resident_refill_end_offset_def adr_refill_start_offset_def
      adr_supply_end_offset_def supply_slots_def shuttle_slots_def refill_slots_def)

text \<open>
  C1. In every feasible assignment of the constructed model (which is what a solution
  reported with status OPTIMAL or FEASIBLE is), for every day \<open>d\<close> and slot \<open>t\<close>, the four
  inventory values at \<open>t + 1\<close> are given exactly by the transition equations of the spec's
  section 4.4; under \<open>slot_minutes = 15\<close> the lags are 23 (supply end), 16 (shuttle end),
  2 (refill end), 6 and 8 (resident), 6 and 29 (ADR), and a lagged term is 0 when its
  shifted index is negative.
\<close>

theorem inventory_transitions:
  assumes "build_model lib cal data = Inr m" and "feasible a m" and "slot_minutes data = 15"
    and "0 \<le> d" and "d < num_days data" and "0 \<le> t" and "t < slots_per_day data"
  shows "a (FT_var d (t + 1)) =
           a (FT_var d t) + lagged (s_sum a data d) t 23 + lagged (a_sum a data d) t 29
             - r_val a d t - lagged (v_sum a data d) t 6 \<and>
         a (ET_var d (t + 1)) =
           a (ET_var d t) - s_sum a data d t + lagged (r_val a d) t 2
             + lagged (v_sum a data d) t 8 - lagged (a_sum a data d) t 6 \<and>
         a (Tf_var d (t + 1)) =
           a (Tf_var d t) + lagged (s_sum a data d) t 23 + lagged (r_val a d) t 2
             - u_sum a data d t \<and>
         a (Te_var d (t + 1)) =
           a (Te_var d t) - s_sum a data d t - r_val a d t + lagged (u_sum a data d) t 16"
  using transitions_general[OF assms(1,2,4,5,6,7)] offsets_15[OF assms(3)] by simp

text \<open>
  Slot 25 of the example: the supply started at slot 2 ends, so \<open>FT\<close> goes from 0 to 1.
\<close>

theorem inventory_transitions_witness:
  "build_model int64_library cal_const req7 = Inr model7 \<and> feasible asg7 model7 \<and> slot_minutes req7 = 15 \<and>
   asg7 (FT_var 0 26) = asg7 (FT_var 0 25) + lagged (s_sum asg7 req7 0) 25 23
      + lagged (a_sum asg7 req7 0) 25 29 - r_val asg7 0 25 - lagged (v_sum asg7 req7 0) 25 6 \<and>
   lagged (s_sum asg7 req7 0) 25 23 = 1 \<and> asg7 (FT_var 0 26) = 1 \<and> asg7 (FT_var 0 25) = 0"
proof -
  have "lagged (s_sum asg7 req7 0) 25 23 = 1"
    by (simp add: lagged_def s_sum_def S_start_def py_range_def upto_unroll req7_params req7_avail)
  then show ?thesis
    using inventory_transitions[OF req7_build req7_feasible, of 0 25]
    by (simp add: req7_build req7_feasible req7_params)
qed

section \<open>C2: statuses other than OPTIMAL and FEASIBLE\<close>

lemma req2_params:
  "slot_minutes req2 = 15" "shift_minutes req2 = 720" "slots_per_day req2 = 48" "num_days req2 = 1"
  "init_FT req2 = 2" "total_trailers req2 = 1" "drivers_T_base req2 = 4"
  "liters_per_unit req2 = 17500"
  by (simp_all add: param_defs req2_def)

lemma req2_int64: "int64_parameters req2"
  by (simp add: int64_parameters_def library_integers_def int64_def param_defs req2_def)

lemma req2_build: "build_model int64_library cal_const req2 = Inr model2"
  using build_model_int64[of req2 cal_const] req2_int64
  by (simp add: req2_params cal_const_def model2_def)

lemma req2_infeasible: "\<not> feasible a model2"
proof
  assume f: "feasible a model2"
  from first_boundary[OF req2_build f] inventory_domain[OF req2_build f, of 0 0]
  show False by (simp add: req2_params)
qed

lemma report_no_values: "report req2 (no_values m) = Inl SolverValueError"
proof -
  have "py_range 0 (num_days req2) = [0]"
    by (simp add: req2_params py_range_def)
  moreover have "day_report (\<lambda>x. Inl SolverValueError) req2 0 = Inl SolverValueError"
  proof -
    have "for_each (\<lambda>x. Inl SolverValueError :: error + int) (x # xs) = Inl SolverValueError" for x :: expr and xs
      by simp
    moreover have "concat (map (\<lambda>i. map (S_start req2 0 i) (py_range 0 48)) (py_range 0 4)) =
        S_start req2 0 0 0 #
        tl (concat (map (\<lambda>i. map (S_start req2 0 i) (py_range 0 48)) (py_range 0 4)))"
      by (simp add: py_range_def upto_rec1)
    ultimately have "count_starts (\<lambda>x. Inl SolverValueError) (S_start req2 0) 4 48 = Inl SolverValueError"
      unfolding count_starts_def by (metis and_then_Inl)
    then show ?thesis by (simp add: day_report_def req2_params)
  qed
  ultimately show ?thesis by (simp add: report_def no_values_def)
qed

lemma starts_of_first:
  assumes "0 < slots" "g (X 0) \<noteq> 0"
  shows "starts_of g X kx Y ky slots \<noteq> []"
proof -
  have "py_range 0 slots = 0 # py_range 1 slots"
    using assms(1) by (simp add: py_range_def upto_rec1)
  then show ?thesis using assms(2) by (simp add: starts_of_def)
qed

lemma req2_stale_starts: "drivers_T (day_values (\<lambda>x. 1) req2 0) ! 0 \<noteq> []"
proof -
  have "py_range 0 4 = 0 # py_range 1 4"
    by (simp add: py_range_def upto_rec1)
  then show ?thesis
    by (simp add: day_values_def req2_params starts_of_first)
qed

text \<open>
  C2, as the code has it. \<open>solve\<close> guards only the objective by the status (line 505);
  the start variables and the inventories of every day are read before that, whatever
  the status. So whatever a read gives when the solver holds no solution, what \<open>solve\<close>
  does is not what the claim says. Either a read raises, and \<open>solve\<close> has no result. Or
  every read returns, and the result carries the status string, the objective 0 for a
  status other than \<open>OPTIMAL\<close> and \<open>FEASIBLE\<close>, and days whose counts, starts and
  inventories are made of the numbers that were read: no list of starts is emptied
  because of the status.
\<close>

theorem reads_ignore_status:
  assumes "solve lib cal solver data = Inr res"
  shows "\<exists>m. build_model lib cal data = Inr m \<and>
           status res = (case STATUS_MAP (status_code (solver m)) of Some s \<Rightarrow> s | None \<Rightarrow> ''UNKNOWN'') \<and>
           objective_deliveries res =
             (if status res \<in> {''OPTIMAL'', ''FEASIBLE''} then returned (solver m) total_deliveries else 0) \<and>
           objective_liters res = objective_deliveries res * liters_per_unit data \<and>
           days_out res = map (day_values (returned (solver m)) data) (py_range 0 (num_days data))"
proof -
  from assms obtain m where m: "build_model lib cal data = Inr m" and r: "report data (solver m) = Inr res"
    by (auto simp: solve_def split: sum.splits)
  from report_eq_Inr[OF r] m show ?thesis by blast
qed

text \<open>
  The failing input: \<open>req2\<close> is well formed, its model has no feasible assignment, and
  the solver answers \<open>INFEASIBLE\<close>. When the reads raise, \<open>solve\<close> has no result; when
  they return a number, the result is \<open>INFEASIBLE\<close> with objective 0, and the first
  Tirano driver's list of starts is not empty.
\<close>

theorem reads_ignore_status_witness:
  "(\<nexists>a. feasible a model2) \<and> build_model int64_library cal_const req2 = Inr model2 \<and>
   solve int64_library cal_const no_values req2 = Inl SolverValueError \<and>
   (\<exists>res. solve int64_library cal_const stale_values req2 = Inr res \<and>
      status res = ''INFEASIBLE'' \<and> objective_deliveries res = 0 \<and> objective_liters res = 0 \<and>
      days_out res = [day_values (\<lambda>x. 1) req2 0] \<and>
      drivers_T (hd (days_out res)) ! 0 \<noteq> [])"
proof -
  have raises: "solve int64_library cal_const no_values req2 = Inl SolverValueError"
    by (simp add: solve_def req2_build report_no_values)
  have "report req2 (stale_values model2) =
      Inr \<lparr>status = ''INFEASIBLE'', objective_deliveries = 0, objective_liters = 0,
           days_out = map (day_values (\<lambda>x. 1) req2) (py_range 0 (num_days req2))\<rparr>"
    by (simp add: stale_values_def report_returns STATUS_MAP_def)
  then obtain res where res: "solve int64_library cal_const stale_values req2 = Inr res"
    by (simp add: solve_def req2_build)
  have stale: "returned (stale_values m) = (\<lambda>x. 1)" "status_code (stale_values m) = INFEASIBLE" for m
    by (rule ext) (simp_all add: returned_def stale_values_def)
  from reads_ignore_status[OF res] req2_build
  have "status res = ''INFEASIBLE'' \<and> objective_deliveries res = 0 \<and> objective_liters res = 0 \<and>
      days_out res = [day_values (\<lambda>x. 1) req2 0]"
    by (auto simp: stale STATUS_MAP_def req2_params py_range_def)
  then show ?thesis
    using raises res req2_infeasible req2_build req2_stale_starts by auto
qed


section \<open>C3: slot lengths that do not divide the durations\<close>

lemma rounded_down_div: "0 < k \<Longrightarrow> rounded_down (m div k) m k"
proof -
  assume k: "0 < k"
  have e: "m div k * k + m mod k = m" by simp
  have "0 \<le> m mod k" "m mod k < k" using k by simp_all
  with e have "m div k * k \<le> m" "m < m div k * k + k" by linarith+
  then show ?thesis
    unfolding rounded_down_def by (simp add: distrib_right)
qed

lemma slots_rounded_down:
  assumes "0 < slot_minutes data"
  shows "rounded_down (supply_slots data) 345 (slot_minutes data) \<and>
      rounded_down (shuttle_slots data) 240 (slot_minutes data) \<and>
      rounded_down (resident_slots data) 270 (slot_minutes data) \<and>
      rounded_down (adr_slots data) 585 (slot_minutes data) \<and>
      rounded_down (refill_slots data) 30 (slot_minutes data) \<and>
      rounded_down (shuttle_livigno_entry_offset data) 120 (slot_minutes data) \<and>
      rounded_down (resident_livigno_entry_offset data) 240 (slot_minutes data) \<and>
      rounded_down (adr_livigno_entry_offset data) 555 (slot_minutes data) \<and>
      rounded_down (resident_refill_start_offset data) 90 (slot_minutes data) \<and>
      rounded_down (resident_refill_end_offset data) 120 (slot_minutes data) \<and>
      rounded_down (adr_refill_start_offset data) 90 (slot_minutes data)"
  using rounded_down_div[OF assms]
  by (simp add: supply_slots_def shuttle_slots_def resident_slots_def
      adr_slots_def refill_slots_def shuttle_livigno_entry_offset_def
      resident_livigno_entry_offset_def adr_livigno_entry_offset_def
      resident_refill_start_offset_def resident_refill_end_offset_def adr_refill_start_offset_def)

text \<open>
  C3, as the code has it. \<open>solve\<close> checks no divisibility: whether \<open>slot_minutes\<close>
  divides a duration decides nothing. A slot length of zero fails with a division by
  zero on line 40. For every positive slot length, with a non-negative shift, dates the
  calendar accepts and variables and constraints the solver library accepts (OR-Tools
  refuses integers outside the 64-bit range), the model is constructed, each task
  duration, entry anchor and effect offset rounded down to whole slots, whether or not
  \<open>slot_minutes\<close> divides it.
\<close>

theorem slot_counts_rounded_down:
  "(slot_minutes data = 0 \<longrightarrow> build_model lib cal data = Inl ZeroDivisionError) \<and>
   (0 < slot_minutes data \<and> 0 \<le> shift_minutes data \<and>
    (\<forall>day \<in> set (days data). cal (date day) \<noteq> None) \<and>
    (\<forall>c \<in> set (model_constraints cal data). lib c = None) \<longrightarrow>
      build_model lib cal data =
        Inr \<lparr>constraints = model_constraints cal data, maximize = total_deliveries\<rparr> \<and>
      rounded_down (supply_slots data) 345 (slot_minutes data) \<and>
      rounded_down (shuttle_slots data) 240 (slot_minutes data) \<and>
      rounded_down (resident_slots data) 270 (slot_minutes data) \<and>
      rounded_down (adr_slots data) 585 (slot_minutes data) \<and>
      rounded_down (refill_slots data) 30 (slot_minutes data) \<and>
      rounded_down (shuttle_livigno_entry_offset data) 120 (slot_minutes data) \<and>
      rounded_down (resident_livigno_entry_offset data) 240 (slot_minutes data) \<and>
      rounded_down (adr_livigno_entry_offset data) 555 (slot_minutes data) \<and>
      rounded_down (resident_refill_start_offset data) 90 (slot_minutes data) \<and>
      rounded_down (resident_refill_end_offset data) 120 (slot_minutes data) \<and>
      rounded_down (adr_refill_start_offset data) 90 (slot_minutes data))"
  using build_model_ok[of data cal lib] slots_rounded_down[of data]
  by (simp add: build_model_def)

lemma req3_params:
  "slot_minutes req3 = 20" "shift_minutes req3 = 720" "supply_slots req3 = 17"
  "slot_minutes req3_zero = 0"
  by (simp_all add: param_defs req3_def req3_zero_def)

lemma req3_int64: "int64_parameters req3"
  by (simp add: int64_parameters_def library_integers_def int64_def param_defs req3_def)

text \<open>
  At a slot length of zero, and at a slot length of 20 minutes with the library that
  refuses what is outside the 64-bit range.
\<close>

theorem slot_counts_rounded_down_witness:
  "slot_minutes req3_zero = 0 \<and> build_model int64_library cal_const req3_zero = Inl ZeroDivisionError \<and>
   0 < slot_minutes req3 \<and> 0 \<le> shift_minutes req3 \<and>
   list_all (\<lambda>day. cal_const (date day) \<noteq> None) (days req3) \<and>
   list_all (\<lambda>c. int64_library c = None) (model_constraints cal_const req3) \<and>
   build_model int64_library cal_const req3 =
     Inr \<lparr>constraints = model_constraints cal_const req3, maximize = total_deliveries\<rparr> \<and>
   rounded_down (supply_slots req3) 345 (slot_minutes req3) \<and> supply_slots req3 = 17"
  using slot_counts_rounded_down[where data = req3_zero and lib = int64_library and cal = cal_const]
    slot_counts_rounded_down[where data = req3 and lib = int64_library and cal = cal_const]
    int64_library_accepts[OF req3_int64, of cal_const]
  by (simp add: req3_params cal_const_def list_all_iff)

text \<open>
  With \<open>slot_minutes = 20\<close> the supply duration of 345 minutes is no multiple of the slot
  length; the configuration is accepted and the supply task is given 17 slots.
\<close>

theorem non_integral_slots_accepted_counterexample:
  "345 mod slot_minutes req3 \<noteq> 0 \<and>
   build_model int64_library cal_const req3 =
     Inr \<lparr>constraints = model_constraints cal_const req3, maximize = total_deliveries\<rparr> \<and>
   supply_slots req3 = 17"
  using build_model_int64[of req3 cal_const] req3_int64
  by (simp add: req3_params cal_const_def)


section \<open>C4: a depot without trailers\<close>

lemma no_trailers_one_day:
  assumes m: "build_model lib cal data = Inr m" and f: "feasible a m"
    and dflt: "settings data = Map.empty" and one: "length (days data) = 1"
    and ft: "FT (initial_state data) = 0" and et: "ET (initial_state data) = 0"
  shows "0 \<le> a total_deliveries_var \<and> a total_deliveries_var \<le> Tf (initial_state data)"
proof -
  note dp = default_params[OF dflt]
  have spd: "slots_per_day data = 48" and sm: "slot_minutes data = 15" by (rule dp)+
  have n: "num_days data = 1" using one by (simp add: num_days_def)
  have d: "(0::int) \<le> 0" "0 < num_days data" using n by simp_all
  have tt: "total_trailers data = 0" using dp(17) ft et by (simp add: init_FT_def init_ET_def)
  have inv0: "a (FT_var 0 t) = 0 \<and> a (ET_var 0 t) = 0" if "0 \<le> t" "t \<le> 48" for t
    using inventory_domain[OF m f d, of t] that tt spd by simp
  have r0: "r_val a 0 t = 0" if "0 \<le> t" "t < 48" for t
    using refill_domain[OF m f d, of t] that tt spd by (simp add: r_val_def R_start_def)
  have s0: "s_sum a data 0 t = 0" if "0 \<le> t" "t < 48" for t
  proof -
    have "0 \<le> s_sum a data 0 t" using s_sum_nonneg[OF m f d, of t] that spd by simp
    moreover have "s_sum a data 0 t \<le> 0"
      using availability_general[OF m f d, of t] inv0[of t] that spd by simp
    ultimately show ?thesis by simp
  qed
  have lag_s: "lagged (s_sum a data 0) t k = 0" if "0 \<le> t" "t < 48" "0 \<le> k" for t k
    using s0[of "t - k"] that by (simp add: lagged_def)
  have lag_r: "lagged (r_val a 0) t k = 0" if "0 \<le> t" "t < 48" "0 \<le> k" for t k
    using r0[of "t - k"] that by (simp add: lagged_def)
  note trans = transitions_general[OF m f d]
  have eq1: "lagged (a_sum a data 0) t 29 = lagged (v_sum a data 0) t 6" if "0 \<le> t" "t < 48" for t
    using trans(1)[of t] inv0[of t] inv0[of "t + 1"] lag_s[of t 23] r0[of t] that spd
    by (simp add: dp)
  have eq2: "lagged (v_sum a data 0) t 8 = lagged (a_sum a data 0) t 6" if "0 \<le> t" "t < 48" for t
    using trans(2)[of t] inv0[of t] inv0[of "t + 1"] s0[of t] lag_r[of t 2] that spd
    by (simp add: dp)
  have a_hi: "a_sum a data 0 k = 0" if "10 \<le> k" for k
    unfolding a_sum_def
    by (rule sum_list_zero) (use that in \<open>simp add: A_start_def dp\<close>)
  have v_hi: "v_sum a data 0 k = 0" if "31 \<le> k" for k
    unfolding v_sum_def
    by (rule sum_list_zero) (use that in \<open>simp add: V_start_def dp\<close>)
  have v_lo: "v_sum a data 0 k = 0" if "0 \<le> k" "k \<le> 22" for k
    using eq1[of "k + 6"] that by (simp add: lagged_def)
  have a_lo: "a_sum a data 0 k = 0" if "0 \<le> k" "k \<le> 9" for k
    using eq2[of "k + 6"] v_lo[of "k - 2"] that by (simp add: lagged_def split: if_splits)
  have a0: "a_sum a data 0 k = 0" if "0 \<le> k" for k
    using a_lo[of k] a_hi[of k] that by (cases "k \<le> 9") simp_all
  have v_mid: "v_sum a data 0 k = 0" if "23 \<le> k" "k \<le> 30" for k
    using eq1[of "k + 6"] a0[of "k - 23"] that by (simp add: lagged_def)
  have v0: "v_sum a data 0 k = 0" if "0 \<le> k" for k
  proof -
    consider "k \<le> 22" | "23 \<le> k \<and> k \<le> 30" | "31 \<le> k" by linarith
    then show ?thesis using v_lo[of k] v_mid[of k] v_hi[of k] that by cases simp_all
  qed
  have tf: "a (Tf_var 0 (t + 1)) = a (Tf_var 0 t) - u_sum a data 0 t" if "0 \<le> t" "t < 48" for t
    using trans(3)[of t] lag_s[of t 23] lag_r[of t 2] that spd by (simp add: dp)
  have tf_sum: "a (Tf_var 0 t) = a (Tf_var 0 0) - sum_list (map (u_sum a data 0) (py_range 0 t))"
    if "0 \<le> t" "t \<le> 48" for t
    using that
  proof (induction t rule: int_ge_induct)
    case base
    show ?case by (simp add: py_range_def)
  next
    case (step k)
    have "py_range 0 (k + 1) = py_range 0 k @ [k]"
      using step.hyps upto_rec2[of 0 k] by (simp add: py_range_def)
    then show ?case using tf[of k] step by simp
  qed
  have "0 \<le> a (Tf_var 0 48)" using inventory_domain[OF m f d, of 48] spd by simp
  then have u_total: "sum_list (map (u_sum a data 0) (py_range 0 48)) \<le> a (Tf_var 0 0)"
    using tf_sum[of 48] by simp
  have first: "a (Tf_var 0 0) = Tf (initial_state data)"
    using first_boundary[OF m f d(2)] by (simp add: init_Tf_def)
  have vz: "sum_list (map (v_sum a data 0) (py_range 0 48)) = 0"
    by (rule sum_list_zero) (use v0 in \<open>simp add: set_py_range\<close>)
  have az: "sum_list (map (a_sum a data 0) (py_range 0 48)) = 0"
    by (rule sum_list_zero) (use a0 in \<open>simp add: set_py_range\<close>)
  have "a total_deliveries_var = eval a (deliveries data 0)"
    using objective_general[OF m f] n by (simp add: py_range_def)
  then have "a total_deliveries_var = sum_list (map (u_sum a data 0) (py_range 0 48))"
    by (simp add: eval_deliveries spd vz az)
  then show ?thesis using u_total first objective_general[OF m f] by simp
qed

text \<open>
  C4, as the code has it. For a one-day request with \<open>ET = 0\<close> and \<open>FT = 0\<close> in
  \<open>initial_state\<close> and every other parameter at its default, whatever the driver
  availabilities, \<open>Tf\<close> and \<open>Te\<close>: in every feasible solution nothing but shuttles is
  delivered, a shuttle takes a free tractor and none comes back free, so the reported
  \<open>objective_deliveries\<close> lies between 0 and the initial number \<open>Tf\<close> of free tractors;
  it is 0 when \<open>Tf = 0\<close>.
\<close>

theorem no_trailers_one_day_objective:
  assumes "build_model lib cal data = Inr m" and "feasible a m"
    and "settings data = Map.empty" and "length (days data) = 1"
    and "FT (initial_state data) = 0" and "ET (initial_state data) = 0"
  shows "\<exists>res. report data (solved code a) = Inr res \<and>
           0 \<le> objective_deliveries res \<and>
           objective_deliveries res \<le> Tf (initial_state data) \<and>
           (Tf (initial_state data) = 0 \<longrightarrow> objective_deliveries res = 0)"
  using no_trailers_one_day[OF assms]
  by (auto simp: report_solved Let_def total_deliveries_def)

text \<open>With one free tractor the bound is 1; with none the objective is 0.\<close>

theorem no_trailers_one_day_objective_witness:
  "build_model int64_library cal_const req4 = Inr model4 \<and> feasible asg4 model4 \<and>
   settings req4 = Map.empty \<and> length (days req4) = 1 \<and>
   FT (initial_state req4) = 0 \<and> ET (initial_state req4) = 0 \<and>
   (\<exists>res. report req4 (solved OPTIMAL asg4) = Inr res \<and>
      0 \<le> objective_deliveries res \<and> objective_deliveries res \<le> Tf (initial_state req4)) \<and>
   Tf (initial_state req4) = 1 \<and>
   build_model int64_library cal_const req4_idle = Inr model4_idle \<and> feasible asg4_idle model4_idle \<and>
   settings req4_idle = Map.empty \<and> length (days req4_idle) = 1 \<and>
   FT (initial_state req4_idle) = 0 \<and> ET (initial_state req4_idle) = 0 \<and>
   Tf (initial_state req4_idle) = 0 \<and>
   (\<exists>res. report req4_idle (solved OPTIMAL asg4_idle) = Inr res \<and>
      objective_deliveries res = 0)"
proof -
  have given: "settings req4 = Map.empty" "length (days req4) = 1"
    "FT (initial_state req4) = 0" "ET (initial_state req4) = 0" "Tf (initial_state req4) = 1"
    "settings req4_idle = Map.empty" "length (days req4_idle) = 1"
    "FT (initial_state req4_idle) = 0" "ET (initial_state req4_idle) = 0"
    "Tf (initial_state req4_idle) = 0"
    by (simp_all add: req4_def req4_idle_def)
  have one: "\<exists>res. report req4 (solved OPTIMAL asg4) = Inr res \<and>
      0 \<le> objective_deliveries res \<and> objective_deliveries res \<le> Tf (initial_state req4)"
    using no_trailers_one_day_objective[OF req4_build req4_feasible given(1-4), of OPTIMAL]
    by blast
  have none: "\<exists>res. report req4_idle (solved OPTIMAL asg4_idle) = Inr res \<and>
      objective_deliveries res = 0"
    using no_trailers_one_day_objective[OF req4_idle_build req4_idle_feasible given(6-9), of OPTIMAL]
      given(10)
    by blast
  show ?thesis
    using one none given req4_build req4_feasible req4_idle_build req4_idle_feasible
    by (intro conjI)
qed

text \<open>
  The claim as stated fails: a shuttle needs a free tractor and no trailer. With one free
  tractor and one Tirano driver, the shuttle started at slot 0 is feasible and the
  reported objective is 1.
\<close>

theorem shuttle_without_trailers_counterexample:
  "length (days req4) = 1 \<and> settings req4 = Map.empty \<and>
   FT (initial_state req4) = 0 \<and> ET (initial_state req4) = 0 \<and>
   build_model int64_library cal_const req4 = Inr model4 \<and> feasible asg4 model4 \<and>
   report req4 (solved FEASIBLE asg4) =
     Inr \<lparr>status = ''FEASIBLE'', objective_deliveries = 1, objective_liters = 17500,
          days_out = map (day_values (eval asg4) req4) (py_range 0 (num_days req4))\<rparr>"
  by (simp add: req4_build req4_feasible report_solved STATUS_MAP_def total_deliveries_def req4_eval)
    (simp add: req4_def)


section \<open>C5: a day without drivers\<close>

lemma built_slot_minutes_pos:
  assumes "build_model lib cal data = Inr m" "1 \<le> num_days data" "1 \<le> slots_per_day data"
  shows "0 < slot_minutes data"
proof (rule ccontr)
  assume "\<not> 0 < slot_minutes data"
  moreover from assms(1) have z: "slot_minutes data \<noteq> 0"
    and n: "first_error lib (construction cal data) = None"
    by (auto simp: build_model_def split: if_splits option.splits)
  ultimately have neg: "slot_minutes data < 0" by simp
  then have "refill_end_offset data < 0"
    by (simp add: refill_end_offset_def refill_slots_def neg_imp_zdiv_neg_iff)
  then have "past_the_end data (slots_per_day data - 1 - refill_end_offset data)"
    using assms(3) unfolding past_the_end_def by linarith
  then have "lagged_index_error data (slots_per_day data - 1)"
    unfolding lagged_index_error_def by blast
  moreover have "slots_per_day data - 1 \<in> set (py_range 0 (slots_per_day data))"
    using assms(3) by (simp add: set_py_range)
  ultimately have "Raise IndexError \<in> set (inventory_events data 0)"
    unfolding inventory_events_def by auto
  moreover have "0 \<in> set (py_range 0 (num_days data))"
    using assms(2) by (simp add: set_py_range)
  ultimately have "Raise IndexError \<in> set (construction cal data)"
    unfolding construction_def by (simp add: image_iff) blast
  with n show False by (auto simp: first_error_None)
qed

lemma idle_starts:
  assumes "D_T (day_at data d) = 0" "D_L (day_at data d) = 0" "0 \<le> i"
  shows "S_start data d i t = Const 0" "U_start data d i t = Const 0"
    "V_start data d i t = Const 0" "A_start data d i t = Const 0"
  using assms by (simp_all add: S_start_def U_start_def V_start_def A_start_def
      available_T_def available_L_def)


lemma idle_sums:
  assumes "D_T (day_at data d) = 0" "D_L (day_at data d) = 0"
  shows "s_sum a data d t = 0" "u_sum a data d t = 0" "v_sum a data d t = 0" "a_sum a data d t = 0"
  unfolding s_sum_def u_sum_def v_sum_def a_sum_def
  by (rule sum_list_zero, simp add: idle_starts[OF assms] set_py_range)+

lemma idle_inventory:
  assumes m: "build_model lib cal data = Inr m" and f: "feasible a m"
    and d: "0 \<le> d" "d < num_days data"
    and idle: "D_T (day_at data d) = 0" "D_L (day_at data d) = 0"
    and r: "\<And>t. 0 \<le> t \<Longrightarrow> t < slots_per_day data \<Longrightarrow> a (R_var d t) = 0"
    and t: "0 \<le> t" "t \<le> slots_per_day data"
  shows "a (FT_var d t) = a (FT_var d 0) \<and> a (ET_var d t) = a (ET_var d 0) \<and>
         a (Tf_var d t) = a (Tf_var d 0) \<and> a (Te_var d t) = a (Te_var d 0)"
  using t
proof (induction t rule: int_ge_induct)
  case base
  show ?case by simp
next
  case (step k)
  have k: "0 \<le> k" "k < slots_per_day data" using step by auto
  have pos: "0 < slot_minutes data"
    using built_slot_minutes_pos[OF m] d k by simp
  have off: "0 \<le> refill_end_offset data"
    using pos by (simp add: refill_end_offset_def refill_slots_def pos_imp_zdiv_nonneg_iff)
  have rk: "r_val a d k = 0" using r[OF k] by (simp add: r_val_def R_start_def)
  have rl: "lagged (r_val a d) k (refill_end_offset data) = 0"
    using r[of "k - refill_end_offset data"] off k
    by (simp add: lagged_def r_val_def R_start_def)
  have z: "lagged (\<lambda>t. 0) k j = 0" for j by (simp add: lagged_def)
  have sums: "s_sum a data d = (\<lambda>t. 0)" "u_sum a data d = (\<lambda>t. 0)"
    "v_sum a data d = (\<lambda>t. 0)" "a_sum a data d = (\<lambda>t. 0)"
    using idle_sums[OF idle] by auto
  from transitions_general[OF m f d k] step.IH k
  show ?case by (simp add: sums z rk rl)
qed

text \<open>
  C5, as the code has it. On a day with \<open>D_T = 0\<close> and \<open>D_L = 0\<close> every start indicator
  \<open>S\<close>, \<open>U\<close>, \<open>V\<close>, \<open>A\<close> of the day is the constant \<open>0\<close>. The refill counts \<open>R[d][t]\<close>
  need no driver and are not forced to \<open>0\<close>; in a feasible assignment in which no refill
  starts that day, the inventory at every boundary of the day, the final one included,
  equals the inventory at its initial boundary.
\<close>

theorem idle_day:
  assumes "build_model lib cal data = Inr m" and "feasible a m"
    and "0 \<le> d" and "d < num_days data"
    and "D_T (day_at data d) = 0" and "D_L (day_at data d) = 0"
  shows "(\<forall>i t. 0 \<le> i \<longrightarrow>
            S_start data d i t = Const 0 \<and> U_start data d i t = Const 0 \<and>
            V_start data d i t = Const 0 \<and> A_start data d i t = Const 0) \<and>
         ((\<forall>t. 0 \<le> t \<and> t < slots_per_day data \<longrightarrow> a (R_var d t) = 0) \<longrightarrow>
            (\<forall>t. 0 \<le> t \<and> t \<le> slots_per_day data \<longrightarrow>
               a (FT_var d t) = a (FT_var d 0) \<and> a (ET_var d t) = a (ET_var d 0) \<and>
               a (Tf_var d t) = a (Tf_var d 0) \<and> a (Te_var d t) = a (Te_var d 0)))"
  using idle_starts[OF assms(5,6)] idle_inventory[OF assms]
  by blast

theorem idle_day_witness:
  "build_model int64_library cal_const req5 = Inr model5 \<and> feasible asg5_idle model5 \<and>
   D_T (day_at req5 0) = 0 \<and> D_L (day_at req5 0) = 0 \<and>
   S_start req5 0 0 0 = Const 0 \<and> U_start req5 0 3 10 = Const 0 \<and>
   V_start req5 0 0 5 = Const 0 \<and> A_start req5 0 0 2 = Const 0 \<and>
   asg5_idle (FT_var 0 (slots_per_day req5)) = asg5_idle (FT_var 0 0) \<and>
   asg5_idle (Te_var 0 (slots_per_day req5)) = asg5_idle (Te_var 0 0)"
  using idle_day[OF req5_build req5_feasible_idle, of 0]
  by (simp add: req5_build req5_feasible_idle req5_eval)

text \<open>
  The claim as stated fails: without any driver a refill can start at slot 0; it takes
  the full trailer and the engaged tractor and returns an empty trailer and a free
  tractor two slots later, so the day ends with another inventory than it began with.
\<close>

theorem idle_day_refill_counterexample:
  "build_model int64_library cal_const req5 = Inr model5 \<and> feasible asg5 model5 \<and>
   D_T (day_at req5 0) = 0 \<and> D_L (day_at req5 0) = 0 \<and>
   asg5 (R_var 0 0) = 1 \<and>
   asg5 (FT_var 0 (slots_per_day req5)) \<noteq> asg5 (FT_var 0 0) \<and>
   asg5 (ET_var 0 (slots_per_day req5)) \<noteq> asg5 (ET_var 0 0)"
  by (simp add: req5_build req5_feasible req5_eval)


section \<open>C6: start indicators forced to zero\<close>

lemma S_zero: "(S_start data d i t = Const 0) =
     (i \<ge> D_T (day_at data d) \<or> t + supply_slots data > slots_per_day data)"
  by (auto simp: S_start_def available_T_def)

lemma U_zero: "(U_start data d i t = Const 0) =
     (i \<ge> D_T (day_at data d) \<or> t + shuttle_slots data > slots_per_day data \<or>
      t + shuttle_livigno_entry_offset data < livigno_entry_start_slot data \<or>
      t + shuttle_livigno_entry_offset data > livigno_entry_end_slot data)"
  by (auto simp: U_start_def available_T_def Let_def)

lemma V_zero: "(V_start data d j t = Const 0) =
     (j \<ge> D_L (day_at data d) \<or> t + resident_slots data > slots_per_day data \<or>
      t + resident_livigno_entry_offset data < livigno_entry_start_slot data \<or>
      t + resident_livigno_entry_offset data > livigno_entry_end_slot data)"
  by (auto simp: V_start_def available_L_def Let_def)

lemma A_zero: "(A_start data d j t = Const 0) =
     (j \<ge> D_L (day_at data d) \<or> t + adr_slots data > slots_per_day data \<or>
      t + adr_livigno_entry_offset data < livigno_entry_start_slot data \<or>
      t + adr_livigno_entry_offset data > livigno_entry_end_slot data)"
  by (auto simp: A_start_def available_L_def Let_def)

text \<open>
  C6. For every day \<open>d\<close>, driver index and slot \<open>t\<close>, the start indicator is the constant
  \<open>0\<close> exactly when the driver index is at or above the day's availability, or the task
  would exceed the shift (\<open>t + duration > slots_per_day\<close>), or, for the kinds with a
  Livigno-entry anchor (U, V, A), the anchor slot \<open>t + entry_offset\<close> lies outside
  \<open>[livigno_entry_start_slot, livigno_entry_end_slot]\<close>; S is subject to the first two
  conditions only. Otherwise the indicator is a Boolean variable of the model.
\<close>

theorem start_forced_to_zero:
  "(S_start data d i t = Const 0) =
     (i \<ge> D_T (day_at data d) \<or> t + supply_slots data > slots_per_day data) \<and>
   (U_start data d i t = Const 0) =
     (i \<ge> D_T (day_at data d) \<or> t + shuttle_slots data > slots_per_day data \<or>
      t + shuttle_livigno_entry_offset data < livigno_entry_start_slot data \<or>
      t + shuttle_livigno_entry_offset data > livigno_entry_end_slot data) \<and>
   (V_start data d j t = Const 0) =
     (j \<ge> D_L (day_at data d) \<or> t + resident_slots data > slots_per_day data \<or>
      t + resident_livigno_entry_offset data < livigno_entry_start_slot data \<or>
      t + resident_livigno_entry_offset data > livigno_entry_end_slot data) \<and>
   (A_start data d j t = Const 0) =
     (j \<ge> D_L (day_at data d) \<or> t + adr_slots data > slots_per_day data \<or>
      t + adr_livigno_entry_offset data < livigno_entry_start_slot data \<or>
      t + adr_livigno_entry_offset data > livigno_entry_end_slot data)"
  using S_zero[of data d i t] U_zero[of data d i t] V_zero[of data d j t] A_zero[of data d j t]
  by blast

lemma req6_params:
  "slots_per_day req6 = 48" "supply_slots req6 = 23" "shuttle_slots req6 = 16"
  "shuttle_livigno_entry_offset req6 = 8" "livigno_entry_start_slot req6 = 40"
  "livigno_entry_end_slot req6 = 50" "D_T (day_at req6 0) = 1" "D_L (day_at req6 0) = 1"
  by (simp_all add: param_defs req6_def day_at_def)

theorem start_forced_to_zero_witness:
  "S_start req6 0 1 0 = Const 0 \<and> S_start req6 0 0 26 = Const 0 \<and> S_start req6 0 0 25 \<noteq> Const 0 \<and>
   U_start req6 0 0 0 = Const 0 \<and> U_start req6 0 0 31 = Const 0 \<and> U_start req6 0 0 32 \<noteq> Const 0"
  using start_forced_to_zero[of req6 0 1 0 0] start_forced_to_zero[of req6 0 0 26 0]
    start_forced_to_zero[of req6 0 0 25 0] start_forced_to_zero[of req6 0 0 0 0]
    start_forced_to_zero[of req6 0 0 31 0] start_forced_to_zero[of req6 0 0 32 0]
  by (simp add: req6_params)


section \<open>C7: on-site totals\<close>


text \<open>
  C7, as the code has it. In every feasible assignment the totals
  \<open>FT + ET \<le> total_trailers\<close> and \<open>Tf + Te \<le> total_tractors\<close> hold at every boundary
  \<open>t\<close> in \<open>[1, slots_per_day]\<close> of every day, and at \<open>t = 0\<close> of a day \<open>d \<ge> 1\<close> when the day
  has at least one slot. The first boundary of day 0 carries \<open>initial_state\<close> as supplied
  and no total constrains it: the totals hold there, and so at every boundary, when
  \<open>initial_state\<close> itself is within the totals, as it is when the totals are defaulted.
\<close>

theorem totals_bounded:
  assumes m: "build_model lib cal data = Inr m" and f: "feasible a m"
    and d: "0 \<le> d" "d < num_days data" and t: "0 \<le> t" "t \<le> slots_per_day data"
  shows "(1 \<le> t \<or> (1 \<le> d \<and> 1 \<le> slots_per_day data) \<longrightarrow>
            a (FT_var d t) + a (ET_var d t) \<le> total_trailers data \<and>
            a (Tf_var d t) + a (Te_var d t) \<le> total_tractors data) \<and>
         a (FT_var 0 0) = init_FT data \<and> a (ET_var 0 0) = init_ET data \<and>
         a (Tf_var 0 0) = init_Tf data \<and> a (Te_var 0 0) = init_Te data \<and>
         (init_FT data + init_ET data \<le> total_trailers data \<longrightarrow>
            a (FT_var d t) + a (ET_var d t) \<le> total_trailers data) \<and>
         (init_Tf data + init_Te data \<le> total_tractors data \<longrightarrow>
            a (Tf_var d t) + a (Te_var d t) \<le> total_tractors data)"
proof -
  have n: "0 < num_days data" using d by simp
  note first = first_boundary[OF m f n]
  have later: "a (FT_var d t) + a (ET_var d t) \<le> total_trailers data \<and>
               a (Tf_var d t) + a (Te_var d t) \<le> total_tractors data"
    if "1 \<le> t \<or> (1 \<le> d \<and> 1 \<le> slots_per_day data)"
  proof (cases "1 \<le> t")
    case True
    then show ?thesis using totals_after_transition[OF m f d _ t(2)] by simp
  next
    case False
    then have t0: "t = 0" and d1: "1 \<le> d" and s1: "1 \<le> slots_per_day data"
      using that t by auto
    have "0 \<le> d - 1" "d - 1 < num_days data" using d1 d by auto
    from totals_after_transition[OF m f this s1] day_boundary[OF m f d1 d(2)] t0
    show ?thesis by simp
  qed
  have zero: "a (FT_var d' 0) + a (ET_var d' 0) \<le> total_trailers data"
    if "init_FT data + init_ET data \<le> total_trailers data" "0 \<le> d'" "d' < num_days data" for d'
    using that(2,3)
  proof (induction d' rule: int_ge_induct)
    case base
    then show ?case using first that(1) by simp
  next
    case (step k)
    have k: "1 \<le> k + 1" "k + 1 < num_days data" "0 \<le> k" "k < num_days data" using step by auto
    show ?case
    proof (cases "1 \<le> slots_per_day data")
      case True
      from totals_after_transition[OF m f k(3,4) True] day_boundary[OF m f k(1,2)]
      show ?thesis by simp
    next
      case False
      then have "slots_per_day data = 0" using t by simp
      then show ?thesis using day_boundary[OF m f k(1,2)] step.IH[OF k(4)] by simp
    qed
  qed
  have zero': "a (Tf_var d' 0) + a (Te_var d' 0) \<le> total_tractors data"
    if "init_Tf data + init_Te data \<le> total_tractors data" "0 \<le> d'" "d' < num_days data" for d'
    using that(2,3)
  proof (induction d' rule: int_ge_induct)
    case base
    then show ?case using first that(1) by simp
  next
    case (step k)
    have k: "1 \<le> k + 1" "k + 1 < num_days data" "0 \<le> k" "k < num_days data" using step by auto
    show ?case
    proof (cases "1 \<le> slots_per_day data")
      case True
      from totals_after_transition[OF m f k(3,4) True] day_boundary[OF m f k(1,2)]
      show ?thesis by simp
    next
      case False
      then have "slots_per_day data = 0" using t by simp
      then show ?thesis using day_boundary[OF m f k(1,2)] step.IH[OF k(4)] by simp
    qed
  qed
  have trailers: "a (FT_var d t) + a (ET_var d t) \<le> total_trailers data"
    if "init_FT data + init_ET data \<le> total_trailers data"
  proof (cases "1 \<le> t")
    case True then show ?thesis using later by simp
  next
    case False then have "t = 0" using t by simp
    then show ?thesis using zero[OF that d] by simp
  qed
  have tractors: "a (Tf_var d t) + a (Te_var d t) \<le> total_tractors data"
    if "init_Tf data + init_Te data \<le> total_tractors data"
  proof (cases "1 \<le> t")
    case True then show ?thesis using later by simp
  next
    case False then have "t = 0" using t by simp
    then show ?thesis using zero'[OF that d] by simp
  qed
  show ?thesis using later first trailers tractors by blast
qed

theorem totals_bounded_witness:
  "build_model int64_library cal_const req7 = Inr model7 \<and> feasible asg7 model7 \<and>
   asg7 (FT_var 0 26) + asg7 (ET_var 0 26) \<le> total_trailers req7 \<and>
   asg7 (Tf_var 0 26) + asg7 (Te_var 0 26) \<le> total_tractors req7 \<and>
   asg7 (FT_var 0 0) = init_FT req7 \<and> asg7 (Tf_var 0 26) + asg7 (Te_var 0 26) = 2 \<and>
   init_Tf req7 + init_Te req7 \<le> total_tractors req7 \<and>
   asg7 (Tf_var 0 0) + asg7 (Te_var 0 0) \<le> total_tractors req7 \<and>
   build_model int64_library cal_const req9 = Inr model9 \<and> feasible asg9 model9 \<and>
   init_FT req9 + init_ET req9 \<le> total_trailers req9 \<and>
   asg9 (FT_var 0 0) + asg9 (ET_var 0 0) \<le> total_trailers req9"
  using totals_bounded[OF req7_build req7_feasible, of 0 26]
    totals_bounded[OF req7_build req7_feasible, of 0 0]
    totals_bounded[OF req9_build req9_feasible, of 0 0]
  by (simp add: req7_build req7_feasible req7_params req9_build req9_feasible req9_params)

text \<open>
  The claim as stated fails at the first boundary: with \<open>total_trailers = 1\<close> supplied and
  \<open>initial_state\<close> holding one full and one empty trailer, the model is feasible (a refill
  at slot 0, supplies at slots 2 and 25) and \<open>FT + ET = 2\<close> at \<open>t = 0\<close> of day 0.
\<close>

theorem totals_first_boundary_counterexample:
  "build_model int64_library cal_const req7 = Inr model7 \<and> feasible asg7 model7 \<and>
   \<not> (asg7 (FT_var 0 0) + asg7 (ET_var 0 0) \<le> total_trailers req7)"
  by (simp add: req7_build req7_feasible req7_params)


section \<open>C8: the rolling break rule\<close>

lemma member_le_sum_list_int:
  "(\<And>y. y \<in> set xs \<Longrightarrow> (0::int) \<le> y) \<Longrightarrow> x \<in> set xs \<Longrightarrow> x \<le> sum_list xs"
proof (induction xs)
  case Nil
  then show ?case by simp
next
  case (Cons z zs)
  have nn: "0 \<le> sum_list zs" using Cons.prems(1) by (simp add: sum_list_nonneg)
  show ?case
  proof (cases "x = z")
    case True
    then show ?thesis using nn by simp
  next
    case False
    then have "x \<in> set zs" using Cons.prems(2) by simp
    then have "x \<le> sum_list zs" using Cons by simp
    moreover have "0 \<le> z" using Cons.prems(1) by simp
    ultimately show ?thesis by simp
  qed
qed

text \<open>One kind's contributors to the driving indicator of slot \<open>t\<close>.\<close>

lemma contributors_kind:
  fixes t spd duration :: int and offsets :: "int set" and X :: "int \<Rightarrow> expr"
  assumes nonneg: "\<And>t0. 0 \<le> t0 \<Longrightarrow> t0 < spd \<Longrightarrow> 0 \<le> eval a (X t0)"
    and fits: "\<And>t0. eval a (X t0) \<noteq> 0 \<Longrightarrow> t0 + duration \<le> spd"
  defines "cs \<equiv> map X (filter (\<lambda>t0. t0 + duration \<le> spd \<and> t - t0 \<in> offsets)
                    (py_range (max 0 (t - duration + 1)) (min (t + 1) spd)))"
  shows "0 \<le> sum_list (map (eval a) cs)"
    and "started_covering a X duration offsets spd t \<Longrightarrow> 1 \<le> sum_list (map (eval a) cs)"
proof -
  have nn: "0 \<le> y" if "y \<in> set (map (eval a) cs)" for y
    using that nonneg unfolding cs_def by (auto simp: set_py_range)
  show "0 \<le> sum_list (map (eval a) cs)"
    by (rule sum_list_nonneg) (use nn in blast)
  assume "started_covering a X duration offsets spd t"
  then obtain t0 where t0: "0 \<le> t0" "t0 < spd" "eval a (X t0) = 1" "t0 \<le> t" "t < t0 + duration"
      "t - t0 \<in> offsets"
    unfolding started_covering_def list_ex_iff by (auto simp: set_py_range)
  have "t0 + duration \<le> spd" using fits[of t0] t0(3) by simp
  then have "t0 \<in> set (filter (\<lambda>t0. t0 + duration \<le> spd \<and> t - t0 \<in> offsets)
                    (py_range (max 0 (t - duration + 1)) (min (t + 1) spd)))"
    using t0 by (simp add: set_py_range)
  then have "eval a (X t0) \<in> set (map (eval a) cs)" unfolding cs_def by (simp add: image_iff) blast
  from member_le_sum_list_int[OF nn this] t0(3) show "1 \<le> sum_list (map (eval a) cs)" by simp
qed

lemma take_drop_upto:
  assumes "0 \<le> k" "0 \<le> b" "k + b \<le> m + 1"
  shows "take (nat b) (drop (nat k) [0..m]) = [k..k + b - 1]"
proof (rule nth_equalityI)
  show "length (take (nat b) (drop (nat k) [0..m])) = length [k..k + b - 1]"
    using assms by simp
next
  fix i assume "i < length (take (nat b) (drop (nat k) [0..m]))"
  then have i: "int i < b" "int i + k \<le> m" using assms by auto
  then show "take (nat b) (drop (nat k) [0..m]) ! i = [k..k + b - 1] ! i"
    using assms by simp
qed

lemma py_slice_window:
  assumes "0 \<le> t0" "0 \<le> w" "t0 + w \<le> spd"
  shows "py_slice (map f (py_range 0 spd)) t0 (t0 + w) = map f (py_range t0 (t0 + w))"
proof -
  have len: "int (length (map f (py_range 0 spd))) = spd" using assms by (simp add: py_range_def)
  have "py_slice (map f (py_range 0 spd)) t0 (t0 + w)
         = take (nat w) (drop (nat t0) (map f [0..spd - 1]))"
    unfolding py_slice_def len Let_def using assms by (simp add: py_range_def)
  also have "\<dots> = map f (take (nat w) (drop (nat t0) [0..spd - 1]))"
    by (simp add: take_map drop_map)
  also have "\<dots> = map f [t0..t0 + w - 1]"
    using take_drop_upto[of t0 w "spd - 1"] assms by simp
  finally show ?thesis by (simp add: py_range_def)
qed


lemma drv_T_value:
  assumes m: "build_model lib cal data = Inr m" and f: "feasible a m"
    and d: "0 \<le> d" "d < num_days data" and i: "0 \<le> i" "i < drivers_T_base data"
    and t: "0 \<le> t" "t < slots_per_day data"
  shows "0 \<le> a (drv_T_var d i t) \<and> (driving_T a data d i t \<longrightarrow> a (drv_T_var d i t) = 1)"
proof -
  have tr: "t \<in> set (py_range 0 (slots_per_day data))" using t by (simp add: set_py_range)
  have "\<forall>c \<in> set [Domain (drv_T_var d i t) 0 1,
           Eq (Var (drv_T_var d i t)) (Sum (contributors_T data d i t))]. holds a c"
  proof
    fix c assume "c \<in> set [Domain (drv_T_var d i t) 0 1,
           Eq (Var (drv_T_var d i t)) (Sum (contributors_T data d i t))]"
    then have "c \<in> set (break_rule_T data d i)" using tr unfolding break_rule_T_def by auto
    then show "holds a c" using tirano_driver_holds[OF m f d i] by (simp add: tirano_driver_def)
  qed
  then have dom: "0 \<le> a (drv_T_var d i t)" "a (drv_T_var d i t) \<le> 1"
    and eq: "a (drv_T_var d i t) = sum_list (map (eval a) (contributors_T data d i t))"
    by simp_all
  have nS: "0 \<le> eval a (S_start data d i t0)" and nU: "0 \<le> eval a (U_start data d i t0)"
    if "0 \<le> t0" "t0 < slots_per_day data" for t0
    using start_values_T[OF m f d i that] by simp_all
  have fS: "t0 + supply_slots data \<le> slots_per_day data" if "eval a (S_start data d i t0) \<noteq> 0" for t0
    using started_fits(1)[OF that] .
  have fU: "t0 + shuttle_slots data \<le> slots_per_day data" if "eval a (U_start data d i t0) \<noteq> 0" for t0
    using started_fits(2)[OF that] .
  note S = contributors_kind[where spd = "slots_per_day data" and a = a and X = "S_start data d i"
      and duration = "supply_slots data" and t = t and offsets = supply_drive_offsets, OF nS fS]
  note U = contributors_kind[where spd = "slots_per_day data" and a = a and X = "U_start data d i"
      and duration = "shuttle_slots data" and t = t and offsets = shuttle_drive_offsets, OF nU fU]
  have "a (drv_T_var d i t) = 1" if "driving_T a data d i t"
  proof -
    from that S U
    have "1 \<le> sum_list (map (eval a) (contributors_T data d i t))"
      unfolding driving_T_def contributors_T_def by auto
    then show ?thesis using eq dom by simp
  qed
  then show ?thesis using dom by simp
qed

lemma drv_L_value:
  assumes m: "build_model lib cal data = Inr m" and f: "feasible a m"
    and d: "0 \<le> d" "d < num_days data" and j: "0 \<le> j" "j < drivers_L_base data"
    and t: "0 \<le> t" "t < slots_per_day data"
  shows "0 \<le> a (drv_L_var d j t) \<and> (driving_L a data d j t \<longrightarrow> a (drv_L_var d j t) = 1)"
proof -
  have tr: "t \<in> set (py_range 0 (slots_per_day data))" using t by (simp add: set_py_range)
  have "\<forall>c \<in> set [Domain (drv_L_var d j t) 0 1,
           Eq (Var (drv_L_var d j t)) (Sum (contributors_L data d j t))]. holds a c"
  proof
    fix c assume "c \<in> set [Domain (drv_L_var d j t) 0 1,
           Eq (Var (drv_L_var d j t)) (Sum (contributors_L data d j t))]"
    then have "c \<in> set (break_rule_L data d j)" using tr unfolding break_rule_L_def by auto
    then show "holds a c" using livigno_driver_holds[OF m f d j] by (simp add: livigno_driver_def)
  qed
  then have dom: "0 \<le> a (drv_L_var d j t)" "a (drv_L_var d j t) \<le> 1"
    and eq: "a (drv_L_var d j t) = sum_list (map (eval a) (contributors_L data d j t))"
    by simp_all
  have nV: "0 \<le> eval a (V_start data d j t0)" and nA: "0 \<le> eval a (A_start data d j t0)"
    if "0 \<le> t0" "t0 < slots_per_day data" for t0
    using start_values_L[OF m f d j that] by simp_all
  have fV: "t0 + resident_slots data \<le> slots_per_day data" if "eval a (V_start data d j t0) \<noteq> 0" for t0
    using started_fits(3)[OF that] .
  have fA: "t0 + adr_slots data \<le> slots_per_day data" if "eval a (A_start data d j t0) \<noteq> 0" for t0
    using started_fits(4)[OF that] .
  note V = contributors_kind[where spd = "slots_per_day data" and a = a and X = "V_start data d j"
      and duration = "resident_slots data" and t = t and offsets = resident_drive_offsets, OF nV fV]
  note A = contributors_kind[where spd = "slots_per_day data" and a = a and X = "A_start data d j"
      and duration = "adr_slots data" and t = t and offsets = adr_drive_offsets, OF nA fA]
  have "a (drv_L_var d j t) = 1" if "driving_L a data d j t"
  proof -
    from that V A
    have "1 \<le> sum_list (map (eval a) (contributors_L data d j t))"
      unfolding driving_L_def contributors_L_def by auto
    then show ?thesis using eq dom by simp
  qed
  then show ?thesis using dom by simp
qed

lemma window_T:
  assumes m: "build_model lib cal data = Inr m" and f: "feasible a m"
    and d: "0 \<le> d" "d < num_days data" and i: "0 \<le> i" "i < drivers_T_base data"
    and t0: "0 \<le> t0" "t0 \<le> slots_per_day data - break_window_slots data"
    and w: "0 \<le> break_window_slots data"
  shows "int (length (filter (driving_T a data d i) (py_range t0 (t0 + break_window_slots data))))
           \<le> break_drive_cap_slots data"
proof -
  let ?w = "break_window_slots data" and ?spd = "slots_per_day data"
  let ?drv = "\<lambda>t. Var (drv_T_var d i t)"
  let ?c = "Le (Sum (py_slice (drive_slots_T data d i) t0 (t0 + ?w))) (Const (break_drive_cap_slots data))"
  have "?w \<le> ?spd" using t0 by simp
  moreover have "t0 \<in> set (py_range 0 (?spd - ?w + 1))" using t0 by (simp add: set_py_range)
  ultimately have "?c \<in> set (break_rule_T data d i)" unfolding break_rule_T_def by auto
  then have "?c \<in> set (tirano_driver data d i)" by (simp add: tirano_driver_def)
  from tirano_driver_holds[OF m f d i this] have "holds a ?c" .
  moreover have "py_slice (drive_slots_T data d i) t0 (t0 + ?w) = map ?drv (py_range t0 (t0 + ?w))"
    unfolding drive_slots_T_def using py_slice_window[of t0 ?w ?spd ?drv] t0 w by simp
  ultimately have total: "sum_list (map (\<lambda>t. a (drv_T_var d i t)) (py_range t0 (t0 + ?w)))
      \<le> break_drive_cap_slots data"
    by (simp add: comp_def)
  have "int (length (filter (driving_T a data d i) (py_range t0 (t0 + ?w))))
      \<le> sum_list (map (\<lambda>t. a (drv_T_var d i t)) (py_range t0 (t0 + ?w)))"
  proof (rule count_le_sum)
    fix t assume "t \<in> set (py_range t0 (t0 + ?w))"
    then have "0 \<le> t" "t < ?spd" using t0 by (auto simp: set_py_range)
    from drv_T_value[OF m f d i this]
    show "0 \<le> a (drv_T_var d i t) \<and> (driving_T a data d i t \<longrightarrow> 1 \<le> a (drv_T_var d i t))"
      by simp
  qed
  then show ?thesis using total by simp
qed

lemma window_L:
  assumes m: "build_model lib cal data = Inr m" and f: "feasible a m"
    and d: "0 \<le> d" "d < num_days data" and j: "0 \<le> j" "j < drivers_L_base data"
    and t0: "0 \<le> t0" "t0 \<le> slots_per_day data - break_window_slots data"
    and w: "0 \<le> break_window_slots data"
  shows "int (length (filter (driving_L a data d j) (py_range t0 (t0 + break_window_slots data))))
           \<le> break_drive_cap_slots data"
proof -
  let ?w = "break_window_slots data" and ?spd = "slots_per_day data"
  let ?drv = "\<lambda>t. Var (drv_L_var d j t)"
  let ?c = "Le (Sum (py_slice (drive_slots_L data d j) t0 (t0 + ?w))) (Const (break_drive_cap_slots data))"
  have "?w \<le> ?spd" using t0 by simp
  moreover have "t0 \<in> set (py_range 0 (?spd - ?w + 1))" using t0 by (simp add: set_py_range)
  ultimately have "?c \<in> set (break_rule_L data d j)" unfolding break_rule_L_def by auto
  then have "?c \<in> set (livigno_driver data d j)" by (simp add: livigno_driver_def)
  from livigno_driver_holds[OF m f d j this] have "holds a ?c" .
  moreover have "py_slice (drive_slots_L data d j) t0 (t0 + ?w) = map ?drv (py_range t0 (t0 + ?w))"
    unfolding drive_slots_L_def using py_slice_window[of t0 ?w ?spd ?drv] t0 w by simp
  ultimately have total: "sum_list (map (\<lambda>t. a (drv_L_var d j t)) (py_range t0 (t0 + ?w)))
      \<le> break_drive_cap_slots data"
    by (simp add: comp_def)
  have "int (length (filter (driving_L a data d j) (py_range t0 (t0 + ?w))))
      \<le> sum_list (map (\<lambda>t. a (drv_L_var d j t)) (py_range t0 (t0 + ?w)))"
  proof (rule count_le_sum)
    fix t assume "t \<in> set (py_range t0 (t0 + ?w))"
    then have "0 \<le> t" "t < ?spd" using t0 by (auto simp: set_py_range)
    from drv_L_value[OF m f d j this]
    show "0 \<le> a (drv_L_var d j t) \<and> (driving_L a data d j t \<longrightarrow> 1 \<le> a (drv_L_var d j t))"
      by simp
  qed
  then show ?thesis using total by simp
qed

lemma slots_to_minutes:
  assumes "0 < slot_minutes data" "k \<le> break_drive_cap_slots data"
  shows "slot_minutes data * k \<le> break_drive_cap_minutes data"
proof -
  have "slot_minutes data * k \<le> slot_minutes data * break_drive_cap_slots data"
    using assms by (simp add: mult_left_mono)
  also have "\<dots> \<le> break_drive_cap_minutes data"
    unfolding break_drive_cap_slots_def using assms(1)
    by (metis mult.commute rounded_down_def rounded_down_div)
  finally show ?thesis .
qed

text \<open>
  C8. In every feasible assignment, for every driver (Tirano and Livigno) of every day
  and every window of \<open>break_window_slots\<close> consecutive slots starting at
  \<open>t0\<close> in \<open>[0, slots_per_day - break_window_slots]\<close>, the number of slots of the window
  in which the driver is actively driving is at most \<open>break_drive_cap_slots\<close>; in minutes
  (slots times \<open>slot_minutes\<close>) that is at most \<open>break_drive_cap_minutes\<close>, by default
  270 minutes in a window of 315.
\<close>

theorem break_rule:
  assumes "build_model lib cal data = Inr m" and "feasible a m"
    and "0 \<le> d" and "d < num_days data" and "0 \<le> i"
    and "0 \<le> t0" and "t0 \<le> slots_per_day data - break_window_slots data"
    and "0 \<le> break_window_slots data"
  shows "(i < drivers_T_base data \<longrightarrow>
            int (length (filter (driving_T a data d i)
                   (py_range t0 (t0 + break_window_slots data)))) \<le> break_drive_cap_slots data \<and>
            (0 < slot_minutes data \<longrightarrow>
               slot_minutes data * int (length (filter (driving_T a data d i)
                   (py_range t0 (t0 + break_window_slots data)))) \<le> break_drive_cap_minutes data)) \<and>
         (i < drivers_L_base data \<longrightarrow>
            int (length (filter (driving_L a data d i)
                   (py_range t0 (t0 + break_window_slots data)))) \<le> break_drive_cap_slots data \<and>
            (0 < slot_minutes data \<longrightarrow>
               slot_minutes data * int (length (filter (driving_L a data d i)
                   (py_range t0 (t0 + break_window_slots data)))) \<le> break_drive_cap_minutes data))"
  using window_T[OF assms(1,2,3,4,5) _ assms(6,7,8)] window_L[OF assms(1,2,3,4,5) _ assms(6,7,8)]
    slots_to_minutes[of data]
  by blast

text \<open>
  The window of 21 slots from slot 2 of the example holds the whole supply of driver 0
  but its last two slots: 18 driving slots, 270 minutes, in 315 minutes.
\<close>

theorem break_rule_witness:
  "build_model int64_library cal_const req7 = Inr model7 \<and> feasible asg7 model7 \<and>
   (0::int) < drivers_T_base req7 \<and> (0::int) < drivers_L_base req7 \<and>
   2 \<le> slots_per_day req7 - break_window_slots req7 \<and>
   0 \<le> break_window_slots req7 \<and> 0 < slot_minutes req7 \<and>
   int (length (filter (driving_T asg7 req7 0 0) (py_range 2 (2 + break_window_slots req7))))
     \<le> break_drive_cap_slots req7 \<and>
   slot_minutes req7 * int (length (filter (driving_T asg7 req7 0 0)
       (py_range 2 (2 + break_window_slots req7)))) \<le> break_drive_cap_minutes req7 \<and>
   length (filter (driving_T asg7 req7 0 0) (py_range 2 (2 + break_window_slots req7))) = 18 \<and>
   slot_minutes req7 * break_window_slots req7 = 315 \<and> break_drive_cap_minutes req7 = 270 \<and>
   int (length (filter (driving_L asg7 req7 0 0) (py_range 2 (2 + break_window_slots req7))))
     \<le> break_drive_cap_slots req7"
proof -
  have minutes: "break_drive_cap_minutes req7 = 270"
    by (simp add: break_drive_cap_minutes_def get_def req7_def)
  show ?thesis
    using break_rule[OF req7_build req7_feasible, of 0 0 2]
    by (simp add: req7_build req7_feasible req7_params req7_driving req7_driving_L minutes)
qed


section \<open>C9: extended days per ISO week\<close>

lemma eval_drive_sum:
  "eval a (drive_sum_T data d i) = driving_minutes_T a data d i"
  "eval a (drive_sum_L data d j) = driving_minutes_L a data d j"
  by (simp_all add: drive_sum_T_def drive_sum_L_def driving_minutes_T_def driving_minutes_L_def comp_def)

lemma map_of_setdefault_append:
  "map_of (setdefault_append ws k d) =
     (map_of ws)(k \<mapsto> (case map_of ws k of None \<Rightarrow> [] | Some ds \<Rightarrow> ds) @ [d])"
  by (induction ws k d rule: setdefault_append.induct) (auto simp: fun_eq_iff)

lemma keys_setdefault_append:
  "map fst (setdefault_append ws k d) = (if k \<in> fst ` set ws then map fst ws else map fst ws @ [k])"
  by (induction ws k d rule: setdefault_append.induct) auto

lemma distinct_setdefault_append:
  "distinct (map fst ws) \<Longrightarrow> distinct (map fst (setdefault_append ws k d))"
  by (simp add: keys_setdefault_append)

lemma weeks_fold:
  fixes key :: "int \<Rightarrow> week_key"
  defines "ws ds \<equiv> foldl (\<lambda>ws d. setdefault_append ws (key d) d) [] ds"
  shows "distinct (map fst (ws ds)) \<and>
         map_of (ws ds) yw =
            (if filter (\<lambda>d. key d = yw) ds = [] then None else Some (filter (\<lambda>d. key d = yw) ds))"
proof (induction ds arbitrary: yw rule: rev_induct)
  case Nil
  show ?case by (simp add: ws_def)
next
  case (snoc x xs)
  have step: "ws (xs @ [x]) = setdefault_append (ws xs) (key x) x" by (simp add: ws_def)
  have dist: "distinct (map fst (ws xs))" using snoc by blast
  have mo: "map_of (ws xs) k =
      (if filter (\<lambda>d. key d = k) xs = [] then None else Some (filter (\<lambda>d. key d = k) xs))" for k
    using snoc by blast
  have old: "(case map_of (ws xs) (key x) of None \<Rightarrow> [] | Some ds \<Rightarrow> ds) =
      filter (\<lambda>d. key d = key x) xs"
    by (simp add: mo)
  have "map_of (ws (xs @ [x])) yw =
      (if filter (\<lambda>d. key d = yw) (xs @ [x]) = [] then None
       else Some (filter (\<lambda>d. key d = yw) (xs @ [x])))"
  proof (cases "yw = key x")
    case True
    then show ?thesis unfolding step map_of_setdefault_append old by simp
  next
    case False
    then show ?thesis unfolding step map_of_setdefault_append by (simp add: mo)
  qed
  then show ?case using distinct_setdefault_append[OF dist] step by simp
qed

lemma weeks_groups:
  "(yw, idxs) \<in> set (weeks cal data) \<longleftrightarrow>
     idxs = filter (in_week cal data yw) (py_range 0 (num_days data)) \<and> idxs \<noteq> []"
proof -
  let ?key = "\<lambda>d. year_week cal (day_at data d)"
  let ?group = "filter (\<lambda>d. ?key d = yw) (py_range 0 (num_days data))"
  from weeks_fold[of ?key "py_range 0 (num_days data)" yw]
  have dist: "distinct (map fst (weeks cal data))"
    and mo: "map_of (weeks cal data) yw = (if ?group = [] then None else Some ?group)"
    unfolding weeks_def by blast+
  have "(yw, idxs) \<in> set (weeks cal data) \<longleftrightarrow> map_of (weeks cal data) yw = Some idxs"
    using dist by simp
  also have "\<dots> \<longleftrightarrow> idxs = ?group \<and> idxs \<noteq> []"
    unfolding mo by (cases "?group = []") auto
  finally show ?thesis unfolding in_week_def .
qed


lemma ext_T_week_in_model:
  assumes cap: "0 \<le> max_extended_days_per_week data"
    and w: "(yw, idxs) \<in> set (weeks cal data)"
    and i: "0 \<le> i" "i < drivers_T_base data"
    and c: "c \<in> set (concat (map (ext_day_T data i) idxs) @
               [Le (Sum (map (\<lambda>d. Var (ext_flag_T_var d i)) idxs))
                   (Const (max_extended_days_per_week data))])"
  shows "c \<in> set (model_constraints cal data)"
proof -
  let ?g = "\<lambda>i (yw, idxs). concat (map (ext_day_T data i) idxs) @
               [Le (Sum (map (\<lambda>d. Var (ext_flag_T_var d i)) idxs))
                   (Const (max_extended_days_per_week data))]"
  have ir: "i \<in> set (py_range 0 (drivers_T_base data))" using i by (simp add: set_py_range)
  have 1: "c \<in> set (?g i (yw, idxs))" using c by simp
  have 2: "c \<in> set (concat (map (?g i) (weeks cal data)))" using in_concat_map[of "(yw, idxs)" "weeks cal data" c "?g i", OF w 1] .
  have 3: "c \<in> set (concat (map (\<lambda>i. concat (map (?g i) (weeks cal data)))
              (py_range 0 (drivers_T_base data))))"
    using in_concat_map[of i "py_range 0 (drivers_T_base data)" c
        "\<lambda>i. concat (map (?g i) (weeks cal data))", OF ir 2] .
  have "c \<in> set (extended_days data (weeks cal data))"
    unfolding extended_days_def using cap 3 by (simp only: if_True set_append Un_iff simp_thms)
  then show ?thesis by (simp add: model_constraints_def)
qed

lemma ext_L_week_in_model:
  assumes cap: "0 \<le> max_extended_days_per_week data"
    and w: "(yw, idxs) \<in> set (weeks cal data)"
    and j: "0 \<le> j" "j < drivers_L_base data"
    and c: "c \<in> set (concat (map (ext_day_L data j) idxs) @
               [Le (Sum (map (\<lambda>d. Var (ext_flag_L_var d j)) idxs))
                   (Const (max_extended_days_per_week data))])"
  shows "c \<in> set (model_constraints cal data)"
proof -
  let ?g = "\<lambda>j (yw, idxs). concat (map (ext_day_L data j) idxs) @
               [Le (Sum (map (\<lambda>d. Var (ext_flag_L_var d j)) idxs))
                   (Const (max_extended_days_per_week data))]"
  have jr: "j \<in> set (py_range 0 (drivers_L_base data))" using j by (simp add: set_py_range)
  have 1: "c \<in> set (?g j (yw, idxs))" using c by simp
  have 2: "c \<in> set (concat (map (?g j) (weeks cal data)))" using in_concat_map[of "(yw, idxs)" "weeks cal data" c "?g j", OF w 1] .
  have 3: "c \<in> set (concat (map (\<lambda>j. concat (map (?g j) (weeks cal data)))
              (py_range 0 (drivers_L_base data))))"
    using in_concat_map[of j "py_range 0 (drivers_L_base data)" c
        "\<lambda>j. concat (map (?g j) (weeks cal data))", OF jr 2] .
  have "c \<in> set (extended_days data (weeks cal data))"
    unfolding extended_days_def using cap 3 by (simp only: if_True set_append Un_iff simp_thms)
  then show ?thesis by (simp add: model_constraints_def)
qed

lemma ext_flag_T:
  assumes m: "build_model lib cal data = Inr m" and f: "feasible a m"
    and cap: "0 \<le> max_extended_days_per_week data"
    and w: "(yw, idxs) \<in> set (weeks cal data)"
    and i: "0 \<le> i" "i < drivers_T_base data"
  shows "d \<in> set idxs \<Longrightarrow>
           (a (ext_flag_T_var d i) = 1 \<and> driving_minutes_T a data d i > drive_minutes_daily data) \<or>
           (a (ext_flag_T_var d i) = 0 \<and> driving_minutes_T a data d i \<le> drive_minutes_daily data)"
    and "sum_list (map (\<lambda>d. a (ext_flag_T_var d i)) idxs) \<le> max_extended_days_per_week data"
proof -
  note mem = ext_T_week_in_model[OF cap w i]
  have h: "holds a c" if "c \<in> set (concat (map (ext_day_T data i) idxs) @
               [Le (Sum (map (\<lambda>d. Var (ext_flag_T_var d i)) idxs))
                   (Const (max_extended_days_per_week data))])" for c
    using feasible_holds[OF m f mem[OF that]] .
  show "sum_list (map (\<lambda>d. a (ext_flag_T_var d i)) idxs) \<le> max_extended_days_per_week data"
    using h[of "Le (Sum (map (\<lambda>d. Var (ext_flag_T_var d i)) idxs))
                   (Const (max_extended_days_per_week data))"]
    by (simp add: comp_def)
  assume d: "d \<in> set idxs"
  have "\<forall>c \<in> set (ext_day_T data i d). holds a c"
    using h d by auto
  then show "(a (ext_flag_T_var d i) = 1 \<and> driving_minutes_T a data d i > drive_minutes_daily data) \<or>
           (a (ext_flag_T_var d i) = 0 \<and> driving_minutes_T a data d i \<le> drive_minutes_daily data)"
    by (simp add: ext_day_T_def eval_drive_sum split: if_splits)
qed

lemma ext_flag_L:
  assumes m: "build_model lib cal data = Inr m" and f: "feasible a m"
    and cap: "0 \<le> max_extended_days_per_week data"
    and w: "(yw, idxs) \<in> set (weeks cal data)"
    and j: "0 \<le> j" "j < drivers_L_base data"
  shows "d \<in> set idxs \<Longrightarrow>
           (a (ext_flag_L_var d j) = 1 \<and> driving_minutes_L a data d j > drive_minutes_daily data) \<or>
           (a (ext_flag_L_var d j) = 0 \<and> driving_minutes_L a data d j \<le> drive_minutes_daily data)"
    and "sum_list (map (\<lambda>d. a (ext_flag_L_var d j)) idxs) \<le> max_extended_days_per_week data"
proof -
  note mem = ext_L_week_in_model[OF cap w j]
  have h: "holds a c" if "c \<in> set (concat (map (ext_day_L data j) idxs) @
               [Le (Sum (map (\<lambda>d. Var (ext_flag_L_var d j)) idxs))
                   (Const (max_extended_days_per_week data))])" for c
    using feasible_holds[OF m f mem[OF that]] .
  show "sum_list (map (\<lambda>d. a (ext_flag_L_var d j)) idxs) \<le> max_extended_days_per_week data"
    using h[of "Le (Sum (map (\<lambda>d. Var (ext_flag_L_var d j)) idxs))
                   (Const (max_extended_days_per_week data))"]
    by (simp add: comp_def)
  assume d: "d \<in> set idxs"
  have "\<forall>c \<in> set (ext_day_L data j d). holds a c"
    using h d by auto
  then show "(a (ext_flag_L_var d j) = 1 \<and> driving_minutes_L a data d j > drive_minutes_daily data) \<or>
           (a (ext_flag_L_var d j) = 0 \<and> driving_minutes_L a data d j \<le> drive_minutes_daily data)"
    by (simp add: ext_day_L_def eval_drive_sum split: if_splits)
qed

lemma group_count:
  assumes flags: "\<And>d. d \<in> set idxs \<Longrightarrow> (e d = 1 \<and> P d) \<or> (e d = (0::int) \<and> \<not> P d)"
    and total: "sum_list (map e idxs) \<le> cap"
  shows "int (length (filter P idxs)) \<le> cap"
proof -
  have "int (length (filter P idxs)) \<le> sum_list (map e idxs)"
    by (rule count_le_sum) (use flags in force)
  then show ?thesis using total by simp
qed

lemma week_of_day:
  assumes "0 \<le> d" "d < num_days data"
  shows "\<exists>idxs. (year_week cal (day_at data d), idxs) \<in> set (weeks cal data) \<and> d \<in> set idxs"
proof -
  let ?yw = "year_week cal (day_at data d)"
  let ?idxs = "filter (in_week cal data ?yw) (py_range 0 (num_days data))"
  have "d \<in> set ?idxs" using assms by (simp add: set_py_range in_week_def)
  moreover from this have "?idxs \<noteq> []" by (metis empty_iff list.set(1))
  then have "(?yw, ?idxs) \<in> set (weeks cal data)"
    unfolding weeks_groups by simp
  ultimately show ?thesis by blast
qed

lemma extended_days_T:
  assumes m: "build_model lib cal data = Inr m" and f: "feasible a m"
    and cap: "0 \<le> max_extended_days_per_week data"
    and i: "0 \<le> i" "i < drivers_T_base data"
  shows "int (length (filter (\<lambda>d. in_week cal data yw d \<and>
                 driving_minutes_T a data d i > drive_minutes_daily data)
             (py_range 0 (num_days data)))) \<le> max_extended_days_per_week data"
    and "0 \<le> d \<Longrightarrow> d < num_days data \<Longrightarrow>
           (a (ext_flag_T_var d i) = 1 \<and> driving_minutes_T a data d i > drive_minutes_daily data) \<or>
           (a (ext_flag_T_var d i) = 0 \<and> driving_minutes_T a data d i \<le> drive_minutes_daily data)"
proof -
  let ?idxs = "filter (in_week cal data yw) (py_range 0 (num_days data))"
  let ?P = "\<lambda>d. driving_minutes_T a data d i > drive_minutes_daily data"
  have "int (length (filter ?P ?idxs)) \<le> max_extended_days_per_week data"
  proof (cases "?idxs = []")
    case True
    then show ?thesis using cap by simp
  next
    case False
    then have w: "(yw, ?idxs) \<in> set (weeks cal data)" unfolding weeks_groups by simp
    show ?thesis
    proof (rule group_count[where e = "\<lambda>d. a (ext_flag_T_var d i)"])
      fix d assume "d \<in> set ?idxs"
      from ext_flag_T(1)[OF m f cap w i this]
      show "(a (ext_flag_T_var d i) = 1 \<and> ?P d) \<or> (a (ext_flag_T_var d i) = 0 \<and> \<not> ?P d)"
        by auto
    next
      show "sum_list (map (\<lambda>d. a (ext_flag_T_var d i)) ?idxs) \<le> max_extended_days_per_week data"
        by (rule ext_flag_T(2)[OF m f cap w i])
    qed
  qed
  then show "int (length (filter (\<lambda>d. in_week cal data yw d \<and> ?P d)
             (py_range 0 (num_days data)))) \<le> max_extended_days_per_week data"
    by (simp add: filter_filter conj_commute)
  assume d: "0 \<le> d" "d < num_days data"
  from week_of_day[OF d, of cal] obtain idxs where
    "(year_week cal (day_at data d), idxs) \<in> set (weeks cal data)" "d \<in> set idxs" by blast
  from ext_flag_T(1)[OF m f cap this(1) i this(2)]
  show "(a (ext_flag_T_var d i) = 1 \<and> driving_minutes_T a data d i > drive_minutes_daily data) \<or>
        (a (ext_flag_T_var d i) = 0 \<and> driving_minutes_T a data d i \<le> drive_minutes_daily data)" .
qed

lemma extended_days_L:
  assumes m: "build_model lib cal data = Inr m" and f: "feasible a m"
    and cap: "0 \<le> max_extended_days_per_week data"
    and j: "0 \<le> j" "j < drivers_L_base data"
  shows "int (length (filter (\<lambda>d. in_week cal data yw d \<and>
                 driving_minutes_L a data d j > drive_minutes_daily data)
             (py_range 0 (num_days data)))) \<le> max_extended_days_per_week data"
    and "0 \<le> d \<Longrightarrow> d < num_days data \<Longrightarrow>
           (a (ext_flag_L_var d j) = 1 \<and> driving_minutes_L a data d j > drive_minutes_daily data) \<or>
           (a (ext_flag_L_var d j) = 0 \<and> driving_minutes_L a data d j \<le> drive_minutes_daily data)"
proof -
  let ?idxs = "filter (in_week cal data yw) (py_range 0 (num_days data))"
  let ?P = "\<lambda>d. driving_minutes_L a data d j > drive_minutes_daily data"
  have "int (length (filter ?P ?idxs)) \<le> max_extended_days_per_week data"
  proof (cases "?idxs = []")
    case True
    then show ?thesis using cap by simp
  next
    case False
    then have w: "(yw, ?idxs) \<in> set (weeks cal data)" unfolding weeks_groups by simp
    show ?thesis
    proof (rule group_count[where e = "\<lambda>d. a (ext_flag_L_var d j)"])
      fix d assume "d \<in> set ?idxs"
      from ext_flag_L(1)[OF m f cap w j this]
      show "(a (ext_flag_L_var d j) = 1 \<and> ?P d) \<or> (a (ext_flag_L_var d j) = 0 \<and> \<not> ?P d)"
        by auto
    next
      show "sum_list (map (\<lambda>d. a (ext_flag_L_var d j)) ?idxs) \<le> max_extended_days_per_week data"
        by (rule ext_flag_L(2)[OF m f cap w j])
    qed
  qed
  then show "int (length (filter (\<lambda>d. in_week cal data yw d \<and> ?P d)
             (py_range 0 (num_days data)))) \<le> max_extended_days_per_week data"
    by (simp add: filter_filter conj_commute)
  assume d: "0 \<le> d" "d < num_days data"
  from week_of_day[OF d, of cal] obtain idxs where
    "(year_week cal (day_at data d), idxs) \<in> set (weeks cal data)" "d \<in> set idxs" by blast
  from ext_flag_L(1)[OF m f cap this(1) j this(2)]
  show "(a (ext_flag_L_var d j) = 1 \<and> driving_minutes_L a data d j > drive_minutes_daily data) \<or>
        (a (ext_flag_L_var d j) = 0 \<and> driving_minutes_L a data d j \<le> drive_minutes_daily data)" .
qed

text \<open>
  C9. When \<open>max_extended_days_per_week \<ge> 0\<close>, in every feasible assignment, for every
  driver (Tirano and Livigno) and every ISO week \<open>yw\<close>, the number of days of the week on
  which the driver's driving minutes strictly exceed \<open>drive_minutes_daily\<close> is at most
  \<open>max_extended_days_per_week\<close>. The count rests on one 0/1 indicator per driver and day
  that is enforced in both directions: it is 1 and the driving minutes exceed the daily
  limit, or it is 0 and they do not.
\<close>

theorem extended_days_per_week:
  assumes "build_model lib cal data = Inr m" and "feasible a m"
    and "0 \<le> max_extended_days_per_week data" and "0 \<le> i"
  shows "(i < drivers_T_base data \<longrightarrow>
            int (length (filter (\<lambda>d. in_week cal data yw d \<and>
                    driving_minutes_T a data d i > drive_minutes_daily data)
                  (py_range 0 (num_days data)))) \<le> max_extended_days_per_week data \<and>
            (\<forall>d. 0 \<le> d \<and> d < num_days data \<longrightarrow>
               (a (ext_flag_T_var d i) = 1 \<and>
                  driving_minutes_T a data d i > drive_minutes_daily data) \<or>
               (a (ext_flag_T_var d i) = 0 \<and>
                  driving_minutes_T a data d i \<le> drive_minutes_daily data))) \<and>
         (i < drivers_L_base data \<longrightarrow>
            int (length (filter (\<lambda>d. in_week cal data yw d \<and>
                    driving_minutes_L a data d i > drive_minutes_daily data)
                  (py_range 0 (num_days data)))) \<le> max_extended_days_per_week data \<and>
            (\<forall>d. 0 \<le> d \<and> d < num_days data \<longrightarrow>
               (a (ext_flag_L_var d i) = 1 \<and>
                  driving_minutes_L a data d i > drive_minutes_daily data) \<or>
               (a (ext_flag_L_var d i) = 0 \<and>
                  driving_minutes_L a data d i \<le> drive_minutes_daily data)))"
  using extended_days_T[OF assms] extended_days_L[OF assms] by blast

text \<open>The supply of 300 driving minutes against a daily limit of 200: one extended day.\<close>

theorem extended_days_per_week_witness:
  "build_model int64_library cal_const req9 = Inr model9 \<and> feasible asg9 model9 \<and>
   0 \<le> max_extended_days_per_week req9 \<and> (0::int) < drivers_T_base req9 \<and>
   int (length (filter (\<lambda>d. in_week cal_const req9 (2024, 23) d \<and>
           driving_minutes_T asg9 req9 d 0 > drive_minutes_daily req9)
         (py_range 0 (num_days req9)))) \<le> max_extended_days_per_week req9 \<and>
   asg9 (ext_flag_T_var 0 0) = 1 \<and> driving_minutes_T asg9 req9 0 0 > drive_minutes_daily req9 \<and>
   length (filter (\<lambda>d. in_week cal_const req9 (2024, 23) d \<and>
           driving_minutes_T asg9 req9 d 0 > drive_minutes_daily req9)
         (py_range 0 (num_days req9))) = 1 \<and>
   (0::int) < drivers_L_base req9 \<and>
   asg9 (ext_flag_L_var 0 0) = 0 \<and> driving_minutes_L asg9 req9 0 0 \<le> drive_minutes_daily req9 \<and>
   length (filter (\<lambda>d. in_week cal_const req9 (2024, 23) d \<and>
           driving_minutes_L asg9 req9 d 0 > drive_minutes_daily req9)
         (py_range 0 (num_days req9))) = 0"
  using extended_days_per_week[OF req9_build req9_feasible, of 0 "(2024, 23)"]
  by (simp add: req9_build req9_feasible req9_params req9_driving req9_driving_L in_week_def
      year_week_def cal_const_def py_range_def)


section \<open>C10: \<open>build_days\<close>\<close>

declare days_loop.simps [simp del]

lemma kept_dates_step:
  "cur \<le> end \<Longrightarrow> kept_dates inc cur end =
     (if inc \<or> weekday cur < 5 then cur # kept_dates inc (cur + 1) end
      else kept_dates inc (cur + 1) end)"
  by (simp add: kept_dates_def upto_rec1[of cur "end"])

lemma kept_dates_empty: "end < cur \<Longrightarrow> kept_dates inc cur end = []"
  by (simp add: kept_dates_def)

lemma days_loop_result:
  "end < max_ordinal \<Longrightarrow>
   days_loop isoformat end d_t d_l inc cur idx acc =
     Inr (acc @ map (day_of isoformat d_t d_l) (enumerate idx (kept_dates inc cur end)))"
proof (induction isoformat "end" d_t d_l inc cur idx acc rule: days_loop.induct)
  case (1 isoformat "end" d_t d_l inc cur idx acc)
  show ?case
  proof (cases "cur \<le> end")
    case False
    then show ?thesis
      by (subst days_loop.simps) (simp add: kept_dates_empty)
  next
    case True
    then have no: "\<not> cur + 1 > max_ordinal" using "1.prems" by simp
    show ?thesis
    proof (cases "\<not> inc \<and> weekday cur \<ge> 5")
      case skip: True
      then show ?thesis
        using "1.IH"(1)[OF True refl skip no "1.prems"] True no
        by (subst days_loop.simps) (simp add: kept_dates_step[of cur "end"])
    next
      case keep: False
      then have k: "inc \<or> weekday cur < 5" by auto
      note ih = "1.IH"(2)[OF True refl keep refl refl refl no "1.prems"]
      show ?thesis
      proof (cases inc)
        case True
        with ih \<open>cur \<le> end\<close> no show ?thesis
          by (subst days_loop.simps) (simp add: kept_dates_step[of cur "end"] day_of_def Let_def)
      next
        case False
        with k have "\<not> 5 \<le> weekday cur" by simp
        with False ih \<open>cur \<le> end\<close> no show ?thesis
          by (subst days_loop.simps) (simp add: kept_dates_step[of cur "end"] day_of_def Let_def)
      qed
    qed
  qed
qed

lemma days_loop_overflow:
  "max_ordinal \<le> end \<Longrightarrow> cur \<le> end \<Longrightarrow>
   days_loop isoformat end d_t d_l inc cur idx acc = Inl OverflowError"
proof (induction isoformat "end" d_t d_l inc cur idx acc rule: days_loop.induct)
  case (1 isoformat "end" d_t d_l inc cur idx acc)
  note le = "1.prems"(2)
  show ?case
  proof (cases "cur + 1 > max_ordinal")
    case True
    then show ?thesis using le
      by (subst days_loop.simps) (simp add: Let_def)
  next
    case no: False
    then have next_le: "cur + 1 \<le> end" using "1.prems"(1) by simp
    show ?thesis
    proof (cases "\<not> inc \<and> weekday cur \<ge> 5")
      case skip: True
      then show ?thesis
        using "1.IH"(1)[OF le refl skip no "1.prems"(1) next_le] le no
        by (subst days_loop.simps) simp
    next
      case keep: False
      note ih = "1.IH"(2)[OF le refl keep refl refl refl no "1.prems"(1) next_le]
      show ?thesis
      proof (cases inc)
        case True
        with ih le no show ?thesis
          by (subst days_loop.simps) (simp add: Let_def)
      next
        case False
        with keep have "\<not> 5 \<le> weekday cur" by simp
        with False ih le no show ?thesis
          by (subst days_loop.simps) (simp add: Let_def)
      qed
    qed
  qed
qed

lemma kept_dates_sorted: "sorted_wrt (<) (kept_dates inc start end)"
  unfolding kept_dates_def by (rule sorted_wrt_filter) simp

lemma kept_dates_set:
  "set (kept_dates inc start end) = {cur. start \<le> cur \<and> cur \<le> end \<and> (inc \<or> weekday cur < 5)}"
  by (auto simp: kept_dates_def)

lemma avail_val_uncovered:
  "length xs \<le> idx \<Longrightarrow> avail_val (Seq xs) day_str idx = 0"
  "m day_str = None \<Longrightarrow> avail_val (Dict m) day_str idx = 0"
  by simp_all

text \<open>
  C10. For every date range with \<open>start_date \<le> end_date\<close>, \<open>build_days\<close> returns one
  record per kept date, in strictly ascending date order: the dates from start to end,
  without Saturdays and Sundays when \<open>include_weekend\<close> is false. A day that a positional
  sequence is too short for, or that a date-keyed mapping has no entry for, receives
  availability 0. Missing availability data never makes it fail: its one failure on
  such a range is the library's overflow when the range ends on the last representable
  date, whatever the availability data.
\<close>

theorem build_days_availability:
  assumes "parse_date start_date = Some start" and "parse_date end_date = Some end"
    and "start \<le> end"
  shows "(end < max_ordinal \<longrightarrow>
            build_days parse_date isoformat start_date end_date d_t d_l include_weekend =
              Inr (map (day_of isoformat d_t d_l)
                     (enumerate 0 (kept_dates include_weekend start end)))) \<and>
         (max_ordinal \<le> end \<longrightarrow>
            build_days parse_date isoformat start_date end_date d_t d_l include_weekend =
              Inl OverflowError) \<and>
         sorted_wrt (<) (kept_dates include_weekend start end) \<and>
         set (kept_dates include_weekend start end) =
           {cur. start \<le> cur \<and> cur \<le> end \<and> (include_weekend \<or> weekday cur < 5)} \<and>
         (\<forall>xs day_str idx. length xs \<le> idx \<longrightarrow> avail_val (Seq xs) day_str idx = 0) \<and>
         (\<forall>m day_str idx. m day_str = None \<longrightarrow> avail_val (Dict m) day_str idx = 0)"
proof -
  have b: "build_days parse_date isoformat start_date end_date d_t d_l include_weekend =
      days_loop isoformat end d_t d_l include_weekend start 0 []"
    using assms by (simp add: build_days_def)
  show ?thesis
    unfolding b
    using days_loop_result[of "end" isoformat d_t d_l include_weekend start 0 "[]"]
      days_loop_overflow[of "end" start isoformat d_t d_l include_weekend 0 "[]"] assms(3)
      kept_dates_sorted[of include_weekend start "end"]
      kept_dates_set[of include_weekend start "end"]
    by simp
qed

text \<open>
  Friday to Monday without the weekend, a sequence of one entry and a mapping with Friday
  only: two records, Monday's availabilities both 0. A range that ends on 9999-12-31
  overflows.
\<close>

lemma june_dates: "kept_dates False 739044 739047 = [739044, 739047]"
  by (simp add: kept_dates_def weekday_def)

theorem build_days_availability_witness:
  "parse_june ''2024-06-07'' = Some 739044 \<and> parse_june ''2024-06-10'' = Some 739047 \<and>
   (739044::int) \<le> 739047 \<and> (739047::int) < max_ordinal \<and>
   build_days parse_june isoformat_june ''2024-06-07'' ''2024-06-10''
       (Seq [2]) (Dict [''2024-06-07'' \<mapsto> 1]) False =
     Inr [\<lparr>date = ''2024-06-07'', D_T = 2, D_L = 1\<rparr>, \<lparr>date = ''2024-06-10'', D_T = 0, D_L = 0\<rparr>] \<and>
   parse_june ''9999-12-31'' = Some 3652059 \<and> max_ordinal \<le> 3652059 \<and>
   build_days parse_june isoformat_june ''9999-12-31'' ''9999-12-31''
       (Seq [2]) (Dict [''2024-06-07'' \<mapsto> 1]) False = Inl OverflowError"
  using build_days_availability[of parse_june "''2024-06-07''" 739044 "''2024-06-10''" 739047
      isoformat_june "Seq [2]" "Dict [''2024-06-07'' \<mapsto> 1]" False]
    build_days_availability[of parse_june "''9999-12-31''" 3652059 "''9999-12-31''" 3652059
      isoformat_june "Seq [2]" "Dict [''2024-06-07'' \<mapsto> 1]" False]
  by (simp add: parse_june_def isoformat_june_def max_ordinal_def june_dates day_of_def)

end
